(* ===== verification/Prelude.thy ===== *)
theory Prelude
  imports Main "HOL-Library.Sublist"
begin

text \<open>
  Shared vocabulary of the development.  Nothing here models a file of the program: the theory
  fixes how the Rust standard library is read (the primitive integer widths, UTF-8 strings with
  their byte length, \<open>trim\<close>, \<open>is_control\<close>, \<open>strip_prefix\<close>, decimal printing, \<open>Result\<close>) and
  collects the facts on them that the component theories share.

  A \<open>Result<T, E>\<close> is \<open>'e + 't\<close> with \<open>Inl\<close> for \<open>Err\<close> and \<open>Inr\<close> for \<open>Ok\<close>; an \<open>Option\<close> is
  \<open>option\<close>; a \<open>String\<close> is the list of its UTF-8 bytes, so that \<open>length\<close> is Rust's \<open>len()\<close>.
  An \<open>i64\<close> is an \<open>int\<close> kept in range by the checked, saturating and wrapping operations
  below; a \<open>u32\<close>, \<open>u64\<close>, \<open>u128\<close> or \<open>usize\<close> is a \<open>nat\<close> with its bound written out where the
  code depends on it.
\<close>

named_theorems result_simps \<open>unfolding rules of the result combinators\<close>
named_theorems i64_simps \<open>the i64 operations on values that stay in range\<close>

section \<open>Results\<close>

definition is_ok :: "'e + 'a \<Rightarrow> bool" where
  "is_ok r = (case r of Inl _ \<Rightarrow> False | Inr _ \<Rightarrow> True)"

text \<open>The \<open>?\<close> operator: continue with the value, or return the error.\<close>

definition and_then :: "'e + 'a \<Rightarrow> ('a \<Rightarrow> 'e + 'b) \<Rightarrow> 'e + 'b" where
  "and_then r f = (case r of Inl e \<Rightarrow> Inl e | Inr x \<Rightarrow> f x)"

definition map_ok :: "('a \<Rightarrow> 'b) \<Rightarrow> 'e + 'a \<Rightarrow> 'e + 'b" where
  "map_ok f r = (case r of Inl e \<Rightarrow> Inl e | Inr x \<Rightarrow> Inr (f x))"

definition map_err :: "('e \<Rightarrow> 'f) \<Rightarrow> 'e + 'a \<Rightarrow> 'f + 'a" where
  "map_err f r = (case r of Inl e \<Rightarrow> Inl (f e) | Inr x \<Rightarrow> Inr x)"

definition ok_or :: "'e \<Rightarrow> 'a option \<Rightarrow> 'e + 'a" where
  "ok_or e x = (case x of None \<Rightarrow> Inl e | Some v \<Rightarrow> Inr v)"

text \<open>\<open>iter().map(f).collect::<Result<Vec<_>, _>>()\<close>: the first error wins.\<close>

fun collect :: "('a \<Rightarrow> 'e + 'b) \<Rightarrow> 'a list \<Rightarrow> 'e + 'b list" where
  "collect f [] = Inr []"
| "collect f (x # xs) =
     (case f x of Inl e \<Rightarrow> Inl e
      | Inr y \<Rightarrow> (case collect f xs of Inl e \<Rightarrow> Inl e | Inr ys \<Rightarrow> Inr (y # ys)))"

text \<open>A \<open>for\<close> loop whose body may return an error early.\<close>

fun for_each :: "('a \<Rightarrow> 'e + unit) \<Rightarrow> 'a list \<Rightarrow> 'e + unit" where
  "for_each f [] = Inr ()"
| "for_each f (x # xs) = (case f x of Inl e \<Rightarrow> Inl e | Inr _ \<Rightarrow> for_each f xs)"

section \<open>64-bit signed arithmetic\<close>

definition i64_min :: int where "i64_min = - (2 ^ 63)"
definition i64_max :: int where "i64_max = 2 ^ 63 - 1"
definition in_i64 :: "int \<Rightarrow> bool" where "in_i64 x \<longleftrightarrow> i64_min \<le> x \<and> x \<le> i64_max"

definition saturate_i64 :: "int \<Rightarrow> int" where
  "saturate_i64 x = max i64_min (min i64_max x)"

definition saturating_add :: "int \<Rightarrow> int \<Rightarrow> int" where
  "saturating_add a b = saturate_i64 (a + b)"

definition saturating_sub :: "int \<Rightarrow> int \<Rightarrow> int" where
  "saturating_sub a b = saturate_i64 (a - b)"

definition checked_add :: "int \<Rightarrow> int \<Rightarrow> int option" where
  "checked_add a b = (if in_i64 (a + b) then Some (a + b) else None)"

text \<open>
  The plain \<open>-\<close>.  The release profile of the workspace leaves overflow checks off, so a result
  out of range wraps around in two's complement.
\<close>

definition wrap_i64 :: "int \<Rightarrow> int" where
  "wrap_i64 x = (x + 2 ^ 63) mod 2 ^ 64 - 2 ^ 63"

definition sub_i64 :: "int \<Rightarrow> int \<Rightarrow> int" where
  "sub_i64 a b = wrap_i64 (a - b)"

definition u128_max :: nat where "u128_max = 2 ^ 128 - 1"
definition u32_max :: nat where "u32_max = 2 ^ 32 - 1"
definition u64_max :: nat where "u64_max = 2 ^ 64 - 1"

section \<open>Strings as UTF-8 bytes\<close>

abbreviation byte :: "char \<Rightarrow> nat" where "byte c \<equiv> of_char c"

definition is_digit :: "char \<Rightarrow> bool" where
  "is_digit c \<longleftrightarrow> 48 \<le> byte c \<and> byte c \<le> 57"

definition is_lower :: "char \<Rightarrow> bool" where
  "is_lower c \<longleftrightarrow> 97 \<le> byte c \<and> byte c \<le> 122"

definition is_upper :: "char \<Rightarrow> bool" where
  "is_upper c \<longleftrightarrow> 65 \<le> byte c \<and> byte c \<le> 90"

definition is_alphanumeric :: "char \<Rightarrow> bool" where
  "is_alphanumeric c \<longleftrightarrow> is_digit c \<or> is_lower c \<or> is_upper c"

definition is_hexdigit :: "char \<Rightarrow> bool" where
  "is_hexdigit c \<longleftrightarrow> is_digit c \<or> (97 \<le> byte c \<and> byte c \<le> 102) \<or> (65 \<le> byte c \<and> byte c \<le> 70)"

text \<open>\<open>to_ascii_lowercase\<close> and \<open>eq_ignore_ascii_case\<close>.\<close>

definition to_lower :: "char \<Rightarrow> char" where
  "to_lower c = (if is_upper c then char_of (byte c + 32) else c)"

definition to_ascii_lowercase :: "string \<Rightarrow> string" where
  "to_ascii_lowercase s = map to_lower s"

definition eq_ignore_ascii_case :: "string \<Rightarrow> string \<Rightarrow> bool" where
  "eq_ignore_ascii_case s t \<longleftrightarrow> to_ascii_lowercase s = to_ascii_lowercase t"

text \<open>
  \<open>chars().any(char::is_control)\<close> on the UTF-8 bytes: the C0 controls and DEL are single bytes,
  the C1 controls U+0080 to U+009F are \<open>C2 80\<close> to \<open>C2 9F\<close>.
\<close>

fun has_control :: "string \<Rightarrow> bool" where
  "has_control [] = False"
| "has_control (c # cs) =
     (byte c < 32 \<or> byte c = 127 \<or>
      (byte c = 0xC2 \<and> (case cs of [] \<Rightarrow> False | d # _ \<Rightarrow> 0x80 \<le> byte d \<and> byte d \<le> 0x9F)) \<or>
      has_control cs)"

text \<open>The UTF-8 encodings of the characters with the Unicode property \<open>White_Space\<close>.\<close>

definition white_space :: "string list" where
  "white_space = map (map char_of)
     ([[9], [10], [11], [12], [13], [32], [0xC2, 0x85], [0xC2, 0xA0], [0xE1, 0x9A, 0x80],
       [0xE2, 0x80, 0x80], [0xE2, 0x80, 0x81], [0xE2, 0x80, 0x82], [0xE2, 0x80, 0x83],
       [0xE2, 0x80, 0x84], [0xE2, 0x80, 0x85], [0xE2, 0x80, 0x86], [0xE2, 0x80, 0x87],
       [0xE2, 0x80, 0x88], [0xE2, 0x80, 0x89], [0xE2, 0x80, 0x8A], [0xE2, 0x80, 0xA8],
       [0xE2, 0x80, 0xA9], [0xE2, 0x80, 0xAF], [0xE2, 0x81, 0x9F], [0xE3, 0x80, 0x80]] :: nat list list)"

fun strip_front :: "nat \<Rightarrow> string list \<Rightarrow> string \<Rightarrow> string" where
  "strip_front 0 ws s = s"
| "strip_front (Suc n) ws s =
     (case find (\<lambda>w. prefix w s) ws of None \<Rightarrow> s | Some w \<Rightarrow> strip_front n ws (drop (length w) s))"

definition trim_start :: "string \<Rightarrow> string" where
  "trim_start s = strip_front (length s) white_space s"

definition trim_end :: "string \<Rightarrow> string" where
  "trim_end s = rev (strip_front (length s) (map rev white_space) (rev s))"

definition trim :: "string \<Rightarrow> string" where
  "trim s = trim_end (trim_start s)"

definition strip_prefix :: "string \<Rightarrow> string \<Rightarrow> string option" where
  "strip_prefix p s = (if prefix p s then Some (drop (length p) s) else None)"

text \<open>\<open>split_once(c)\<close> and \<open>split(c)\<close> for a single-byte separator.\<close>

fun split_once :: "char \<Rightarrow> string \<Rightarrow> (string \<times> string) option" where
  "split_once sep [] = None"
| "split_once sep (c # cs) =
     (if c = sep then Some ([], cs)
      else (case split_once sep cs of None \<Rightarrow> None | Some (a, b) \<Rightarrow> Some (c # a, b)))"

fun split_on :: "char \<Rightarrow> string \<Rightarrow> string list" where
  "split_on sep [] = [[]]"
| "split_on sep (c # cs) =
     (if c = sep then [] # split_on sep cs
      else (case split_on sep cs of [] \<Rightarrow> [[c]] | p # ps \<Rightarrow> (c # p) # ps))"

text \<open>\<open>n.to_string()\<close> of an unsigned integer.\<close>

definition digit :: "nat \<Rightarrow> char" where
  "digit d = char_of (48 + d)"

fun show_nat :: "nat \<Rightarrow> string" where
  "show_nat n = (if n < 10 then [digit n] else show_nat (n div 10) @ [digit (n mod 10)])"

declare show_nat.simps [simp del]

section \<open>Facts on results\<close>

lemma is_ok_simps [simp]: "is_ok (Inr x)" "\<not> is_ok (Inl e)"
  by (simp_all add: is_ok_def)

lemma is_ok_iff: "is_ok r \<longleftrightarrow> (\<exists>x. r = Inr x)"
  by (cases r) auto

lemma and_then_simps [simp, result_simps]:
  "and_then (Inl e) f = Inl e" "and_then (Inr x) f = f x"
  by (simp_all add: and_then_def)

lemma and_then_Inr [result_simps]:
  "and_then r f = Inr y \<longleftrightarrow> (\<exists>x. r = Inr x \<and> f x = Inr y)"
  by (cases r) auto

lemma map_ok_Inr [result_simps]: "map_ok f r = Inr y \<longleftrightarrow> (\<exists>x. r = Inr x \<and> y = f x)"
  by (cases r) (auto simp: map_ok_def)

lemma map_err_Inr [result_simps]: "map_err f r = Inr y \<longleftrightarrow> r = Inr y"
  by (cases r) (auto simp: map_err_def)

lemma ok_or_Inr [result_simps]: "ok_or e x = Inr v \<longleftrightarrow> x = Some v"
  by (cases x) (auto simp: ok_or_def)

lemma case_option_Inr [result_simps]:
  "(case x of None \<Rightarrow> a | Some c \<Rightarrow> f c) = Inr y \<longleftrightarrow> x = None \<and> a = Inr y \<or> (\<exists>c. x = Some c \<and> f c = Inr y)"
  by (cases x) auto

lemma if_error_Inr [result_simps]:
  "(if b then Inl e else r) = Inr y \<longleftrightarrow> \<not> b \<and> r = Inr y"
  "(if b then r else Inl e) = Inr y \<longleftrightarrow> b \<and> r = Inr y"
  by auto

lemma collect_Inr [result_simps]: "collect f xs = Inr ys \<longleftrightarrow> map f xs = map Inr ys"
proof (induction xs arbitrary: ys)
  case Nil
  then show ?case by auto
next
  case (Cons x xs)
  have "collect f xs = Inl e \<Longrightarrow> map f xs \<noteq> map Inr zs" for e zs
    using Cons.IH [of zs] by simp
  then show ?case
    by (cases ys) (auto split: sum.splits simp: Cons.IH)
qed

lemma for_each_Inr [result_simps]:
  "for_each f xs = Inr u \<longleftrightarrow> (\<forall>x\<in>set xs. f x = Inr ())"
  by (induction xs) (auto split: sum.splits)

section \<open>Facts on integers\<close>

lemma i64_bounds: "i64_min = - 9223372036854775808" "i64_max = 9223372036854775807"
  by (simp_all add: i64_min_def i64_max_def)

lemma saturate_i64_id [i64_simps]: "in_i64 x \<Longrightarrow> saturate_i64 x = x"
  by (auto simp: in_i64_def saturate_i64_def)

lemma in_i64_saturate [i64_simps]: "in_i64 (saturate_i64 x)"
  by (auto simp: in_i64_def saturate_i64_def i64_bounds)

lemma saturate_i64_mono: "x \<le> y \<Longrightarrow> saturate_i64 x \<le> saturate_i64 y"
  by (auto simp: saturate_i64_def)

lemma wrap_i64_id [i64_simps]: "in_i64 x \<Longrightarrow> wrap_i64 x = x"
  by (simp add: in_i64_def wrap_i64_def i64_bounds)

lemma checked_add_Some: "checked_add a b = Some c \<longleftrightarrow> c = a + b \<and> in_i64 (a + b)"
  by (auto simp: checked_add_def)

section \<open>Facts on strings\<close>

lemma eq_ignore_ascii_case_refl [simp]: "eq_ignore_ascii_case s s"
  by (simp add: eq_ignore_ascii_case_def)

lemma eq_ignore_ascii_case_sym: "eq_ignore_ascii_case s t \<Longrightarrow> eq_ignore_ascii_case t s"
  by (simp add: eq_ignore_ascii_case_def)

lemma eq_ignore_ascii_case_trans:
  "eq_ignore_ascii_case s t \<Longrightarrow> eq_ignore_ascii_case t u \<Longrightarrow> eq_ignore_ascii_case s u"
  by (simp add: eq_ignore_ascii_case_def)

lemma split_once_Some:
  "split_once sep s = Some (a, b) \<longleftrightarrow> s = a @ sep # b \<and> sep \<notin> set a"
proof (induction s arbitrary: a)
  case Nil
  then show ?case by simp
next
  case (Cons c cs)
  show ?case
  proof (cases a)
    case Nil
    then show ?thesis by (auto split: option.split)
  next
    case a: (Cons d ds)
    have "split_once sep (c # cs) = Some (d # ds, b) \<longleftrightarrow> c = d \<and> c \<noteq> sep \<and> split_once sep cs = Some (ds, b)"
      by (auto split: option.splits)
    then show ?thesis
      unfolding a by (auto simp: Cons.IH)
  qed
qed

lemma split_once_append: "sep \<notin> set a \<Longrightarrow> split_once sep (a @ sep # b) = Some (a, b)"
  by (simp add: split_once_Some)

lemma byte_digit: "d < 10 \<Longrightarrow> byte (digit d) = 48 + d"
  by (simp add: digit_def)

lemma is_digit_digit: "d < 10 \<Longrightarrow> is_digit (digit d)"
  by (simp add: is_digit_def byte_digit)

lemma digit_inject: "m < 10 \<Longrightarrow> n < 10 \<Longrightarrow> digit m = digit n \<longleftrightarrow> m = n"
  by (metis byte_digit add_left_cancel)

lemma show_nat_digits: "c \<in> set (show_nat n) \<Longrightarrow> is_digit c"
proof (induction n rule: less_induct)
  case (less n)
  show ?case
  proof (cases "n < 10")
    case True
    with less.prems show ?thesis by (simp add: show_nat.simps [of n] is_digit_digit)
  next
    case False
    with less.prems have "c \<in> set (show_nat (n div 10)) \<or> c = digit (n mod 10)"
      by (auto simp: show_nat.simps [of n])
    with less.IH [of "n div 10"] False show ?thesis by (auto simp: is_digit_digit)
  qed
qed

lemma show_nat_nonempty [simp]: "show_nat n \<noteq> []"
  by (subst show_nat.simps) simp

lemma show_nat_big: "\<not> n < 10 \<Longrightarrow> show_nat n = show_nat (n div 10) @ [digit (n mod 10)]"
  by (subst show_nat.simps) simp

lemma show_nat_small: "n < 10 \<Longrightarrow> show_nat n = [digit n]"
  by (subst show_nat.simps) simp

lemma show_nat_inject: "show_nat m = show_nat n \<Longrightarrow> m = n"
proof (induction m arbitrary: n rule: less_induct)
  case (less m)
  consider "m < 10" "n < 10" | "m < 10" "\<not> n < 10" | "\<not> m < 10" "n < 10" | "\<not> m < 10" "\<not> n < 10"
    by blast
  then show ?case
  proof cases
    case 1
    with less.prems show ?thesis by (simp add: show_nat_small digit_inject)
  next
    case 2
    with less.prems show ?thesis by (simp add: show_nat_small show_nat_big Cons_eq_append_conv)
  next
    case 3
    with less.prems show ?thesis by (simp add: show_nat_small show_nat_big append_eq_Cons_conv)
  next
    case 4
    with less.prems have eq: "show_nat (m div 10) = show_nat (n div 10)" and "digit (m mod 10) = digit (n mod 10)"
      by (simp_all add: show_nat_big)
    then have "m mod 10 = n mod 10" by (simp add: digit_inject)
    moreover have "m div 10 = n div 10" using less.IH [OF _ eq] 4 by simp
    ultimately show ?thesis by (metis div_mult_mod_eq)
  qed
qed

section \<open>Facts on lists\<close>

lemma set_map_filter: "set (List.map_filter f xs) = {y. \<exists>x\<in>set xs. f x = Some y}"
  by (induction xs) (auto simp: List.map_filter_simps split: option.splits)

end
