(* ===== verification/Reasons.thy ===== *)
theory Reasons
  imports Prelude
begin

text \<open>
  The stable reason codes and the core error of \<open>crates/shaula-core/src/error.rs\<close>.  A summary
  keeps the fixed text of the source; the values that \<open>format!\<close> interpolates into some
  summaries (an address, a count) are left out of the model, since no code path reads them back.
\<close>

datatype reason_code =
    SpecAccepted | SpecInvalid | TemplateNotFound | TemplateNotActive | TemplateInvalid
  | TemplatePlanFailed | TemplateExecutionFailed | AuthProfileNotFound | AuthTargetDenied
  | CredentialMalformed | Unauthenticated | PermissionDenied | TargetHiddenOrNotFound
  | RateLimited | TargetNotAllowed | InstallationNotFound | InstallationSuspended
  | InstallationChanged | TargetIdentityChanged | TargetPolicyInUse | AmbiguousInstallation
  | AccessVerificationFailed | OwnershipProofFailed | OwnershipConflict | ScaleSetMissing
  | ScaleSetMissingWithResources | ScaleSetCreateUncertain | ScaleSetLabelsPending
  | ScaleSetLabelsUpdateUncertain | UnknownRemoteRunner | JobStillRunning | JitOutcomeUncertain
  | QuotaExceeded | OccupiedNonZero | StorageUnavailable | StorageCorrupt | Internal

fun reason_as_str :: "reason_code \<Rightarrow> string" where
  "reason_as_str SpecAccepted = ''SpecAccepted''"
| "reason_as_str SpecInvalid = ''SpecInvalid''"
| "reason_as_str TemplateNotFound = ''TemplateNotFound''"
| "reason_as_str TemplateNotActive = ''TemplateNotActive''"
| "reason_as_str TemplateInvalid = ''TemplateInvalid''"
| "reason_as_str TemplatePlanFailed = ''TemplatePlanFailed''"
| "reason_as_str TemplateExecutionFailed = ''TemplateExecutionFailed''"
| "reason_as_str AuthProfileNotFound = ''AuthProfileNotFound''"
| "reason_as_str AuthTargetDenied = ''AuthTargetDenied''"
| "reason_as_str CredentialMalformed = ''CredentialMalformed''"
| "reason_as_str Unauthenticated = ''Unauthenticated''"
| "reason_as_str PermissionDenied = ''PermissionDenied''"
| "reason_as_str TargetHiddenOrNotFound = ''TargetHiddenOrNotFound''"
| "reason_as_str RateLimited = ''RateLimited''"
| "reason_as_str TargetNotAllowed = ''TargetNotAllowed''"
| "reason_as_str InstallationNotFound = ''InstallationNotFound''"
| "reason_as_str InstallationSuspended = ''InstallationSuspended''"
| "reason_as_str InstallationChanged = ''InstallationChanged''"
| "reason_as_str TargetIdentityChanged = ''TargetIdentityChanged''"
| "reason_as_str TargetPolicyInUse = ''TargetPolicyInUse''"
| "reason_as_str AmbiguousInstallation = ''AmbiguousInstallation''"
| "reason_as_str AccessVerificationFailed = ''AccessVerificationFailed''"
| "reason_as_str OwnershipProofFailed = ''OwnershipProofFailed''"
| "reason_as_str OwnershipConflict = ''OwnershipConflict''"
| "reason_as_str ScaleSetMissing = ''ScaleSetMissing''"
| "reason_as_str ScaleSetMissingWithResources = ''ScaleSetMissingWithResources''"
| "reason_as_str ScaleSetCreateUncertain = ''ScaleSetCreateUncertain''"
| "reason_as_str ScaleSetLabelsPending = ''ScaleSetLabelsPending''"
| "reason_as_str ScaleSetLabelsUpdateUncertain = ''ScaleSetLabelsUpdateUncertain''"
| "reason_as_str UnknownRemoteRunner = ''UnknownRemoteRunner''"
| "reason_as_str JobStillRunning = ''JobStillRunning''"
| "reason_as_str JitOutcomeUncertain = ''JitOutcomeUncertain''"
| "reason_as_str QuotaExceeded = ''QuotaExceeded''"
| "reason_as_str OccupiedNonZero = ''OccupiedNonZero''"
| "reason_as_str StorageUnavailable = ''StorageUnavailable''"
| "reason_as_str StorageCorrupt = ''StorageCorrupt''"
| "reason_as_str Internal = ''Internal''"

record core_error =
  code :: reason_code
  summary :: string

definition core_error_new :: "reason_code \<Rightarrow> string \<Rightarrow> core_error" where
  "core_error_new c s = \<lparr>code = c, summary = s\<rparr>"

type_synonym 'a core_result = "core_error + 'a"

text \<open>\<open>Err(CoreError::new(code, summary))\<close>, the form every refusal of the core takes.\<close>

definition core_err :: "reason_code \<Rightarrow> string \<Rightarrow> 'a core_result" where
  "core_err c s = Inl (core_error_new c s)"

lemma core_err_neq [simp]: "core_err c s \<noteq> Inr x" "Inr x \<noteq> core_err c s"
  by (simp_all add: core_err_def)

lemma is_ok_core_err [simp]: "\<not> is_ok (core_err c s)"
  by (simp add: core_err_def)

lemma core_err_inject [simp]: "core_err c s = core_err d t \<longleftrightarrow> c = d \<and> s = t"
  by (simp add: core_err_def core_error_new_def)

lemma and_then_core_err [simp]: "and_then (core_err c s) f = core_err c s"
  by (simp add: core_err_def)

end
