(* ===== verification/Lifecycle.thy ===== *)
theory Lifecycle
  imports Reasons
begin

text \<open>
  The lifecycle of a Runner Generation: the states and the transition table of
  \<open>crates/shaula-core/src/lifecycle.rs\<close>, their ledger strings, and the runs that
  \<open>advance\<close> allows.
\<close>

section \<open>States and transitions\<close>

datatype generation_state =
    CreatePending | Creating | WaitingOnline | Idle | Busy | Retiring
  | DestroyPending | Destroying | CleanupRequired | Quarantined | Destroyed

fun as_str_repr :: "generation_state \<Rightarrow> string" where
  "as_str_repr CreatePending = ''CreatePending''"
| "as_str_repr Creating = ''Creating''"
| "as_str_repr WaitingOnline = ''WaitingOnline''"
| "as_str_repr Idle = ''Idle''"
| "as_str_repr Busy = ''Busy''"
| "as_str_repr Retiring = ''Retiring''"
| "as_str_repr DestroyPending = ''DestroyPending''"
| "as_str_repr Destroying = ''Destroying''"
| "as_str_repr CleanupRequired = ''CleanupRequired''"
| "as_str_repr Quarantined = ''Quarantined''"
| "as_str_repr Destroyed = ''Destroyed''"

definition from_str_repr :: "string \<Rightarrow> string + generation_state" where
  "from_str_repr v =
     (if v = ''CreatePending'' then Inr CreatePending
      else if v = ''Creating'' then Inr Creating
      else if v = ''WaitingOnline'' then Inr WaitingOnline
      else if v = ''Idle'' then Inr Idle
      else if v = ''Busy'' then Inr Busy
      else if v = ''Retiring'' then Inr Retiring
      else if v = ''DestroyPending'' then Inr DestroyPending
      else if v = ''Destroying'' then Inr Destroying
      else if v = ''CleanupRequired'' then Inr CleanupRequired
      else if v = ''Quarantined'' then Inr Quarantined
      else if v = ''Destroyed'' then Inr Destroyed
      else Inl ''unknown generation state'')"

fun counts_effective :: "generation_state \<Rightarrow> bool" where
  "counts_effective s = (s \<in> {CreatePending, Creating, WaitingOnline, Idle, Busy})"

fun counts_occupancy :: "generation_state \<Rightarrow> bool" where
  "counts_occupancy s = (s \<noteq> Destroyed)"

fun is_terminal :: "generation_state \<Rightarrow> bool" where
  "is_terminal s = (s = Destroyed)"

fun is_quarantined :: "generation_state \<Rightarrow> bool" where
  "is_quarantined s = (s = Quarantined)"

text \<open>The arms of the \<open>match (from, to)\<close> that answer \<open>true\<close>, in the order of the source; the
  last arm answers \<open>false\<close>.\<close>

definition transition_allowed :: "generation_state \<Rightarrow> generation_state \<Rightarrow> bool" where
  "transition_allowed from to = ((from, to) \<in> set
     [(CreatePending, Creating), (Creating, WaitingOnline), (Creating, CleanupRequired),
      (WaitingOnline, Idle), (WaitingOnline, CleanupRequired), (Idle, Busy), (Busy,
      Retiring), (Idle, Retiring), (CleanupRequired, Retiring), (CleanupRequired,
      Quarantined), (Retiring, Retiring), (Retiring, DestroyPending), (DestroyPending,
      Destroying), (Destroying, Destroyed), (Destroying, DestroyPending), (CreatePending,
      Quarantined), (Creating, Quarantined), (WaitingOnline, Quarantined), (Idle,
      Quarantined), (Busy, Quarantined), (Retiring, Quarantined), (DestroyPending,
      Quarantined), (Destroying, Quarantined), (Quarantined, Destroyed)])"

definition advance :: "generation_state \<Rightarrow> generation_state \<Rightarrow> string + generation_state" where
  "advance current nxt =
     (if transition_allowed current nxt then Inr nxt else Inl ''illegal lifecycle transition'')"

section \<open>Runs\<close>

text \<open>The states a Generation can get to by successful \<open>advance\<close> calls.\<close>

inductive reaches :: "generation_state \<Rightarrow> generation_state \<Rightarrow> bool" where
  reaches_refl: "reaches s s"
| reaches_step: "reaches s t \<Longrightarrow> advance t u = Inr v \<Longrightarrow> reaches s v"

text \<open>A run lists every state a Generation takes, in order.\<close>

fun valid_run :: "generation_state list \<Rightarrow> bool" where
  "valid_run (s # t # run) = (is_ok (advance s t) \<and> valid_run (t # run))"
| "valid_run _ = True"

inductive_simps reaches_cases: "reaches s t"

lemma transition_table [simp]:
  "transition_allowed CreatePending t \<longleftrightarrow> t = Creating \<or> t = Quarantined"
  "transition_allowed Creating t \<longleftrightarrow> t = WaitingOnline \<or> t = CleanupRequired \<or> t = Quarantined"
  "transition_allowed WaitingOnline t \<longleftrightarrow> t = Idle \<or> t = CleanupRequired \<or> t = Quarantined"
  "transition_allowed Idle t \<longleftrightarrow> t = Busy \<or> t = Retiring \<or> t = Quarantined"
  "transition_allowed Busy t \<longleftrightarrow> t = Retiring \<or> t = Quarantined"
  "transition_allowed Retiring t \<longleftrightarrow> t = Retiring \<or> t = DestroyPending \<or> t = Quarantined"
  "transition_allowed DestroyPending t \<longleftrightarrow> t = Destroying \<or> t = Quarantined"
  "transition_allowed Destroying t \<longleftrightarrow> t = Destroyed \<or> t = DestroyPending \<or> t = Quarantined"
  "transition_allowed CleanupRequired t \<longleftrightarrow> t = Retiring \<or> t = Quarantined"
  "transition_allowed Quarantined t \<longleftrightarrow> t = Destroyed"
  "transition_allowed Destroyed t \<longleftrightarrow> False"
  by (auto simp: transition_allowed_def)

lemma advance_Inr [simp]: "advance s t = Inr u \<longleftrightarrow> transition_allowed s t \<and> u = t"
  by (auto simp: advance_def)

lemma is_ok_advance [simp]: "is_ok (advance s t) \<longleftrightarrow> transition_allowed s t"
  by (simp add: advance_def)

lemma reaches_trans: "reaches t u \<Longrightarrow> reaches s t \<Longrightarrow> reaches s u"
  by (induction rule: reaches.induct) (auto intro: reaches.intros)

lemma reaches_one: "transition_allowed s t \<Longrightarrow> reaches s t"
  by (rule reaches_step [OF reaches_refl]) simp

lemma reaches_next: "reaches s t \<Longrightarrow> transition_allowed t u \<Longrightarrow> reaches s u"
  by (rule reaches_step) simp_all

lemma from_str_as_str: "from_str_repr (as_str_repr s) = Inr s"
  by (cases s) (simp_all add: from_str_repr_def)

lemma as_str_from_str: "from_str_repr v = Inr s \<Longrightarrow> as_str_repr s = v"
  by (auto simp: from_str_repr_def split: if_splits)

lemma transition_keeps_ineffective:
  "transition_allowed s t \<Longrightarrow> counts_effective t \<Longrightarrow> counts_effective s"
  by (cases s) auto

lemma transition_into_destroyed:
  "transition_allowed s Destroyed \<longleftrightarrow> s = Destroying \<or> s = Quarantined"
  by (cases s) simp_all

lemma into_destroying: "transition_allowed s Destroying \<longleftrightarrow> s = DestroyPending"
  by (cases s) simp_all

lemma into_destroy_pending:
  "transition_allowed s DestroyPending \<longleftrightarrow> s = Retiring \<or> s = Destroying"
  by (cases s) simp_all

section \<open>Properties\<close>

text \<open>Round trip of the ledger representation: decoding a persisted state string succeeds
  exactly on the strings that encoding writes, and returns the encoded state; every other
  string is refused.\<close>

theorem state_repr_roundtrip:
  "from_str_repr v = Inr s \<longleftrightarrow> v = as_str_repr s"
  using from_str_as_str as_str_from_str by metis

text \<open>A Generation that stopped counting toward Effective Capacity never counts again, on any
  run of \<open>advance\<close>: an uncertain Create is cleaned up, never applied again.\<close>

theorem ineffective_is_forever:
  assumes "reaches s t" and "\<not> counts_effective s"
  shows "\<not> counts_effective t"
  using assms(1,2)
proof (induction rule: reaches.induct)
  case (reaches_refl s)
  then show ?case .
next
  case (reaches_step s t u v)
  then have "transition_allowed t v" and "\<not> counts_effective t" by auto
  then show ?case using transition_keeps_ineffective by blast
qed

theorem ineffective_is_forever_witness:
  "reaches CleanupRequired Destroying \<and> \<not> counts_effective Destroying"
proof -
  have r: "reaches CleanupRequired Destroying"
    by (rule reaches_next [where t = DestroyPending], rule reaches_next [where t = Retiring],
        rule reaches_next [where t = CleanupRequired]) (simp_all add: reaches_refl)
  from r ineffective_is_forever [OF r] show ?thesis by simp
qed

lemma run_suffix: "valid_run (xs @ ys) \<Longrightarrow> valid_run ys"
proof (induction xs)
  case (Cons x xs)
  then show ?case by (cases "xs @ ys") auto
qed simp

lemma run_pred: "valid_run (xs @ [s, t]) \<Longrightarrow> transition_allowed s t"
  using run_suffix [of xs "[s, t]"] by simp

lemma run_butlast: "valid_run (xs @ [t]) \<Longrightarrow> valid_run xs"
proof (induction xs rule: valid_run.induct)
  case (1 s t run)
  then show ?case by simp
qed simp_all

text \<open>The last two states of a run, and the run that ends before its last state.\<close>

lemma run_last_step:
  assumes "valid_run (xs @ [t])" and "xs \<noteq> []"
  obtains ys s where "xs = ys @ [s]" and "transition_allowed s t" and "valid_run xs"
proof -
  obtain ys s where xs: "xs = ys @ [s]" using assms(2) by (metis rev_exhaust)
  then have "transition_allowed s t" using assms(1) run_pred [of ys s t] by simp
  moreover have "valid_run xs" using assms(1) run_butlast by blast
  ultimately show thesis using xs that by blast
qed

lemma run_destroy_order:
  "valid_run (CreatePending # xs @ [t]) \<Longrightarrow> Quarantined \<notin> set xs \<Longrightarrow>
   (t = DestroyPending \<longrightarrow> subseq [Retiring, DestroyPending] (xs @ [t])) \<and>
   (t = Destroying \<longrightarrow> subseq [Retiring, DestroyPending, Destroying] (xs @ [t])) \<and>
   (t = Destroyed \<longrightarrow> subseq [Retiring, DestroyPending, Destroying, Destroyed] (xs @ [t]))"
proof (induction "length xs" arbitrary: xs t)
  case 0
  then show ?case by (cases t) simp_all
next
  case (Suc n)
  then obtain ys s where xs: "xs = ys @ [s]" by (metis length_Suc_conv_rev)
  have run: "valid_run ((CreatePending # xs) @ [t])" using Suc.prems by simp
  then have st: "transition_allowed s t" using run_pred [of "CreatePending # ys" s t] xs by simp
  have "valid_run (CreatePending # ys @ [s])" using run_butlast [OF run] xs by simp
  then have IH: "(s = DestroyPending \<longrightarrow> subseq [Retiring, DestroyPending] xs) \<and>
     (s = Destroying \<longrightarrow> subseq [Retiring, DestroyPending, Destroying] xs)"
    using Suc.hyps(1) [of ys s] Suc.hyps(2) Suc.prems(2) xs by simp
  have snoc: "subseq as xs \<Longrightarrow> subseq (as @ [t]) (xs @ [t])" for as
    by (simp add: list_emb_append_mono)
  have "t = DestroyPending \<Longrightarrow> subseq [Retiring, DestroyPending] (xs @ [t])"
  proof -
    assume t: "t = DestroyPending"
    have "subseq [Retiring] xs"
    proof (cases "s = Retiring")
      case True
      then show ?thesis using xs by (simp add: subseq_singleton_left)
    next
      case False
      then have "s = Destroying" using st t by (simp add: into_destroy_pending)
      then have "subseq [Retiring, DestroyPending, Destroying] xs" using IH by simp
      then show ?thesis by (metis subseq_singleton_left subseq_Cons' list.set_intros(1) subseq_order.order_trans subseq_Cons2 list_emb_Nil)
    qed
    then show ?thesis using snoc [of "[Retiring]"] t by simp
  qed
  moreover have "t = Destroying \<Longrightarrow> subseq [Retiring, DestroyPending, Destroying] (xs @ [t])"
    using st IH snoc [of "[Retiring, DestroyPending]"] by (simp add: into_destroying)
  moreover have "t = Destroyed \<Longrightarrow> subseq [Retiring, DestroyPending, Destroying, Destroyed] (xs @ [t])"
    using st IH snoc [of "[Retiring, DestroyPending, Destroying]"] xs Suc.prems(2)
    by (auto simp: transition_into_destroyed)
  ultimately show ?case by blast
qed

text \<open>No shortcut to Destroyed: every run from CreatePending to Destroyed either passes through
  Quarantined (where only the operator's finalize leads on) or goes through Retiring,
  DestroyPending and Destroying, in that order, before it ends.\<close>

theorem destroyed_only_after_destroy:
  assumes "valid_run (CreatePending # run @ [Destroyed])"
  shows "Quarantined \<in> set run \<or> subseq [Retiring, DestroyPending, Destroying, Destroyed] (run @ [Destroyed])"
  using run_destroy_order [OF assms] by blast

theorem destroyed_only_after_destroy_witness:
  "subseq [Retiring, DestroyPending, Destroying, Destroyed]
     ([Creating, WaitingOnline, Idle, Busy, Retiring, DestroyPending, Destroying] @ [Destroyed])"
proof -
  have "valid_run (CreatePending # [Creating, WaitingOnline, Idle, Busy, Retiring, DestroyPending,
     Destroying] @ [Destroyed])" by simp
  from destroyed_only_after_destroy [OF this] show ?thesis by simp
qed

lemma reaches_quarantined: "s \<noteq> Destroyed \<Longrightarrow> s \<noteq> Quarantined \<Longrightarrow> reaches s Quarantined"
  by (cases s) (simp_all add: reaches_one)

text \<open>No lifecycle state is a trap: from every state some sequence of allowed transitions ends in
  Destroyed, and Destroyed is the only state without a successor.\<close>

theorem destroyed_always_reachable:
  "reaches s Destroyed \<and> ((\<forall>t. \<not> transition_allowed s t) \<longleftrightarrow> is_terminal s)"
proof
  have "reaches Quarantined Destroyed" by (rule reaches_one) simp
  then show "reaches s Destroyed"
    using reaches_quarantined [of s] reaches_trans reaches_refl by metis
  show "(\<forall>t. \<not> transition_allowed s t) \<longleftrightarrow> is_terminal s"
    by (cases s) auto
qed

end
