(* ===== verification/Capacity.thy ===== *)
theory Capacity
  imports Lifecycle
begin

text \<open>
  The Fleet capacity arithmetic of \<open>crates/shaula-core/src/capacity.rs\<close>: the policy and its
  validation, the target and the number of Creates to issue, with the \<open>i64\<close> operations of the
  source (the saturating addition, the wrapping subtractions).
\<close>

section \<open>Policy, demand and counters\<close>

record assigned_demand =
  total_assigned_jobs :: int

record capacity_policy =
  min_runners :: int
  max_runners :: int

record capacity_counters =
  effective_capacity :: int
  resource_occupancy :: int

definition max_capacity :: int where "max_capacity = 100000"

definition capacity_validate :: "capacity_policy \<Rightarrow> string + unit" where
  "capacity_validate p =
     (if min_runners p < 0 \<or> max_runners p < 0
      then Inl ''capacity values must be non-negative''
      else if max_runners p < min_runners p
      then Inl ''max_runners must be >= min_runners''
      else if min_runners p > max_capacity \<or> max_runners p > max_capacity
      then Inl ''capacity values must be <= 100000''
      else Inr ())"

definition target :: "capacity_policy \<Rightarrow> assigned_demand \<Rightarrow> int" where
  "target policy demand =
     min (max_runners policy) (saturating_add (min_runners policy) (total_assigned_jobs demand))"

definition create_count :: "capacity_policy \<Rightarrow> assigned_demand \<Rightarrow> capacity_counters \<Rightarrow> int" where
  "create_count policy demand counters =
     (let t = target policy demand
      in min (max (sub_i64 t (effective_capacity counters)) 0)
             (max (sub_i64 (max_runners policy) (resource_occupancy counters)) 0))"

section \<open>The counters of a ledger\<close>

text \<open>
  What the two counters mean: over the states of a Fleet's Generations, as
  \<open>generation_counts.rs\<close> tallies them.
\<close>

definition ledger_counters :: "generation_state list \<Rightarrow> capacity_counters" where
  "ledger_counters states =
     \<lparr>effective_capacity = int (length (filter counts_effective states)),
      resource_occupancy = int (length (filter counts_occupancy states))\<rparr>"

section \<open>Facts\<close>

lemma validate_iff:
  "capacity_validate p = Inr () \<longleftrightarrow>
     0 \<le> min_runners p \<and> min_runners p \<le> max_runners p \<and> max_runners p \<le> 100000"
  by (auto simp: capacity_validate_def max_capacity_def)

lemma target_validated:
  assumes "capacity_validate p = Inr ()" and "in_i64 (total_assigned_jobs d)"
  shows "target p d = min (max_runners p) (min_runners p + total_assigned_jobs d)"
  using assms
  by (auto simp: validate_iff target_def saturating_add_def saturate_i64_def in_i64_def i64_bounds)

lemma effective_le_occupancy:
  "length (filter counts_effective states) \<le> length (filter counts_occupancy states)"
proof (induction states)
  case (Cons s states)
  then show ?case by (cases s) auto
qed simp

text \<open>Counters of a Fleet with fewer Generations than \<open>i64\<close> can count.\<close>

definition counters_ok :: "capacity_counters \<Rightarrow> bool" where
  "counters_ok c \<longleftrightarrow> 0 \<le> effective_capacity c \<and> effective_capacity c \<le> resource_occupancy c
     \<and> resource_occupancy c \<le> 2 ^ 62"

lemma ledger_counters_ok: "length states \<le> 2 ^ 62 \<Longrightarrow> counters_ok (ledger_counters states)"
proof -
  assume "length states \<le> 2 ^ 62"
  then have "length (filter counts_occupancy states) \<le> 2 ^ 62"
    using length_filter_le [of counts_occupancy states] by linarith
  then show ?thesis
    using effective_le_occupancy [of states]
    by (simp add: counters_ok_def ledger_counters_def)
qed

lemma create_count_exact:
  assumes "capacity_validate p = Inr ()" and "in_i64 (total_assigned_jobs d)"
    and "0 \<le> total_assigned_jobs d" and "counters_ok c"
  shows "create_count p d c =
    min (max (min (max_runners p) (min_runners p + total_assigned_jobs d) - effective_capacity c) 0)
        (max (max_runners p - resource_occupancy c) 0)"
proof -
  have "in_i64 (min (max_runners p) (min_runners p + total_assigned_jobs d) - effective_capacity c)"
    and "in_i64 (max_runners p - resource_occupancy c)"
    using assms by (auto simp: validate_iff in_i64_def i64_bounds counters_ok_def)
  then show ?thesis
    by (simp add: create_count_def Let_def target_validated [OF assms(1,2)] sub_i64_def i64_simps)
qed

section \<open>Properties\<close>

text \<open>Under a validated policy and a non-negative demand snapshot of any size the target is the exact
  mathematical \<open>min(max, min + demand)\<close>, with no trace of the saturation; it lies between
  \<open>min_runners\<close> and \<open>max_runners\<close> and never decreases when demand grows.\<close>

theorem target_bounds:
  assumes "capacity_validate p = Inr ()" and "in_i64 (total_assigned_jobs d)"
    and "0 \<le> total_assigned_jobs d" and "total_assigned_jobs d \<le> total_assigned_jobs d'"
  shows "target p d = min (max_runners p) (min_runners p + total_assigned_jobs d)
    \<and> min_runners p \<le> target p d \<and> target p d \<le> max_runners p \<and> target p d \<le> target p d'"
proof -
  have "target p d \<le> target p d'"
    using assms(4) saturate_i64_mono [of "min_runners p + total_assigned_jobs d" "min_runners p + total_assigned_jobs d'"]
    by (simp add: target_def saturating_add_def min_le_iff_disj)
  then show ?thesis
    using assms target_validated [OF assms(1,2)] by (auto simp: validate_iff)
qed

theorem target_bounds_witness:
  "target \<lparr>min_runners = 2, max_runners = 20\<rparr> \<lparr>total_assigned_jobs = 4\<rparr> = 6
    \<and> target \<lparr>min_runners = 2, max_runners = 20\<rparr> \<lparr>total_assigned_jobs = 4\<rparr>
      \<le> target \<lparr>min_runners = 2, max_runners = 20\<rparr> \<lparr>total_assigned_jobs = 9223372036854775807\<rparr>"
  using target_bounds [of "\<lparr>min_runners = 2, max_runners = 20\<rparr>" "\<lparr>total_assigned_jobs = 4\<rparr>"
      "\<lparr>total_assigned_jobs = 9223372036854775807\<rparr>"]
  by (simp add: validate_iff in_i64_def i64_bounds)



text \<open>C37. Convergence in one round: when the Fleet has no occupied Generation that is not effective,
  and is not above its target, issuing the counted Creates makes effective capacity equal to the
  target, and the next count for the same demand is zero.\<close>

theorem create_count_converges:
  assumes "capacity_validate p = Inr ()" and "in_i64 (total_assigned_jobs d)"
    and "0 \<le> total_assigned_jobs d" and "counters_ok c"
    and "effective_capacity c = resource_occupancy c" and "effective_capacity c \<le> target p d"
  defines "n \<equiv> create_count p d c"
  defines "c' \<equiv> \<lparr>effective_capacity = effective_capacity c + n, resource_occupancy = resource_occupancy c + n\<rparr>"
  shows "effective_capacity c' = target p d \<and> create_count p d c' = 0"
proof -
  have t: "target p d = min (max_runners p) (min_runners p + total_assigned_jobs d)"
    by (rule target_validated [OF assms(1,2)])
  have n: "n = target p d - effective_capacity c"
    using assms(4-6) by (simp add: n_def create_count_exact [OF assms(1-4)] t)
  have c': "counters_ok c'"
    using assms(1,3-6) by (auto simp: c'_def n counters_ok_def t validate_iff)
  show ?thesis
    using n by (simp add: create_count_exact [OF assms(1-3) c'] t) (simp add: c'_def t)
qed

theorem create_count_converges_witness:
  "create_count \<lparr>min_runners = 1, max_runners = 10\<rparr> \<lparr>total_assigned_jobs = 3\<rparr>
     \<lparr>effective_capacity = 4, resource_occupancy = 4\<rparr> = 0"
proof -
  let ?p = "\<lparr>min_runners = 1, max_runners = 10\<rparr>" and ?d = "\<lparr>total_assigned_jobs = 3\<rparr>"
    and ?c = "\<lparr>effective_capacity = 1, resource_occupancy = 1\<rparr>"
  have h: "capacity_validate ?p = Inr ()" "in_i64 (total_assigned_jobs ?d)"
    "0 \<le> total_assigned_jobs ?d" "counters_ok ?c"
    by (simp_all add: validate_iff in_i64_def i64_bounds counters_ok_def)
  then show ?thesis
    using create_count_converges [OF h] create_count_exact [OF h]
    by (simp add: target_validated)
qed

end
