(* ===== verification/Identity.thy ===== *)
theory Identity
  imports Reasons
begin

text \<open>
  The identities of \<open>crates/shaula-core/src/auth.rs\<close>: stable identifiers, Auth Profile keys and
  revision references, the outcome codes of credential validation and the canonical hash
  material.  SHA-256 and hexadecimal encoding are library code: \<open>request_hash_parts\<close> takes the
  composition of both as a parameter.
\<close>

section \<open>Stable identifiers and profile keys\<close>

definition identifier_char :: "char \<Rightarrow> bool" where
  "identifier_char c \<longleftrightarrow> is_alphanumeric c \<or> c = CHR ''-'' \<or> c = CHR ''_'' \<or> c = CHR ''.''"

definition is_stable_identifier :: "string \<Rightarrow> bool" where
  "is_stable_identifier v \<longleftrightarrow> v \<noteq> [] \<and> length v \<le> 128 \<and> list_all identifier_char v"

definition auth_profile_key_new :: "string \<Rightarrow> string core_result" where
  "auth_profile_key_new v =
     (if \<not> is_stable_identifier v
      then core_err SpecInvalid ''auth profile key is not a stable identifier''
      else Inr v)"

definition validate_profile_key_for_fleet_ref :: "string \<Rightarrow> unit core_result" where
  "validate_profile_key_for_fleet_ref key = map_ok (\<lambda>_. ()) (auth_profile_key_new key)"

definition validate_attestation_key :: "string \<Rightarrow> unit core_result" where
  "validate_attestation_key key =
     (if \<not> is_stable_identifier key
      then core_err SpecInvalid ''attestation key is not a stable identifier''
      else Inr ())"

definition fleet_key_new :: "string \<Rightarrow> string core_result" where
  "fleet_key_new v =
     (if \<not> is_stable_identifier v
      then core_err SpecInvalid ''fleet key is not a stable identifier''
      else Inr v)"

datatype auth_kind = GithubApp | Pat | ForgejoToken | GitlabToken

fun auth_kind_as_str :: "auth_kind \<Rightarrow> string" where
  "auth_kind_as_str GithubApp = ''github_app''"
| "auth_kind_as_str Pat = ''pat''"
| "auth_kind_as_str ForgejoToken = ''forgejo_token''"
| "auth_kind_as_str GitlabToken = ''gitlab_token''"

record auth_revision_ref =
  ref_profile_key :: string
  ref_revision :: nat

definition show_auth_revision_ref :: "auth_revision_ref \<Rightarrow> string" where
  "show_auth_revision_ref r = ref_profile_key r @ ''/rev'' @ show_nat (ref_revision r)"

section \<open>Outcomes of credential validation\<close>

datatype credential_validation_outcome =
    CvAccepted | CvCredentialMalformed | CvUnauthenticated | CvPermissionDenied
  | CvTargetHiddenOrNotFound | CvRateLimited | CvTargetNotAllowed | CvInstallationNotFound
  | CvInstallationSuspended | CvInstallationChanged | CvTargetIdentityChanged
  | CvTargetPolicyInUse | CvAmbiguousInstallation

fun outcome_reason :: "credential_validation_outcome \<Rightarrow> reason_code" where
  "outcome_reason CvAccepted = SpecAccepted"
| "outcome_reason CvCredentialMalformed = CredentialMalformed"
| "outcome_reason CvUnauthenticated = Unauthenticated"
| "outcome_reason CvPermissionDenied = PermissionDenied"
| "outcome_reason CvTargetHiddenOrNotFound = TargetHiddenOrNotFound"
| "outcome_reason CvRateLimited = RateLimited"
| "outcome_reason CvTargetNotAllowed = TargetNotAllowed"
| "outcome_reason CvInstallationNotFound = InstallationNotFound"
| "outcome_reason CvInstallationSuspended = InstallationSuspended"
| "outcome_reason CvInstallationChanged = InstallationChanged"
| "outcome_reason CvTargetIdentityChanged = TargetIdentityChanged"
| "outcome_reason CvTargetPolicyInUse = TargetPolicyInUse"
| "outcome_reason CvAmbiguousInstallation = AmbiguousInstallation"

section \<open>Canonical hash material\<close>

text \<open>The bytes fed to the hasher, one length-prefixed part after the other.\<close>

definition hash_part :: "string \<Rightarrow> string" where
  "hash_part part = show_nat (length part) @ '':'' @ part @ ''|''"

definition hash_preimage :: "string list \<Rightarrow> string" where
  "hash_preimage parts = concat (map hash_part parts)"

definition request_hash_parts :: "(string \<Rightarrow> string) \<Rightarrow> string list \<Rightarrow> string" where
  "request_hash_parts sha256_hex parts = ''sha256:'' @ sha256_hex (hash_preimage parts)"

section \<open>Facts\<close>

lemma identifier_char_not:
  "\<not> identifier_char (CHR ''/'')" "\<not> identifier_char (CHR '' '')" "\<not> identifier_char (CHR '':'')"
  "\<not> identifier_char (CHR 0x00)"
  by (simp_all add: identifier_char_def is_alphanumeric_def is_digit_def is_lower_def is_upper_def)

lemma auth_profile_key_new_Inr [result_simps]:
  "auth_profile_key_new v = Inr k \<longleftrightarrow> k = v \<and> is_stable_identifier v"
  by (auto simp: auth_profile_key_new_def)

lemma validate_profile_key_Inr [result_simps]:
  "validate_profile_key_for_fleet_ref k = Inr () \<longleftrightarrow> is_stable_identifier k"
  by (auto simp: validate_profile_key_for_fleet_ref_def result_simps)

lemma colon_not_digit: "CHR '':'' \<notin> set (show_nat n)"
  using show_nat_digits [of "CHR '':''" n] by (auto simp: is_digit_def)

lemma slash_not_in_identifier: "is_stable_identifier v \<Longrightarrow> CHR ''/'' \<notin> set v"
  by (auto simp: is_stable_identifier_def list_all_iff identifier_char_not)

lemma hash_part_append_inject:
  assumes "hash_part p @ xs = hash_part q @ ys"
  shows "p = q \<and> xs = ys"
proof -
  have "split_once (CHR '':'') (hash_part p @ xs) = Some (show_nat (length p), p @ ''|'' @ xs)" for p xs
    by (simp add: hash_part_def split_once_append colon_not_digit)
  with assms have "show_nat (length p) = show_nat (length q)" and "p @ ''|'' @ xs = q @ ''|'' @ ys"
    by (metis option.inject prod.inject)+
  then show ?thesis by (auto dest: show_nat_inject)
qed

lemma hash_part_nonempty [simp]: "hash_part p \<noteq> []"
  by (simp add: hash_part_def)

section \<open>Properties\<close>

text \<open>C40. The canonical hash material is an injective encoding of the list of parts: two different
  tuples, whatever bytes they hold (separators, NULs, digits), are never fed to the hasher as
  the same byte string, so equal request hashes of different tuples can only be collisions of
  SHA-256 itself.\<close>

theorem hash_preimage_injective: "hash_preimage ps = hash_preimage qs \<longleftrightarrow> ps = qs"
proof
  show "hash_preimage ps = hash_preimage qs \<Longrightarrow> ps = qs"
  proof (induction ps arbitrary: qs)
    case Nil
    then show ?case by (cases qs) (simp_all add: hash_preimage_def)
  next
    case (Cons p ps)
    then obtain q qs' where qs: "qs = q # qs'"
      by (cases qs) (simp_all add: hash_preimage_def)
    have "hash_part p @ hash_preimage ps = hash_part q @ hash_preimage qs'"
      using Cons.prems qs by (simp add: hash_preimage_def)
    from hash_part_append_inject [OF this] Cons.IH [of qs'] qs show ?case by simp
  qed
qed simp

text \<open>The printed form \<open>key/revN\<close> of an Auth Revision reference identifies the whole tuple: two
  references over stable profile keys print the same only when key and revision both agree.\<close>

theorem show_auth_revision_ref_injective:
  assumes "is_stable_identifier (ref_profile_key r)" and "is_stable_identifier (ref_profile_key r')"
    and "show_auth_revision_ref r = show_auth_revision_ref r'"
  shows "r = r'"
proof -
  have "split_once (CHR ''/'') (show_auth_revision_ref r) = Some (ref_profile_key r, ''rev'' @ show_nat (ref_revision r))"
    if "is_stable_identifier (ref_profile_key r)" for r
    using split_once_append [OF slash_not_in_identifier [OF that]] by (simp add: show_auth_revision_ref_def)
  with assms have "ref_profile_key r = ref_profile_key r'" and "show_nat (ref_revision r) = show_nat (ref_revision r')"
    by (auto dest: arg_cong [where f = "split_once (CHR ''/'')"])
  then show ?thesis by (auto intro: auth_revision_ref.equality dest: show_nat_inject)
qed

theorem show_auth_revision_ref_injective_witness:
  "show_auth_revision_ref \<lparr>ref_profile_key = ''prod'', ref_revision = 3\<rparr> = ''prod/rev3''
   \<and> \<lparr>ref_profile_key = ''prod'', ref_revision = 3\<rparr> = \<lparr>ref_profile_key = ''pro'' @ ''d'', ref_revision = 7 - 4\<rparr>"
proof -
  let ?r = "\<lparr>ref_profile_key = ''prod'', ref_revision = 3\<rparr>"
    and ?r' = "\<lparr>ref_profile_key = ''pro'' @ ''d'', ref_revision = 7 - 4\<rparr>"
  have id: "is_stable_identifier ''prod''" by code_simp
  have "show_auth_revision_ref ?r = ''prod/rev3''" by code_simp
  moreover have "?r = ?r'"
    by (rule show_auth_revision_ref_injective) (use id in \<open>simp_all add: id\<close>)
  ultimately show ?thesis by blast
qed

end
