(* ===== verification/Jobs.thy ===== *)
theory Jobs
  imports Reasons
begin

text \<open>
  Workflow-job observations and their order-independent reduction,
  \<open>crates/shaula-core/src/jobs\<close> (\<open>mod.rs\<close>, \<open>metadata.rs\<close>, \<open>projection.rs\<close>, \<open>gitlab.rs\<close>,
  \<open>forgejo_result.rs\<close>).  An instant (\<open>chrono::DateTime\<close>) is used only through equality and
  order and is an integer here.
\<close>

section \<open>Observations\<close>

datatype observed_status =
    StQueued | StAssigned | StRunning | StCompleted | StAssignmentWithdrawn | StUnknown

fun observed_status_as_str :: "observed_status \<Rightarrow> string" where
  "observed_status_as_str StQueued = ''queued''"
| "observed_status_as_str StAssigned = ''assigned''"
| "observed_status_as_str StRunning = ''running''"
| "observed_status_as_str StCompleted = ''completed''"
| "observed_status_as_str StAssignmentWithdrawn = ''assignment_withdrawn''"
| "observed_status_as_str StUnknown = ''unknown''"

datatype association_status = Unverified | Verified | Ambiguous

datatype observation_kind = Available | Assigned | Started | Completed

fun observation_kind_as_str :: "observation_kind \<Rightarrow> string" where
  "observation_kind_as_str Available = ''Available''"
| "observation_kind_as_str Assigned = ''Assigned''"
| "observation_kind_as_str Started = ''Started''"
| "observation_kind_as_str Completed = ''Completed''"

record job_metadata =
  owner_name :: "string option"
  repository_name :: "string option"
  job_display_name :: "string option"
  job_workflow_ref :: "string option"
  workflow_run_id :: "int option"
  event_name :: "string option"
  queue_time :: "int option"
  scale_set_assign_time :: "int option"
  runner_assign_time :: "int option"
  finish_time :: "int option"

record job_observation =
  obs_id :: string
  kind :: observation_kind
  runner_request_id :: int
  runner_id :: "int option"
  obs_runner_name :: "string option"
  metadata :: job_metadata
  reported_result :: "string option"
  obs_epoch :: int
  obs_message_id :: int
  observed_at :: int
  generation_id :: "string option"
  association :: association_status

record job_projection =
  proj_metadata :: job_metadata
  proj_status :: observed_status
  proj_result :: "string option"
  proj_association :: association_status

definition conflicting :: "'a option \<Rightarrow> 'a option \<Rightarrow> bool" where
  "conflicting l r = (case (l, r) of (Some a, Some b) \<Rightarrow> a \<noteq> b | _ \<Rightarrow> False)"

definition identity_conflicts :: "job_metadata \<Rightarrow> job_metadata \<Rightarrow> bool" where
  "identity_conflicts m n \<longleftrightarrow>
     conflicting (owner_name m) (owner_name n)
     \<or> conflicting (repository_name m) (repository_name n)
     \<or> conflicting (workflow_run_id m) (workflow_run_id n)"

section \<open>Reduction\<close>

text \<open>\<open>values.flatten()\<close>: the present values, in order.\<close>

fun flatten :: "'a option list \<Rightarrow> 'a list" where
  "flatten [] = []"
| "flatten (None # vs) = flatten vs"
| "flatten (Some v # vs) = v # flatten vs"

definition unique :: "'a option list \<Rightarrow> 'a option" where
  "unique values = (case flatten values of
     [] \<Rightarrow> None
   | first # rest \<Rightarrow> if list_all (\<lambda>v. v = first) rest then Some first else None)"

definition merge_metadata :: "job_observation list \<Rightarrow> job_metadata" where
  "merge_metadata obs =
     \<lparr>owner_name = unique (map (\<lambda>x. owner_name (metadata x)) obs),
      repository_name = unique (map (\<lambda>x. repository_name (metadata x)) obs),
      job_display_name = unique (map (\<lambda>x. job_display_name (metadata x)) obs),
      job_workflow_ref = unique (map (\<lambda>x. job_workflow_ref (metadata x)) obs),
      workflow_run_id = unique (map (\<lambda>x. workflow_run_id (metadata x)) obs),
      event_name = unique (map (\<lambda>x. event_name (metadata x)) obs),
      queue_time = unique (map (\<lambda>x. queue_time (metadata x)) obs),
      scale_set_assign_time = unique (map (\<lambda>x. scale_set_assign_time (metadata x)) obs),
      runner_assign_time = unique (map (\<lambda>x. runner_assign_time (metadata x)) obs),
      finish_time = unique (map (\<lambda>x. finish_time (metadata x)) obs)\<rparr>"

definition same_assignment :: "job_observation \<Rightarrow> job_observation \<Rightarrow> bool" where
  "same_assignment l r =
     (if runner_request_id l > 0 \<and> runner_request_id r > 0
      then runner_request_id l = runner_request_id r
        \<and> scale_set_assign_time (metadata l) = scale_set_assign_time (metadata r)
      else l = r \<or> (scale_set_assign_time (metadata l) \<noteq> None
        \<and> scale_set_assign_time (metadata l) = scale_set_assign_time (metadata r)))"

definition same_execution :: "job_observation \<Rightarrow> job_observation \<Rightarrow> bool" where
  "same_execution l r \<longleftrightarrow>
     (if runner_request_id l > 0 \<and> runner_request_id r > 0
      then runner_request_id l = runner_request_id r
      else runner_request_id l = 0 \<and> runner_request_id r = 0
        \<and> (l = r \<or> scale_set_assign_time (metadata l) \<noteq> None
           \<or> runner_assign_time (metadata l) \<noteq> None))
     \<and> runner_id l \<noteq> None \<and> runner_id l = runner_id r
     \<and> generation_id l \<noteq> None \<and> generation_id l = generation_id r
     \<and> scale_set_assign_time (metadata l) = scale_set_assign_time (metadata r)
     \<and> runner_assign_time (metadata l) = runner_assign_time (metadata r)"

definition strictly_older :: "job_observation \<Rightarrow> job_observation \<Rightarrow> bool" where
  "strictly_older l r =
     (let by_runner = (case (runner_assign_time (metadata l), runner_assign_time (metadata r)) of
        (Some a, Some b) \<Rightarrow> a < b | _ \<Rightarrow> False)
      in case (scale_set_assign_time (metadata l), scale_set_assign_time (metadata r)) of
        (Some a, Some b) \<Rightarrow> if a \<noteq> b then a < b else by_runner
      | _ \<Rightarrow> by_runner)"

definition newest_start :: "job_observation list \<Rightarrow> job_observation option" where
  "newest_start starts =
     find (\<lambda>c. list_all (\<lambda>x. same_execution c x \<or> strictly_older x c) starts) starts"

definition without_execution :: "job_observation list \<Rightarrow> observed_status \<times> string option" where
  "without_execution obs =
     (if list_ex (\<lambda>x. kind x = Started) obs then (StUnknown, None)
      else let completed = filter (\<lambda>x. kind x = Completed) obs in
        if completed \<noteq> [] then
          let withdrawn = list_all (\<lambda>x. runner_id x = None \<and> reported_result x = Some ''canceled'') completed;
              newer_assignment = list_ex (\<lambda>x. kind x = Assigned
                \<and> list_all (\<lambda>previous. strictly_older previous x) completed) obs
          in if newer_assignment then (StAssigned, None)
             else if withdrawn then (StAssignmentWithdrawn, Some ''canceled'')
             else (StUnknown, unique (map reported_result completed))
        else if list_ex (\<lambda>x. kind x = Assigned) obs then (StAssigned, None)
        else if list_ex (\<lambda>x. kind x = Available) obs then (StQueued, None)
        else (StUnknown, None))"

text \<open>The loop that gathers the completions of the current execution; \<open>None\<close> is its early return.\<close>

fun gather_completions :: "job_observation \<Rightarrow> job_observation list \<Rightarrow> job_observation list option" where
  "gather_completions current [] = Some []"
| "gather_completions current (o1 # obs) =
     (if kind o1 \<noteq> Completed then gather_completions current obs
      else if same_execution current o1
      then map_option (\<lambda>cs. o1 # cs) (gather_completions current obs)
      else if \<not> strictly_older o1 current then None
      else gather_completions current obs)"

definition execution_status :: "job_observation list \<Rightarrow> observed_status \<times> string option" where
  "execution_status obs =
     (let starts = filter (\<lambda>x. kind x = Started \<and> association x = Verified) obs in
      if starts = [] then without_execution obs
      else case newest_start starts of
        None \<Rightarrow> (StUnknown, None)
      | Some current \<Rightarrow>
          let assignments = filter (\<lambda>x. kind x = Assigned) obs in
          if list_ex (\<lambda>a. strictly_older current a) assignments then
            (if list_ex (\<lambda>latest. strictly_older current latest
                  \<and> list_all (\<lambda>other. kind other = Available \<or> strictly_older other latest
                        \<or> same_assignment other latest) obs) assignments
             then (StAssigned, None) else (StUnknown, None))
          else if list_ex (\<lambda>a. \<not> same_assignment current a \<and> \<not> strictly_older a current) assignments
          then (StUnknown, None)
          else case gather_completions current obs of
            None \<Rightarrow> (StUnknown, None)
          | Some [] \<Rightarrow> (StRunning, None)
          | Some completions \<Rightarrow>
              let result = unique (map reported_result completions) in
              if list_ex (\<lambda>x. reported_result x \<noteq> None \<and> reported_result x \<noteq> result) completions
              then (StUnknown, None) else (StCompleted, result))"

definition has_conflict :: "job_observation list \<Rightarrow> bool" where
  "has_conflict obs = list_ex (\<lambda>l. association l = Ambiguous
     \<or> list_ex (\<lambda>r. identity_conflicts (metadata l) (metadata r)) obs) obs"

definition project_observations :: "job_observation list \<Rightarrow> job_projection" where
  "project_observations obs =
     (let conflict = has_conflict obs;
          association_status =
            (if conflict then Ambiguous
             else if list_ex (\<lambda>x. association x = Verified) obs then Verified
             else Unverified);
          st = (if conflict then (StUnknown, None) else execution_status obs)
      in \<lparr>proj_metadata = merge_metadata obs, proj_status = fst st,
          proj_result = snd st, proj_association = association_status\<rparr>)"

section \<open>GitLab and Forgejo conclusions\<close>

datatype gitlab_job_conclusion = GlSuccess | GlFailed | GlCanceled | GlSkipped

fun gitlab_conclusion_as_str :: "gitlab_job_conclusion \<Rightarrow> string" where
  "gitlab_conclusion_as_str GlSuccess = ''success''"
| "gitlab_conclusion_as_str GlFailed = ''failed''"
| "gitlab_conclusion_as_str GlCanceled = ''canceled''"
| "gitlab_conclusion_as_str GlSkipped = ''skipped''"

definition gitlab_conclusion_parse :: "string \<Rightarrow> gitlab_job_conclusion option" where
  "gitlab_conclusion_parse s =
     (if s = ''success'' then Some GlSuccess
      else if s = ''failed'' then Some GlFailed
      else if s = ''canceled'' then Some GlCanceled
      else if s = ''skipped'' then Some GlSkipped
      else None)"

definition gitlab_observed_status :: "string \<Rightarrow> observed_status" where
  "gitlab_observed_status s =
     (if s = ''pending'' then StQueued
      else if s = ''running'' then StRunning
      else if gitlab_conclusion_parse s \<noteq> None then StCompleted
      else StUnknown)"

datatype forgejo_task_conclusion = FjSuccess | FjFailure | FjCancelled | FjSkipped

fun forgejo_conclusion_as_str :: "forgejo_task_conclusion \<Rightarrow> string" where
  "forgejo_conclusion_as_str FjSuccess = ''success''"
| "forgejo_conclusion_as_str FjFailure = ''failure''"
| "forgejo_conclusion_as_str FjCancelled = ''cancelled''"
| "forgejo_conclusion_as_str FjSkipped = ''skipped''"

section \<open>Facts: every step of the reduction depends on the set of observations only\<close>

lemmas same_set_simps = list_ex_iff list_all_iff

lemma set_flatten: "v \<in> set (flatten vs) \<longleftrightarrow> Some v \<in> set vs"
  by (induction vs rule: flatten.induct) auto

lemma unique_Some:
  "unique vs = Some v \<longleftrightarrow> Some v \<in> set vs \<and> (\<forall>w. Some w \<in> set vs \<longrightarrow> w = v)"
  unfolding set_flatten [symmetric]
  by (cases "flatten vs") (auto simp: unique_def list_all_iff)

lemma unique_set_eq:
  assumes "set vs = set ws"
  shows "unique vs = unique ws"
proof -
  have "unique vs = Some v \<longleftrightarrow> unique ws = Some v" for v
    by (simp add: unique_Some assms)
  then show ?thesis by (metis not_None_eq)
qed

lemma unique_map_set_eq: "set xs = set ys \<Longrightarrow> unique (map f xs) = unique (map f ys)"
  by (rule unique_set_eq) simp

lemma merge_metadata_set_eq: "set xs = set ys \<Longrightarrow> merge_metadata xs = merge_metadata ys"
  by (simp add: merge_metadata_def unique_map_set_eq [of xs ys])

lemma has_conflict_set_eq: "set xs = set ys \<Longrightarrow> has_conflict xs = has_conflict ys"
  by (simp add: has_conflict_def same_set_simps)

lemma filter_set_eq: "set xs = set ys \<Longrightarrow> set (filter P xs) = set (filter P ys)"
  by simp

lemma without_execution_set_eq:
  assumes "set xs = set ys"
  shows "without_execution xs = without_execution ys"
proof -
  have "list_ex P xs = list_ex P ys" and "list_all P (filter Q xs) = list_all P (filter Q ys)"
    and "filter Q xs = [] \<longleftrightarrow> filter Q ys = []" for P Q
    using assms by (simp_all add: list_ex_iff list_all_iff filter_empty_conv)
  moreover have "unique (map reported_result (filter Q xs)) = unique (map reported_result (filter Q ys))" for Q
    by (rule unique_map_set_eq [OF filter_set_eq [OF assms]])
  ultimately show ?thesis by (simp only: without_execution_def Let_def)
qed

lemma strictly_older_asym: "strictly_older a b \<Longrightarrow> \<not> strictly_older b a"
  by (auto simp: strictly_older_def Let_def split: option.splits if_splits)

text \<open>What a start contributes to the reduction besides its kind.\<close>

definition episode :: "job_observation \<Rightarrow> int \<times> int option \<times> string option \<times> int option \<times> int option" where
  "episode x' = (runner_request_id x', runner_id x', generation_id x',
     scale_set_assign_time (metadata x'), runner_assign_time (metadata x'))"

lemma same_execution_episode: "same_execution a b \<Longrightarrow> episode a = episode b"
  by (auto simp: same_execution_def episode_def split: if_splits)

lemma episode_not_older: "episode a = episode b \<Longrightarrow> \<not> strictly_older a b"
  by (auto simp: episode_def strictly_older_def split: option.splits)

lemma episode_congs:
  assumes "episode a = episode b" and "a \<noteq> x'" and "b \<noteq> x'"
  shows "strictly_older a x' = strictly_older b x'" "strictly_older x' a = strictly_older x' b"
    "same_assignment a x' = same_assignment b x'" "same_execution a x' = same_execution b x'"
  using assms
  by (simp_all add: episode_def strictly_older_def same_assignment_def same_execution_def)

lemma newest_start_Some:
  "newest_start starts = Some c \<Longrightarrow>
     c \<in> set starts \<and> (\<forall>x'\<in>set starts. same_execution c x' \<or> strictly_older x' c)"
  by (auto simp: newest_start_def find_Some_iff list_all_iff)

lemma newest_start_None:
  "newest_start starts = None \<longleftrightarrow>
     (\<forall>c\<in>set starts. \<exists>x'\<in>set starts. \<not> same_execution c x' \<and> \<not> strictly_older x' c)"
  by (auto simp: newest_start_def find_None_iff list_all_iff)

lemma newest_start_None_set_eq:
  "set xs = set ys \<Longrightarrow> newest_start xs = None \<longleftrightarrow> newest_start ys = None"
  by (simp only: newest_start_None)

lemma newest_start_unique_episode:
  assumes "set xs = set ys" and "newest_start xs = Some c" and "newest_start ys = Some d"
  shows "episode c = episode d"
proof -
  have "same_execution c d \<or> strictly_older d c" and "same_execution d c \<or> strictly_older c d"
    using newest_start_Some [OF assms(2)] newest_start_Some [OF assms(3)] assms(1) by blast+
  then show ?thesis
    using strictly_older_asym same_execution_episode by metis
qed

lemma gather_completions_None:
  "gather_completions c obs = None \<longleftrightarrow>
     (\<exists>x'\<in>set obs. kind x' = Completed \<and> \<not> same_execution c x' \<and> \<not> strictly_older x' c)"
  by (induction obs) auto

lemma gather_completions_Some:
  "gather_completions c obs = Some cs \<Longrightarrow>
     set cs = {x' \<in> set obs. kind x' = Completed \<and> same_execution c x'}"
  by (induction obs arbitrary: cs) (auto split: if_splits)

definition completion_outcome :: "job_observation list option \<Rightarrow> observed_status \<times> string option" where
  "completion_outcome r = (case r of
     None \<Rightarrow> (StUnknown, None)
   | Some [] \<Rightarrow> (StRunning, None)
   | Some completions \<Rightarrow>
       let result = unique (map reported_result completions) in
       if list_ex (\<lambda>x. reported_result x \<noteq> None \<and> reported_result x \<noteq> result) completions
       then (StUnknown, None) else (StCompleted, result))"

lemma completion_outcome_Some:
  "completion_outcome (Some cs) = (if cs = [] then (StRunning, None)
   else if list_ex (\<lambda>x. reported_result x \<noteq> None \<and> reported_result x \<noteq> unique (map reported_result cs)) cs
   then (StUnknown, None) else (StCompleted, unique (map reported_result cs)))"
  by (cases cs) (simp_all add: completion_outcome_def Let_def)

lemma completion_outcome_set_eq:
  assumes "set cs = set ds"
  shows "completion_outcome (Some cs) = completion_outcome (Some ds)"
proof -
  have "unique (map reported_result cs) = unique (map reported_result ds)"
    by (rule unique_map_set_eq [OF assms])
  moreover have "cs = [] \<longleftrightarrow> ds = []" using assms by (metis set_empty)
  moreover have "list_ex P cs = list_ex P ds" for P
    using assms by (simp add: list_ex_iff)
  ultimately show ?thesis by (simp only: completion_outcome_Some)
qed

lemma completion_outcome_cong:
  assumes "set xs = set ys" and "episode c = episode d" and "kind c = Started" and "kind d = Started"
  shows "completion_outcome (gather_completions c xs) = completion_outcome (gather_completions d ys)"
proof -
  have eqs: "same_execution c x' = same_execution d x'" "strictly_older x' c = strictly_older x' d"
    if "kind x' = Completed" for x'
    using that assms(3,4) by (auto intro!: episode_congs [OF assms(2)])
  show ?thesis
  proof (cases "gather_completions c xs")
    case None
    then have "gather_completions d ys = None"
      using assms(1) eqs by (auto simp: gather_completions_None)
    with None show ?thesis by simp
  next
    case (Some cs)
    have "gather_completions d ys \<noteq> None"
      using Some assms(1) eqs gather_completions_None [of c xs] by (auto simp: gather_completions_None)
    then obtain ds where ds: "gather_completions d ys = Some ds" by blast
    have "set cs = set ds"
      unfolding gather_completions_Some [OF Some] gather_completions_Some [OF ds]
      using assms(1) eqs by auto
    from completion_outcome_set_eq [OF this] Some ds show ?thesis by simp
  qed
qed

text \<open>The part of \<open>execution_status\<close> after a current start was found.\<close>

definition current_status :: "job_observation \<Rightarrow> job_observation list \<Rightarrow> observed_status \<times> string option" where
  "current_status current obs =
     (let assignments = filter (\<lambda>x. kind x = Assigned) obs in
      if list_ex (\<lambda>a. strictly_older current a) assignments then
        (if list_ex (\<lambda>latest. strictly_older current latest
              \<and> list_all (\<lambda>other. kind other = Available \<or> strictly_older other latest
                    \<or> same_assignment other latest) obs) assignments
         then (StAssigned, None) else (StUnknown, None))
      else if list_ex (\<lambda>a. \<not> same_assignment current a \<and> \<not> strictly_older a current) assignments
      then (StUnknown, None)
      else completion_outcome (gather_completions current obs))"

lemma execution_status_current:
  "execution_status obs =
     (let starts = filter (\<lambda>x. kind x = Started \<and> association x = Verified) obs in
      if starts = [] then without_execution obs
      else case newest_start starts of None \<Rightarrow> (StUnknown, None) | Some c \<Rightarrow> current_status c obs)"
  by (simp only: execution_status_def current_status_def completion_outcome_def Let_def)

lemma Nil_set_eq: "set xs = set ys \<Longrightarrow> xs = [] \<longleftrightarrow> ys = []"
  by (cases xs; cases ys) auto

lemma list_ex_filter_cong:
  assumes "set xs = set ys" and "\<And>x. P x \<Longrightarrow> Q x = R x"
  shows "list_ex Q (filter P xs) = list_ex R (filter P ys)"
  unfolding list_ex_iff set_filter assms(1) using assms(2) by blast

lemma current_status_cong:
  assumes "set xs = set ys" and "episode c = episode d" and "kind c = Started" and "kind d = Started"
  shows "current_status c xs = current_status d ys"
proof -
  have eqs: "strictly_older c x' = strictly_older d x'" "same_assignment c x' = same_assignment d x'"
      "strictly_older x' c = strictly_older x' d"
    if "kind x' = Assigned" for x'
    using that assms(3,4) by (auto intro!: episode_congs [OF assms(2)])
  note filter_cong = list_ex_filter_cong [OF assms(1), where P = "\<lambda>x. kind x = Assigned"]
  have 1: "list_ex (\<lambda>a. strictly_older c a) (filter (\<lambda>x. kind x = Assigned) xs) =
      list_ex (\<lambda>a. strictly_older d a) (filter (\<lambda>x. kind x = Assigned) ys)"
    by (rule filter_cong) (rule eqs(1))
  have 2: "list_ex (\<lambda>latest. strictly_older c latest \<and> R latest) (filter (\<lambda>x. kind x = Assigned) xs) =
      list_ex (\<lambda>latest. strictly_older d latest \<and> R latest) (filter (\<lambda>x. kind x = Assigned) ys)" for R
    by (rule filter_cong) (simp only: eqs(1))
  have all: "list_all P xs = list_all P ys" for P
    unfolding list_all_iff assms(1) ..
  have 3: "list_ex (\<lambda>a. \<not> same_assignment c a \<and> \<not> strictly_older a c) (filter (\<lambda>x. kind x = Assigned) xs) =
      list_ex (\<lambda>a. \<not> same_assignment d a \<and> \<not> strictly_older a d) (filter (\<lambda>x. kind x = Assigned) ys)"
    by (rule filter_cong) (simp only: eqs(2,3))
  show ?thesis
    by (simp only: current_status_def Let_def 1 2 3 all completion_outcome_cong [OF assms])
qed

lemma execution_status_set_eq:
  assumes "set xs = set ys"
  shows "execution_status xs = execution_status ys"
proof -
  let ?S = "\<lambda>xs. filter (\<lambda>x. kind x = Started \<and> association x = Verified) xs"
  have S: "set (?S xs) = set (?S ys)" by (rule filter_set_eq [OF assms])
  have e: "?S xs = [] \<longleftrightarrow> ?S ys = []" by (rule Nil_set_eq [OF S])
  have w: "without_execution xs = without_execution ys"
    by (rule without_execution_set_eq [OF assms])
  show ?thesis
  proof (cases "newest_start (?S xs)")
    case None
    then have "newest_start (?S ys) = None" using newest_start_None_set_eq [OF S] by blast
    with None show ?thesis
      by (simp only: execution_status_current Let_def e w option.case)
  next
    case (Some c)
    then obtain d where d: "newest_start (?S ys) = Some d"
      using newest_start_None_set_eq [OF S] by (metis not_None_eq)
    have "kind c = Started" "kind d = Started"
      using newest_start_Some [OF Some] newest_start_Some [OF d] by auto
    then have "current_status c xs = current_status d ys"
      by (rule current_status_cong [OF assms newest_start_unique_episode [OF S Some d]])
    with Some d show ?thesis
      by (simp only: execution_status_current Let_def e w option.case)
  qed
qed

lemma gitlab_parse_as_str: "gitlab_conclusion_parse (gitlab_conclusion_as_str c) = Some c"
  by (cases c) (simp_all add: gitlab_conclusion_parse_def)

lemma gitlab_as_str_parse: "gitlab_conclusion_parse s = Some c \<Longrightarrow> s = gitlab_conclusion_as_str c"
  by (auto simp: gitlab_conclusion_parse_def split: if_splits)

lemma execution_status_completed:
  assumes "execution_status obs = (StCompleted, r)"
  obtains c comp where "newest_start (filter (\<lambda>x. kind x = Started \<and> association x = Verified) obs) = Some c"
    and "comp \<in> set obs" "kind comp = Completed" "same_execution c comp"
    and "\<forall>x\<in>set obs. kind x = Completed \<longrightarrow> same_execution c x \<or> strictly_older x c"
    and "\<forall>x\<in>set obs. kind x = Completed \<longrightarrow> same_execution c x \<longrightarrow>
           reported_result x = None \<or> reported_result x = r"
proof -
  let ?S = "filter (\<lambda>x. kind x = Started \<and> association x = Verified) obs"
  have "?S \<noteq> []"
    using assms by (auto simp: execution_status_current without_execution_def Let_def split: if_splits)
  with assms obtain c where c: "newest_start ?S = Some c" and cs: "current_status c obs = (StCompleted, r)"
    by (auto simp: execution_status_current Let_def split: option.splits)
  from cs have co: "completion_outcome (gather_completions c obs) = (StCompleted, r)"
    by (auto simp: current_status_def Let_def split: if_splits)
  then obtain comps where g: "gather_completions c obs = Some comps"
    by (cases "gather_completions c obs") (simp_all add: completion_outcome_def)
  with co have "comps \<noteq> []" and res: "\<forall>x\<in>set comps. reported_result x = None \<or> reported_result x = r"
    by (auto simp: completion_outcome_Some list_ex_iff split: if_splits)
  then obtain comp where "comp \<in> set comps" by (meson last_in_set)
  moreover have "\<forall>x\<in>set obs. kind x = Completed \<longrightarrow> same_execution c x \<or> strictly_older x c"
    using g gather_completions_None [of c obs] by auto
  ultimately show thesis
    using that [OF c, of comp] res gather_completions_Some [OF g] by auto
qed

section \<open>Properties\<close>

text \<open>C33. The projection of a job is independent of the order and of the multiplicity in which its
  observations arrived: two lists with the same set of observations, however shuffled and
  redelivered, are reduced to the same metadata, status, result and association.\<close>

theorem projection_order_independent:
  assumes "set xs = set ys"
  shows "project_observations xs = project_observations ys"
proof -
  have "list_ex (\<lambda>x. association x = Verified) xs = list_ex (\<lambda>x. association x = Verified) ys"
    using assms by (simp add: list_ex_iff)
  then show ?thesis
    by (simp only: project_observations_def Let_def has_conflict_set_eq [OF assms]
        execution_status_set_eq [OF assms] merge_metadata_set_eq [OF assms])
qed

definition sample_observation :: "observation_kind \<Rightarrow> int \<Rightarrow> job_observation" where
  "sample_observation k t =
     \<lparr>obs_id = ''o'', kind = k, runner_request_id = 7, runner_id = Some 3, obs_runner_name = None,
      metadata = \<lparr>owner_name = None, repository_name = None, job_display_name = None,
        job_workflow_ref = None, workflow_run_id = None, event_name = None, queue_time = None,
        scale_set_assign_time = Some t, runner_assign_time = None, finish_time = None\<rparr>,
      reported_result = (if k = Completed then Some ''succeeded'' else None), obs_epoch = 1,
      obs_message_id = 1, observed_at = 5, generation_id = Some ''g'', association = Verified\<rparr>"

theorem projection_order_independent_witness:
  "project_observations [sample_observation Completed 4, sample_observation Started 4]
     = project_observations [sample_observation Started 4, sample_observation Completed 4,
         sample_observation Started 4]
   \<and> proj_status (project_observations [sample_observation Completed 4, sample_observation Started 4])
     = StCompleted"
proof -
  have "proj_status (project_observations [sample_observation Completed 4, sample_observation Started 4])
     = StCompleted"
    by code_simp
  moreover have "project_observations [sample_observation Completed 4, sample_observation Started 4]
     = project_observations [sample_observation Started 4, sample_observation Completed 4,
         sample_observation Started 4]"
    by (rule projection_order_independent) auto
  ultimately show ?thesis by blast
qed

text \<open>A job is projected as completed only on evidence: there is a verified Started observation, the
  newest execution among the verified ones, and a Completed observation of that very execution;
  every other completion belongs to the same execution or to a strictly older one; all its
  results that are reported agree with the projected one; and no observation conflicts with
  another.\<close>

theorem completed_needs_evidence:
  assumes "proj_status (project_observations obs) = StCompleted"
  shows "\<not> has_conflict obs \<and> (\<exists>start\<in>set obs. \<exists>comp\<in>set obs.
    kind start = Started \<and> association start = Verified \<and> kind comp = Completed \<and> same_execution start comp
    \<and> (\<forall>x\<in>set obs. kind x = Started \<and> association x = Verified \<longrightarrow> same_execution start x \<or> strictly_older x start)
    \<and> (\<forall>x\<in>set obs. kind x = Completed \<longrightarrow> strictly_older x start \<or> same_execution start x
         \<and> (reported_result x = None \<or> reported_result x = proj_result (project_observations obs))))"
proof -
  have nc: "\<not> has_conflict obs"
    using assms by (auto simp: project_observations_def Let_def)
  with assms have "execution_status obs = (StCompleted, proj_result (project_observations obs))"
    by (simp add: project_observations_def Let_def prod_eq_iff)
  then obtain c comp where c: "newest_start (filter (\<lambda>x. kind x = Started \<and> association x = Verified) obs) = Some c"
    and comp: "comp \<in> set obs" "kind comp = Completed" "same_execution c comp"
    and old: "\<forall>x\<in>set obs. kind x = Completed \<longrightarrow> same_execution c x \<or> strictly_older x c"
    and res: "\<forall>x\<in>set obs. kind x = Completed \<longrightarrow> same_execution c x \<longrightarrow>
           reported_result x = None \<or> reported_result x = proj_result (project_observations obs)"
    by (rule execution_status_completed)
  from newest_start_Some [OF c] have start: "c \<in> set obs" "kind c = Started" "association c = Verified"
    and newest: "\<forall>x\<in>set obs. kind x = Started \<and> association x = Verified
      \<longrightarrow> same_execution c x \<or> strictly_older x c"
    by simp_all
  show ?thesis
  proof (intro conjI, rule nc, rule bexI [OF _ start(1)], rule bexI [OF _ comp(1)], intro conjI)
    show "\<forall>x\<in>set obs. kind x = Started \<and> association x = Verified
        \<longrightarrow> same_execution c x \<or> strictly_older x c"
      by (rule newest)
    show "\<forall>x\<in>set obs. kind x = Completed \<longrightarrow> strictly_older x c \<or> same_execution c x
         \<and> (reported_result x = None \<or> reported_result x = proj_result (project_observations obs))"
      using old res by blast
  qed (rule start(2,3) comp(2,3))+
qed

theorem completed_needs_evidence_witness:
  "\<exists>start\<in>set [sample_observation Completed 4, sample_observation Started 4]. kind start = Started
     \<and> association start = Verified"
proof -
  have "proj_status (project_observations [sample_observation Completed 4, sample_observation Started 4])
     = StCompleted"
    by code_simp
  from completed_needs_evidence [OF this] show ?thesis by blast
qed

lemma gitlab_observed_status_conclusion: "gitlab_observed_status (gitlab_conclusion_as_str c) = StCompleted"
  by (cases c) (simp_all add: gitlab_observed_status_def gitlab_conclusion_parse_def)

lemma gitlab_observed_status_completed:
  "gitlab_observed_status s = StCompleted \<Longrightarrow> gitlab_conclusion_parse s \<noteq> None"
  by (auto simp: gitlab_observed_status_def split: if_splits)

text \<open>A GitLab status maps to completed exactly when it is one of the terminal conclusions, and then
  parsing and printing the conclusion are inverse to each other.\<close>

theorem gitlab_status_completed_iff:
  "(gitlab_observed_status s = StCompleted) = (\<exists>c. s = gitlab_conclusion_as_str c)
   \<and> (gitlab_conclusion_parse s = Some c) = (s = gitlab_conclusion_as_str c)"
proof (rule conjI)
  show "(gitlab_observed_status s = StCompleted) = (\<exists>c. s = gitlab_conclusion_as_str c)"
  proof
    assume "gitlab_observed_status s = StCompleted"
    then obtain c where "gitlab_conclusion_parse s = Some c"
      using gitlab_observed_status_completed by blast
    then show "\<exists>c. s = gitlab_conclusion_as_str c"
      using gitlab_as_str_parse by metis
  next
    assume "\<exists>c. s = gitlab_conclusion_as_str c"
    then show "gitlab_observed_status s = StCompleted"
      using gitlab_observed_status_conclusion by blast
  qed
  show "(gitlab_conclusion_parse s = Some c) = (s = gitlab_conclusion_as_str c)"
    using gitlab_as_str_parse gitlab_parse_as_str by metis
qed

end
