(* ===== verification/Auth_Routes.thy ===== *)
theory Auth_Routes
  imports Reasons "HOL-Library.Multiset" "HOL-Library.Char_ord" "HOL-Library.List_Lexorder"
    "HOL-Library.Product_Lexorder"
begin

text \<open>
  Which GitHub target a fleet may use and by which installation it is reached:
  \<open>crates/shaula-core/src/github.rs\<close> (typed targets), \<open>auth_policy.rs\<close> (target selectors and the
  canonical target policy), \<open>auth_context.rs\<close> (account bindings, the resolved context) and
  \<open>auth_context_pins_agree\<close> of \<open>registry/auth_port.rs\<close>.

  The two regular expressions of \<open>github.rs\<close> are written out as predicates on the bytes of the
  name.  Rust compares strings byte by byte, which is the lexicographic order on lists of
  characters used here.
\<close>

section \<open>GitHub targets\<close>

datatype github_target = TargetOrganization string | TargetRepository string string

text \<open>\<open>NAME_PATTERN\<close>: alphanumeric ends, at most forty characters, hyphens inside.\<close>

definition name_pattern :: "string \<Rightarrow> bool" where
  "name_pattern v \<longleftrightarrow> v \<noteq> [] \<and> length v \<le> 40 \<and> is_alphanumeric (hd v) \<and> is_alphanumeric (last v)
     \<and> list_all (\<lambda>c. is_alphanumeric c \<or> c = CHR ''-'') v"

definition repo_pattern :: "string \<Rightarrow> bool" where
  "repo_pattern v \<longleftrightarrow> v \<noteq> [] \<and> length v \<le> 100
     \<and> list_all (\<lambda>c. is_alphanumeric c \<or> c = CHR ''.'' \<or> c = CHR ''_'' \<or> c = CHR ''-'') v"

definition normalize_name :: "string \<Rightarrow> string core_result" where
  "normalize_name value0 =
     (let v = trim value0 in
      if name_pattern v \<and> v \<noteq> ''enterprises'' then Inr v
      else core_err SpecInvalid ''github owner name is not a normalized identifier'')"

definition normalize_repo :: "string \<Rightarrow> string core_result" where
  "normalize_repo value0 =
     (let v = trim value0 in
      if repo_pattern v \<and> \<not> prefix ''.'' v then Inr v
      else core_err SpecInvalid ''github repository name is not a normalized identifier'')"

definition target_organization :: "string \<Rightarrow> github_target core_result" where
  "target_organization owner = map_ok TargetOrganization (normalize_name owner)"

definition target_repository :: "string \<Rightarrow> string \<Rightarrow> github_target core_result" where
  "target_repository owner repository =
     and_then (normalize_name owner) (\<lambda>o'. map_ok (TargetRepository o') (normalize_repo repository))"

fun target_owner :: "github_target \<Rightarrow> string" where
  "target_owner (TargetOrganization owner) = owner"
| "target_owner (TargetRepository owner _) = owner"

fun target_repository_name :: "github_target \<Rightarrow> string option" where
  "target_repository_name (TargetOrganization _) = None"
| "target_repository_name (TargetRepository _ repository) = Some repository"

fun config_url :: "github_target \<Rightarrow> string" where
  "config_url (TargetOrganization owner) = ''https://github.com/'' @ owner"
| "config_url (TargetRepository owner repository) = ''https://github.com/'' @ owner @ ''/'' @ repository"

section \<open>Target selectors and policies\<close>

datatype account_kind = KindUser | KindOrganization

datatype target_selector =
  SelOrganization string | SelRepository string string | SelAccountRepositories account_kind string

definition selector_organization :: "string \<Rightarrow> target_selector core_result" where
  "selector_organization owner = map_ok (\<lambda>t. SelOrganization (target_owner t)) (target_organization owner)"

definition selector_repository :: "string \<Rightarrow> string \<Rightarrow> target_selector core_result" where
  "selector_repository owner repository =
     and_then (target_repository owner repository) (\<lambda>t. case t of
        TargetRepository o' r \<Rightarrow> Inr (SelRepository o' r)
      | TargetOrganization _ \<Rightarrow> undefined)"

definition selector_account_repositories :: "account_kind \<Rightarrow> string \<Rightarrow> target_selector core_result" where
  "selector_account_repositories k owner =
     map_ok (\<lambda>t. SelAccountRepositories k (target_owner t)) (target_organization owner)"

fun selector_account :: "target_selector \<Rightarrow> string" where
  "selector_account (SelOrganization owner) = owner"
| "selector_account (SelRepository owner _) = owner"
| "selector_account (SelAccountRepositories _ owner) = owner"

definition selector_sort_key :: "target_selector \<Rightarrow> nat \<times> nat \<times> string \<times> string" where
  "selector_sort_key s =
     ((case s of SelOrganization _ \<Rightarrow> 0 | SelRepository _ _ \<Rightarrow> 1 | SelAccountRepositories _ _ \<Rightarrow> 2),
      (case s of SelAccountRepositories KindUser _ \<Rightarrow> 0 | SelAccountRepositories KindOrganization _ \<Rightarrow> 1 | _ \<Rightarrow> 0),
      to_ascii_lowercase (selector_account s),
      (case s of SelRepository _ r \<Rightarrow> to_ascii_lowercase r | _ \<Rightarrow> []))"

fun selector_allows :: "target_selector \<Rightarrow> github_target \<Rightarrow> bool" where
  "selector_allows (SelOrganization owner) (TargetOrganization o') = eq_ignore_ascii_case owner o'"
| "selector_allows (SelRepository owner repository) (TargetRepository o' r) =
     (eq_ignore_ascii_case owner o' \<and> eq_ignore_ascii_case repository r)"
| "selector_allows (SelAccountRepositories _ owner) (TargetRepository o' _) = eq_ignore_ascii_case owner o'"
| "selector_allows _ _ = False"

definition max_selectors :: nat where "max_selectors = 100"
definition max_accounts :: nat where "max_accounts = 50"

text \<open>The test on \<open>windows(2)\<close>: two neighbours with the same key.\<close>

fun duplicate_neighbours :: "target_selector list \<Rightarrow> bool" where
  "duplicate_neighbours (a # b # rest) = (selector_sort_key a = selector_sort_key b \<or> duplicate_neighbours (b # rest))"
| "duplicate_neighbours _ = False"

text \<open>\<open>dedup_by\<close> keeps the first of every run of equal names.\<close>

fun dedup_names :: "string list \<Rightarrow> string list" where
  "dedup_names (a # b # rest) =
     (if eq_ignore_ascii_case b a then dedup_names (a # rest) else a # dedup_names (b # rest))"
| "dedup_names xs = xs"

definition target_policy_new :: "target_selector list \<Rightarrow> target_selector list core_result" where
  "target_policy_new selectors0 =
     (if selectors0 = [] then core_err SpecInvalid ''target policy must not be empty''
      else if length selectors0 > max_selectors then core_err SpecInvalid ''target policy exceeds selectors''
      else let selectors = sort_key selector_sort_key selectors0 in
        if duplicate_neighbours selectors
        then core_err SpecInvalid ''target policy contains duplicate selectors''
        else let accounts = dedup_names (sort_key to_ascii_lowercase (map selector_account selectors)) in
          if length accounts > max_accounts
          then core_err SpecInvalid ''target policy exceeds distinct accounts''
          else Inr selectors)"

definition policy_matches :: "target_selector list \<Rightarrow> github_target \<Rightarrow> target_selector list" where
  "policy_matches policy target = filter (\<lambda>s. selector_allows s target) policy"

definition policy_allows :: "target_selector list \<Rightarrow> github_target \<Rightarrow> bool" where
  "policy_allows policy target = list_ex (\<lambda>s. selector_allows s target) policy"

section \<open>Bindings and the resolved context\<close>

datatype repository_selection = SelectAll | SelectSelected

record account_binding =
  bind_account_id :: int
  bind_account_kind :: account_kind
  bind_login :: string
  bind_installation_id :: int
  bind_repository_selection :: repository_selection
  bind_validated_at_ms :: int

definition account_matches :: "account_binding \<Rightarrow> string \<Rightarrow> bool" where
  "account_matches b account = eq_ignore_ascii_case (bind_login b) account"

record resolved_auth_context =
  ctx_profile_key :: string
  ctx_revision :: int
  ctx_github_host :: string
  ctx_app_id :: string
  ctx_account_id :: int
  ctx_account_kind :: account_kind
  ctx_login :: string
  ctx_installation_id :: int
  ctx_target :: github_target
  ctx_organization_id :: "int option"
  ctx_repository_id :: "int option"
  ctx_repository_owner_id :: "int option"

definition has_complete_identity :: "resolved_auth_context \<Rightarrow> bool" where
  "has_complete_identity c =
     (if ctx_account_id c \<le> 0 \<or> ctx_installation_id c \<le> 0 \<or> ctx_github_host c \<noteq> ''github.com'' then False
      else (case ctx_target c of
          TargetOrganization _ \<Rightarrow>
            ctx_account_kind c = KindOrganization \<and> ctx_organization_id c = Some (ctx_account_id c)
            \<and> ctx_repository_id c = None \<and> ctx_repository_owner_id c = None
        | TargetRepository _ _ \<Rightarrow>
            (case ctx_repository_id c of None \<Rightarrow> False | Some i \<Rightarrow> i > 0)
            \<and> ctx_repository_owner_id c = Some (ctx_account_id c) \<and> ctx_organization_id c = None))"

fun id_matches :: "int option \<Rightarrow> int option \<Rightarrow> bool" where
  "id_matches (Some pinned) (Some verified) = (pinned = verified)"
| "id_matches (Some _) None = False"
| "id_matches None _ = True"

definition auth_context_pins_agree :: "resolved_auth_context \<Rightarrow> resolved_auth_context \<Rightarrow> bool" where
  "auth_context_pins_agree observed verified =
     (let explicit_route_change =
            ctx_profile_key verified \<noteq> ctx_profile_key observed \<or> ctx_revision verified > ctx_revision observed in
      id_matches (ctx_organization_id observed) (ctx_organization_id verified)
      \<and> id_matches (ctx_repository_id observed) (ctx_repository_id verified)
      \<and> id_matches (ctx_repository_owner_id observed) (ctx_repository_owner_id verified)
      \<and> ctx_account_id observed = ctx_account_id verified
      \<and> ctx_account_kind observed = ctx_account_kind verified
      \<and> (ctx_installation_id observed = ctx_installation_id verified \<or> explicit_route_change))"

definition completes :: "resolved_auth_context \<Rightarrow> resolved_auth_context \<Rightarrow> bool" where
  "completes c desired \<longleftrightarrow>
     has_complete_identity c
     \<and> ctx_profile_key c = ctx_profile_key desired \<and> ctx_revision c = ctx_revision desired
     \<and> ctx_github_host c = ctx_github_host desired \<and> ctx_app_id c = ctx_app_id desired
     \<and> ctx_target c = ctx_target desired \<and> ctx_account_id c = ctx_account_id desired
     \<and> ctx_account_kind c = ctx_account_kind desired \<and> ctx_installation_id c = ctx_installation_id desired
     \<and> auth_context_pins_agree desired c"

definition matches_ref_and_binding :: "resolved_auth_context \<Rightarrow> string \<Rightarrow> int \<Rightarrow> account_binding \<Rightarrow> bool" where
  "matches_ref_and_binding c profile_key revision b \<longleftrightarrow>
     ctx_profile_key c = profile_key \<and> ctx_revision c = revision
     \<and> ctx_account_id c = bind_account_id b \<and> ctx_account_kind c = bind_account_kind b
     \<and> ctx_installation_id c = bind_installation_id b"

datatype context_resolution = Resolved resolved_auth_context | NoMatchingSelector | AmbiguousInstallation

text \<open>The loop over the matching selectors: the error it returns, or the first route.\<close>

fun find_route :: "account_binding list \<Rightarrow> account_binding option \<Rightarrow> target_selector list
    \<Rightarrow> context_resolution + account_binding option" where
  "find_route bindings route [] = Inr route"
| "find_route bindings route (s # rest) =
     (case find (\<lambda>b. account_matches b (selector_account s)) bindings of
        None \<Rightarrow> Inl NoMatchingSelector
      | Some b \<Rightarrow>
          (case route of
             None \<Rightarrow> find_route bindings (Some b) rest
           | Some r \<Rightarrow>
               if bind_account_id r \<noteq> bind_account_id b \<or> bind_installation_id r \<noteq> bind_installation_id b
               then Inl AmbiguousInstallation
               else find_route bindings route rest))"

definition resolve_desired_context ::
  "string \<Rightarrow> int \<Rightarrow> string \<Rightarrow> target_selector list \<Rightarrow> account_binding list \<Rightarrow> github_target \<Rightarrow> context_resolution" where
  "resolve_desired_context profile_key revision app_id policy bindings target =
     (let ms = policy_matches policy target in
      if ms = [] then NoMatchingSelector
      else case find_route bindings None ms of
        Inl e \<Rightarrow> e
      | Inr None \<Rightarrow> NoMatchingSelector
      | Inr (Some b) \<Rightarrow> Resolved
         \<lparr>ctx_profile_key = profile_key, ctx_revision = revision, ctx_github_host = ''github.com'',
          ctx_app_id = app_id, ctx_account_id = bind_account_id b, ctx_account_kind = bind_account_kind b,
          ctx_login = bind_login b, ctx_installation_id = bind_installation_id b, ctx_target = target,
          ctx_organization_id =
            (case target of TargetOrganization _ \<Rightarrow> Some (bind_account_id b) | TargetRepository _ _ \<Rightarrow> None),
          ctx_repository_id = None, ctx_repository_owner_id = None\<rparr>)"

section \<open>Lemmas\<close>

lemma target_repository_shape: "target_repository owner repo = Inr t \<Longrightarrow> \<exists>o' r. t = TargetRepository o' r"
  by (auto simp: target_repository_def result_simps)

lemma policy_allows_iff: "policy_allows policy t \<longleftrightarrow> policy_matches policy t \<noteq> []"
  by (induction policy) (simp_all add: policy_allows_def policy_matches_def)

lemma duplicate_neighbours_sorted:
  "sorted (map selector_sort_key ss) \<Longrightarrow> duplicate_neighbours ss \<longleftrightarrow> \<not> distinct (map selector_sort_key ss)"
proof (induction ss rule: duplicate_neighbours.induct)
  case (1 a b rest)
  show ?case
  proof (cases "selector_sort_key a = selector_sort_key b")
    case False
    have "selector_sort_key a \<notin> selector_sort_key ` set (b # rest)"
    proof
      assume "selector_sort_key a \<in> selector_sort_key ` set (b # rest)"
      then have "selector_sort_key b \<le> selector_sort_key a" using 1(2) by auto
      moreover have "selector_sort_key a \<le> selector_sort_key b" using 1(2) by simp
      ultimately show False using False by simp
    qed
    with 1 False show ?thesis by simp
  qed simp
qed simp_all

lemma eq_ignore_lower: "eq_ignore_ascii_case a b \<longleftrightarrow> to_ascii_lowercase a = to_ascii_lowercase b"
  by (simp add: eq_ignore_ascii_case_def)

lemma dedup_names_subset: "set (dedup_names xs) \<subseteq> set xs"
  by (induction xs rule: dedup_names.induct) auto

lemma lower_dedup_names: "to_ascii_lowercase ` set (dedup_names xs) = to_ascii_lowercase ` set xs"
  by (induction xs rule: dedup_names.induct) (auto simp: eq_ignore_lower)

lemma distinct_dedup_names:
  "sorted (map to_ascii_lowercase xs) \<Longrightarrow> distinct (map to_ascii_lowercase (dedup_names xs))"
proof (induction xs rule: dedup_names.induct)
  case (1 a b rest)
  show ?case
  proof (cases "eq_ignore_ascii_case b a")
    case True
    with 1 show ?thesis by auto
  next
    case False
    have "to_ascii_lowercase a \<notin> to_ascii_lowercase ` set (b # rest)"
    proof
      assume "to_ascii_lowercase a \<in> to_ascii_lowercase ` set (b # rest)"
      then have "to_ascii_lowercase b \<le> to_ascii_lowercase a" using 1(3) by auto
      moreover have "to_ascii_lowercase a \<le> to_ascii_lowercase b" using 1(3) by simp
      ultimately show False using False by (simp add: eq_ignore_lower)
    qed
    moreover have "distinct (map to_ascii_lowercase (dedup_names (b # rest)))"
      using 1 False by simp
    ultimately show ?thesis
      using False lower_dedup_names [of "b # rest"] by auto
  qed
qed simp_all

lemma length_dedup_names:
  assumes "sorted (map to_ascii_lowercase xs)"
  shows "length (dedup_names xs) = card (to_ascii_lowercase ` set xs)"
  using distinct_card [OF distinct_dedup_names [OF assms]] lower_dedup_names [of xs] by simp

text \<open>The accounts of a policy, compared without case.\<close>

definition policy_accounts :: "target_selector list \<Rightarrow> string set" where
  "policy_accounts ss = (\<lambda>s. to_ascii_lowercase (selector_account s)) ` set ss"

lemma target_policy_new_Inr:
  "target_policy_new xs = Inr p \<longleftrightarrow>
     xs \<noteq> [] \<and> length xs \<le> max_selectors \<and> distinct (map selector_sort_key xs)
     \<and> card (policy_accounts xs) \<le> max_accounts \<and> p = sort_key selector_sort_key xs"
proof -
  have d: "duplicate_neighbours (sort_key selector_sort_key xs) \<longleftrightarrow> \<not> distinct (map selector_sort_key xs)"
    unfolding duplicate_neighbours_sorted [OF sorted_sort_key]
    by (metis mset_map mset_sort mset_eq_imp_distinct_iff)
  have a: "length (dedup_names (sort_key to_ascii_lowercase (map selector_account (sort_key selector_sort_key xs))))
      = card (policy_accounts xs)"
    by (simp add: length_dedup_names policy_accounts_def image_image)
  show ?thesis
    by (auto simp: target_policy_new_def Let_def core_err_def d a)
qed

lemma find_route_Inr:
  "find_route bindings route ss = Inr route' \<longleftrightarrow>
     (\<forall>s\<in>set ss. \<exists>b. find (\<lambda>b. account_matches b (selector_account s)) bindings = Some b
        \<and> (\<exists>r. route' = Some r \<and> bind_account_id r = bind_account_id b \<and> bind_installation_id r = bind_installation_id b))
     \<and> (case route of
          Some r \<Rightarrow> route' = route
        | None \<Rightarrow> route' = (case ss of [] \<Rightarrow> None
            | s # _ \<Rightarrow> find (\<lambda>b. account_matches b (selector_account s)) bindings))"
proof (induction ss arbitrary: route)
  case Nil
  show ?case by (auto split: option.splits)
next
  case (Cons s ss)
  show ?case
  proof (cases "find (\<lambda>b. account_matches b (selector_account s)) bindings")
    case None
    then show ?thesis by simp
  next
    case (Some b)
    show ?thesis
    proof (cases route)
      case None
      with Some Cons [of "Some b"] show ?thesis by auto
    next
      case R: (Some r)
      with Some Cons [of "Some r"] show ?thesis by auto
    qed
  qed
qed

lemma completesD:
  assumes "completes c d"
  shows "has_complete_identity c" "ctx_profile_key c = ctx_profile_key d" "ctx_revision c = ctx_revision d"
    "ctx_github_host c = ctx_github_host d" "ctx_app_id c = ctx_app_id d" "ctx_target c = ctx_target d"
    "ctx_account_id c = ctx_account_id d" "ctx_account_kind c = ctx_account_kind d"
    "ctx_installation_id c = ctx_installation_id d" "id_matches (ctx_repository_id d) (ctx_repository_id c)"
  using assms unfolding completes_def auth_context_pins_agree_def Let_def by blast+

lemma completes_login: "completes (c\<lparr>ctx_login := l\<rparr>) d = completes c d"
proof -
  have "has_complete_identity (c\<lparr>ctx_login := l\<rparr>) = has_complete_identity c"
    by (cases "ctx_target c") (simp_all add: has_complete_identity_def)
  then show ?thesis by (simp add: completes_def auth_context_pins_agree_def Let_def)
qed

lemma complete_organization:
  "has_complete_identity c \<Longrightarrow> ctx_target c = TargetOrganization w \<Longrightarrow>
     ctx_organization_id c = Some (ctx_account_id c) \<and> ctx_repository_id c = None \<and> ctx_repository_owner_id c = None"
  by (simp add: has_complete_identity_def split: if_splits)

lemma complete_repository:
  "has_complete_identity c \<Longrightarrow> ctx_target c = TargetRepository w r \<Longrightarrow>
     ctx_organization_id c = None \<and> ctx_repository_owner_id c = Some (ctx_account_id c)
     \<and> (\<exists>i. ctx_repository_id c = Some i)"
  by (simp add: has_complete_identity_def split: if_splits option.splits)

lemma find_route_Inl: "find_route bindings route ss = Inl e \<Longrightarrow> e = NoMatchingSelector \<or> e = AmbiguousInstallation"
  by (induction ss arbitrary: route) (auto split: option.splits if_splits)

section \<open>Properties\<close>

text \<open>C35. A target policy does not depend on the order in which its selectors were submitted: two
  permutations are both refused with the same error, or accepted as the same canonical policy.\<close>

theorem policy_order_independent:
  assumes "mset xs = mset ys"
  shows "target_policy_new xs = target_policy_new ys"
proof -
  have len: "length xs = length ys" and set: "set xs = set ys"
    using assms by (auto dest: mset_eq_length mset_eq_setD)
  have distinct: "distinct (map selector_sort_key xs) \<longleftrightarrow> distinct (map selector_sort_key ys)"
    using assms by (metis mset_map mset_eq_imp_distinct_iff)
  have dup: "duplicate_neighbours (sort_key selector_sort_key zs) \<longleftrightarrow> \<not> distinct (map selector_sort_key zs)" for zs
    unfolding duplicate_neighbours_sorted [OF sorted_sort_key]
    by (metis mset_map mset_sort mset_eq_imp_distinct_iff)
  show ?thesis
  proof (cases "distinct (map selector_sort_key xs)")
    case True
    have inj: "inj_on selector_sort_key (set (sort_key selector_sort_key xs) \<union> set (sort_key selector_sort_key ys))"
      using True set by (simp add: distinct_map)
    have dm: "distinct (map selector_sort_key (sort_key selector_sort_key zs))"
      if "distinct (map selector_sort_key zs)" for zs
      using that by (metis mset_map mset_sort mset_eq_imp_distinct_iff)
    have "sort_key selector_sort_key xs = sort_key selector_sort_key ys"
      by (rule map_sorted_distinct_set_unique [OF inj]) (use True distinct dm set in auto)
    moreover have "xs = [] \<longleftrightarrow> ys = []" using len by (cases xs; cases ys) simp_all
    ultimately show ?thesis by (simp add: target_policy_new_def len)
  next
    case False
    moreover have "xs = [] \<longleftrightarrow> ys = []" using len by (cases xs; cases ys) simp_all
    ultimately show ?thesis using distinct by (simp add: target_policy_new_def len dup)
  qed
qed

theorem policy_order_independent_witness:
  "target_policy_new [SelOrganization ''Beta'', SelOrganization ''alpha''] =
   target_policy_new [SelOrganization ''alpha'', SelOrganization ''Beta'']"
  by (rule policy_order_independent) simp

text \<open>An accepted policy is the submitted set of selectors in canonical order: it admits exactly the
  targets some submitted selector admits, no two of its selectors are equal up to case, and it
  stays within the bounds on selectors and on distinct accounts; and every non-empty submission
  within the bounds and without duplicates is accepted.\<close>

theorem policy_new_accepts_iff:
  "(is_ok (target_policy_new xs) \<longleftrightarrow>
     xs \<noteq> [] \<and> length xs \<le> max_selectors \<and> distinct (map selector_sort_key xs)
     \<and> card (policy_accounts xs) \<le> max_accounts)
   \<and> (target_policy_new xs = Inr p \<longrightarrow> mset p = mset xs \<and> sorted (map selector_sort_key p)
     \<and> (policy_allows p t \<longleftrightarrow> (\<exists>s\<in>set xs. selector_allows s t)))"
  by (auto simp: is_ok_iff target_policy_new_Inr policy_allows_def list_ex_iff)

theorem policy_new_accepts_iff_witness:
  "policy_allows [SelOrganization ''a''] (TargetOrganization ''A'')"
proof -
  have p: "target_policy_new [SelOrganization ''a''] = Inr [SelOrganization ''a'']"
    by (simp add: target_policy_new_Inr max_selectors_def max_accounts_def policy_accounts_def)
  show ?thesis
    using policy_new_accepts_iff [of "[SelOrganization ''a'']" "[SelOrganization ''a'']" "TargetOrganization ''A''"] p
    by (simp add: is_ok_iff eq_ignore_ascii_case_def to_ascii_lowercase_def) code_simp
qed


text \<open>A completed context is final: whatever later completes it has the same route, the same target
  and the same numeric identities, and may only spell the login differently.\<close>

theorem completion_is_final:
  assumes "completes c desired" and "completes c' c"
  shows "c' = c\<lparr>ctx_login := ctx_login c'\<rparr> \<and> completes c' desired"
proof -
  have ids: "ctx_organization_id c' = ctx_organization_id c" "ctx_repository_id c' = ctx_repository_id c"
      "ctx_repository_owner_id c' = ctx_repository_owner_id c"
  proof -
    have c: "has_complete_identity c" "has_complete_identity c'" "ctx_target c' = ctx_target c"
        "ctx_account_id c' = ctx_account_id c" "id_matches (ctx_repository_id c) (ctx_repository_id c')"
      using assms by (auto dest: completesD)
    show "ctx_organization_id c' = ctx_organization_id c" "ctx_repository_id c' = ctx_repository_id c"
        "ctx_repository_owner_id c' = ctx_repository_owner_id c"
    proof (atomize (full), cases "ctx_target c")
      case (TargetOrganization w)
      with complete_organization [OF c(1)] complete_organization [OF c(2)] c(3,4)
      show "ctx_organization_id c' = ctx_organization_id c \<and> ctx_repository_id c' = ctx_repository_id c
          \<and> ctx_repository_owner_id c' = ctx_repository_owner_id c"
        by simp
    next
      case (TargetRepository w r)
      with complete_repository [OF c(1), of w r] complete_repository [OF c(2), of w r] c(3,4,5)
      show "ctx_organization_id c' = ctx_organization_id c \<and> ctx_repository_id c' = ctx_repository_id c
          \<and> ctx_repository_owner_id c' = ctx_repository_owner_id c"
        by auto
    qed
  qed
  have eq: "c' = c\<lparr>ctx_login := ctx_login c'\<rparr>"
    using completesD [OF assms(2)] ids by simp
  moreover have "completes (c\<lparr>ctx_login := l\<rparr>) desired" for l
    using assms(1) by (simp only: completes_login)
  ultimately show ?thesis by metis
qed

definition sample_context :: resolved_auth_context where
  "sample_context = \<lparr>ctx_profile_key = ''p'', ctx_revision = 1, ctx_github_host = ''github.com'', ctx_app_id = ''1'',
     ctx_account_id = 7, ctx_account_kind = KindUser, ctx_login = ''a'', ctx_installation_id = 42,
     ctx_target = TargetRepository ''a'' ''r'', ctx_organization_id = None, ctx_repository_id = Some 100,
     ctx_repository_owner_id = Some 7\<rparr>"

theorem completion_is_final_witness:
  "completes (sample_context\<lparr>ctx_login := ''A''\<rparr>) (sample_context\<lparr>ctx_repository_id := None\<rparr>)"
proof -
  have "completes sample_context (sample_context\<lparr>ctx_repository_id := None\<rparr>)"
    and "completes (sample_context\<lparr>ctx_login := ''A''\<rparr>) sample_context"
    by (simp_all add: sample_context_def completes_def has_complete_identity_def auth_context_pins_agree_def)
  from completion_is_final [OF this] show ?thesis by simp
qed

definition sample_binding :: account_binding where
  "sample_binding = \<lparr>bind_account_id = 7, bind_account_kind = KindUser, bind_login = ''A'', bind_installation_id = 42,
     bind_repository_selection = SelectAll, bind_validated_at_ms = 0\<rparr>"


end
