(* ===== verification/Json.thy ===== *)
theory Json
  imports Prelude
begin

text \<open>
  JSON documents as the code reads them.  The constructors are the public ones of
  \<open>serde_json::Value\<close>; the functions are the accessors the source calls on it.  Parsing and
  printing are library code and are not modelled: a document enters as its value.  A number
  keeps its literal text, since the modelled code never computes with one.
\<close>

datatype json =
    JNull
  | JBool bool
  | JNumber string
  | JString string
  | JArray "json list"
  | JObject "(string \<times> json) list"

type_synonym json_object = "(string \<times> json) list"

fun as_object :: "json \<Rightarrow> json_object option" where
  "as_object (JObject kvs) = Some kvs"
| "as_object _ = None"

fun as_array :: "json \<Rightarrow> json list option" where
  "as_array (JArray vs) = Some vs"
| "as_array _ = None"

fun as_str :: "json \<Rightarrow> string option" where
  "as_str (JString s) = Some s"
| "as_str _ = None"

fun as_bool :: "json \<Rightarrow> bool option" where
  "as_bool (JBool b) = Some b"
| "as_bool _ = None"

fun is_null :: "json \<Rightarrow> bool" where
  "is_null JNull = True"
| "is_null _ = False"

text \<open>\<open>as_u64\<close>: the number is kept as its JSON text; only a plain digit string is an integer.\<close>

definition read_digits :: "string \<Rightarrow> nat" where
  "read_digits s = foldl (\<lambda>n c. 10 * n + (byte c - 48)) 0 s"

fun as_u64 :: "json \<Rightarrow> nat option" where
  "as_u64 (JNumber t) =
     (if t \<noteq> [] \<and> list_all is_digit t \<and> read_digits t \<le> u64_max then Some (read_digits t) else None)"
| "as_u64 _ = None"

text \<open>\<open>str::parse::<u64>\<close>: an optional plus sign, digits, and no overflow.\<close>

definition parse_u64 :: "string \<Rightarrow> nat option" where
  "parse_u64 s =
     (let d = (case strip_prefix ''+'' s of Some r \<Rightarrow> r | None \<Rightarrow> s) in
      if d \<noteq> [] \<and> list_all is_digit d \<and> read_digits d \<le> u64_max then Some (read_digits d) else None)"

text \<open>\<open>Value::get(key)\<close>: a member of an object, \<open>None\<close> on any other value.\<close>

fun get :: "json \<Rightarrow> string \<Rightarrow> json option" where
  "get (JObject kvs) k = map_of kvs k"
| "get _ k = None"

definition get_str :: "json \<Rightarrow> string \<Rightarrow> string option" where
  "get_str v k = Option.bind (get v k) as_str"

definition get_array :: "json \<Rightarrow> string \<Rightarrow> json list option" where
  "get_array v k = Option.bind (get v k) as_array"

definition get_bool :: "json \<Rightarrow> string \<Rightarrow> bool option" where
  "get_bool v k = Option.bind (get v k) as_bool"

definition get_object :: "json \<Rightarrow> string \<Rightarrow> json_object option" where
  "get_object v k = Option.bind (get v k) as_object"

lemma map_of_size: "map_of kvs k = Some v \<Longrightarrow> size v < size (JObject kvs)"
proof (induction kvs)
  case (Cons kv kvs)
  then show ?case by (cases kv) (auto split: if_splits)
qed simp

lemma get_size: "get v k = Some w \<Longrightarrow> size w < size v"
  by (cases v) (auto dest: map_of_size)

lemma get_array_size: "get_array v k = Some ws \<Longrightarrow> w \<in> set ws \<Longrightarrow> size w < size v"
proof -
  assume "get_array v k = Some ws" "w \<in> set ws"
  then obtain a where "get v k = Some a" and "a = JArray ws"
    by (auto simp: get_array_def Option.bind_eq_Some_conv elim: as_array.elims)
  then have "size (JArray ws) < size v" using get_size by blast
  moreover have "size w < size (JArray ws)"
    using \<open>w \<in> set ws\<close> by (simp add: size_list_estimation less_Suc_eq_le size_list_estimation')
  ultimately show ?thesis by simp
qed

end
