(* ===== verification/State_Backend.thy ===== *)
theory State_Backend
  imports Identity Json Auth_Routes "HOL-Library.AList"
begin

text \<open>
  The contract of the private Terraform state backend
  (\<open>crates/shaula-core/src/state_backend/\<close>) and the authority types of the lifecycle worker
  (\<open>worker.rs\<close>, \<open>worker/recovery.rs\<close>): claims, capabilities, state documents, lock records,
  process identities and completion receipts.

  What these files take from other crates is the record \<open>external\<close>: SHA-256, hexadecimal
  encoding, UUID parsing, and serde's reading and writing of the structures declared here.  A
  \<open>Uuid\<close> is its canonical text; random values are arguments of the operations that draw them.
  A secret string is the string: redaction concerns \<open>Debug\<close> output only.
\<close>

section \<open>Errors and bounds\<close>

record wire_lock =
  lock_wire_id :: string
  lock_operation :: string
  lock_info_text :: string
  lock_who :: string
  lock_version :: string
  lock_created :: string
  lock_path :: string

record lock_info =
  li_id :: string
  li_wire :: wire_lock

datatype state_error =
  Unauthorized | Invalid | TooLarge | Conflict | Locked lock_info | Sealed | Unavailable

type_synonym 'a state_result = "state_error + 'a"

definition max_state_bytes :: nat where "max_state_bytes = 16 * 1024 * 1024"
definition max_lock_bytes :: nat where "max_lock_bytes = 16 * 1024"

section \<open>Claims, capabilities and identities\<close>

record state_claim =
  claim_generation :: string
  claim_epoch :: int
  claim_attempt :: string

record process_identity =
  host_boot :: string
  process_id :: nat
  started :: string
  containment :: string
  root_id :: "nat option"

datatype completion_kind = ProviderCleanup | NeverStarted | OperatorAttested

record completion_receipt =
  receipt_claim :: state_claim
  receipt_request :: string
  receipt_revision :: int
  receipt_kind :: completion_kind
  receipt_at :: int

datatype fence_outcome = Fenced | FenceUnknown

record state_resource =
  res_mode :: string
  res_type :: string
  res_name :: string
  res_provider :: string
  res_instances :: "json_object list"

record state_header =
  hdr_version :: nat
  hdr_lineage :: string
  hdr_serial :: int
  hdr_resources :: "state_resource list"
  hdr_outputs :: json_object

record managed_role =
  role_name :: string
  terraform_type :: string
  exact_count :: nat

text \<open>\<open>plan.rs\<close> and \<open>ports/provenance.rs\<close>: what a mutating apply is bound to.\<close>

datatype plan_intent = CreateIntent | DestroyIntent

datatype state_lineage = EmptyLineage | SerialLineage string nat

record plan_provenance =
  prov_intent :: plan_intent
  prov_saved_plan_digest :: string
  prov_engine_kind :: string
  prov_engine_version :: string
  prov_engine_binary_digest :: string
  prov_artifact_digest :: string
  prov_template_material_digest :: string
  prov_protected_input_digest :: string
  prov_state_lineage :: state_lineage
  prov_generation_id :: string
  prov_attempt_id :: string

text \<open>\<open>fleet.rs\<close>: the provider a fleet specification is for.\<close>

datatype fleet_provider_kind = GithubFleet | ForgejoFleet | GitlabFleet

text \<open>
  The functions of other crates this development is parametric in.  \<open>scope_json\<close> is the
  printed JSON array of the job scope.
\<close>

record external =
  sha256 :: "string \<Rightarrow> string"
  hex_encode :: "string \<Rightarrow> string"
  parse_uuid :: "string \<Rightarrow> string option"
  decode_header :: "string \<Rightarrow> state_header option"
  fresh_state :: "string \<Rightarrow> string"
  decode_lock :: "string \<Rightarrow> wire_lock option"
  encode_lock :: "wire_lock \<Rightarrow> string"
  decode_process :: "string \<Rightarrow> process_identity option"
  encode_process :: "process_identity \<Rightarrow> string"
  decode_receipt :: "string \<Rightarrow> completion_receipt option"
  encode_receipt :: "completion_receipt \<Rightarrow> string"
  decode_create_identity :: "string \<Rightarrow> (string \<times> nat) option"
  encode_create_identity :: "string \<Rightarrow> int \<Rightarrow> string"
  decode_manifest_shape :: "string \<Rightarrow> managed_role list option"
  decode_auth_context :: "string \<Rightarrow> resolved_auth_context option"
  scope_json :: "string \<Rightarrow> string \<Rightarrow> int \<Rightarrow> string \<Rightarrow> string \<Rightarrow> int \<Rightarrow> int option \<Rightarrow> int option \<Rightarrow> string"
  encode_provenance :: "plan_provenance \<Rightarrow> string"
  decode_fleet_kind :: "string \<Rightarrow> fleet_provider_kind option"
  parse_json :: "string \<Rightarrow> json option"

definition state_capability_parse :: "string \<Rightarrow> string state_result" where
  "state_capability_parse secret =
     (case strip_prefix ''ss1_'' secret of
        None \<Rightarrow> Inl Unauthorized
      | Some random \<Rightarrow>
          if length random \<noteq> 64 \<or> \<not> list_all is_hexdigit random then Inl Unauthorized else Inr secret)"

definition control_capability_parse :: "string \<Rightarrow> string state_result" where
  "control_capability_parse secret =
     (case strip_prefix ''sc1_'' secret of
        None \<Rightarrow> Inl Unauthorized
      | Some random \<Rightarrow>
          if length random \<noteq> 64 \<or> \<not> list_all is_hexdigit random then Inl Unauthorized else Inr secret)"

definition state_capability_verifier :: "external \<Rightarrow> string \<Rightarrow> string" where
  "state_capability_verifier E c = sha256 E (''shaula-state-capability-v1'' @ [CHR 0x00] @ c)"

definition control_capability_verifier :: "external \<Rightarrow> string \<Rightarrow> string" where
  "control_capability_verifier E c = sha256 E (''shaula-control-capability-v1'' @ [CHR 0x00] @ c)"

definition state_capability_matches :: "external \<Rightarrow> string \<Rightarrow> string \<Rightarrow> bool" where
  "state_capability_matches E c verifier \<longleftrightarrow> state_capability_verifier E c = verifier"

definition control_capability_matches :: "external \<Rightarrow> string \<Rightarrow> string \<Rightarrow> bool" where
  "control_capability_matches E c verifier \<longleftrightarrow> control_capability_verifier E c = verifier"

record state_access =
  sa_generation :: string
  sa_capability :: string

record control_access =
  ca_claim :: state_claim
  ca_capability :: string

record worker_admission =
  adm_claim :: state_claim
  adm_control :: string
  adm_state :: string
  adm_cleanup_only :: bool

text \<open>\<open>WorkerAdmission::new\<close>; the attempt and the two capabilities are freshly drawn.\<close>

definition worker_admission_new :: "string \<Rightarrow> string \<Rightarrow> string \<Rightarrow> string \<Rightarrow> worker_admission" where
  "worker_admission_new generation attempt control state_cap =
     \<lparr>adm_claim = \<lparr>claim_generation = generation, claim_epoch = 1, claim_attempt = attempt\<rparr>,
      adm_control = control, adm_state = state_cap, adm_cleanup_only = False\<rparr>"

definition bounded_text :: "string \<Rightarrow> bool" where
  "bounded_text v \<longleftrightarrow> v \<noteq> [] \<and> length v \<le> 256 \<and> \<not> has_control v"

definition process_identity_validate :: "process_identity \<Rightarrow> unit state_result" where
  "process_identity_validate p =
     (if process_id p = 0 \<or> list_ex (\<lambda>v. \<not> bounded_text v) [host_boot p, started p, containment p]
      then Inl Invalid else Inr ())"

section \<open>Locks\<close>

definition lock_id_parse :: "string \<Rightarrow> string state_result" where
  "lock_id_parse v = (if v = [] \<or> length v > 256 \<or> has_control v then Inl Invalid else Inr v)"

definition lock_info_to_bytes :: "external \<Rightarrow> lock_info \<Rightarrow> string" where
  "lock_info_to_bytes E info = encode_lock E (li_wire info)"

definition lock_info_parse :: "external \<Rightarrow> string \<Rightarrow> lock_info state_result" where
  "lock_info_parse E bytes =
     (if length bytes > max_lock_bytes then Inl TooLarge
      else and_then (ok_or Invalid (decode_lock E bytes)) (\<lambda>wire.
           and_then (lock_id_parse (lock_wire_id wire)) (\<lambda>i.
           let value = \<lparr>li_id = i, li_wire = wire\<rparr> in
           if length (lock_info_to_bytes E value) > max_lock_bytes then Inl TooLarge
           else Inr value)))"

section \<open>State documents\<close>

record state_document =
  doc_bytes :: string
  doc_lineage :: string
  doc_serial :: int
  doc_managed_empty :: bool
  doc_managed_counts :: "(string \<times> nat) list"

definition u64_add :: "nat \<Rightarrow> nat \<Rightarrow> nat" where
  "u64_add a b = (a + b) mod 2 ^ 64"

text \<open>\<open>*entry(k).or_insert(0) += n\<close> over a list of entries; a \<open>BTreeMap\<close> is its association list.\<close>

definition tally :: "(string \<times> nat) list \<Rightarrow> (string \<times> nat) list" where
  "tally entries = foldl (\<lambda>m e. AList.map_default (fst e) (snd e mod 2 ^ 64) (\<lambda>n. u64_add n (snd e)) m) [] entries"

definition resource_malformed :: "state_resource \<Rightarrow> bool" where
  "resource_malformed r \<longleftrightarrow>
     \<not> (res_mode r = ''managed'' \<or> res_mode r = ''data'') \<or> res_type r = [] \<or> res_name r = [] \<or> res_provider r = []"

definition is_object :: "json \<Rightarrow> bool" where
  "is_object v = (as_object v \<noteq> None)"

definition managed_empty :: "state_header \<Rightarrow> bool" where
  "managed_empty h \<longleftrightarrow> list_all (\<lambda>r. res_mode r \<noteq> ''managed'' \<or> res_instances r = []) (hdr_resources h)"

definition managed_counts :: "state_header \<Rightarrow> (string \<times> nat) list" where
  "managed_counts h =
     tally (map (\<lambda>r. (res_type r, length (res_instances r)))
       (filter (\<lambda>r. res_mode r = ''managed'') (hdr_resources h)))"

definition state_document_parse :: "external \<Rightarrow> string \<Rightarrow> state_document state_result" where
  "state_document_parse E bytes =
     (if length bytes > max_state_bytes then Inl TooLarge
      else and_then (ok_or Invalid (decode_header E bytes)) (\<lambda>header.
           if hdr_version header \<noteq> 4 \<or> hdr_serial header < 0 \<or> hdr_lineage header = []
              \<or> length (hdr_lineage header) > 256 \<or> has_control (hdr_lineage header)
              \<or> list_ex resource_malformed (hdr_resources header)
           then Inl Invalid
           else if list_ex (\<lambda>v. \<not> is_object (snd v)) (hdr_outputs header) then Inl Invalid
           else Inr \<lparr>doc_bytes = bytes, doc_lineage = hdr_lineage header, doc_serial = hdr_serial header,
                     doc_managed_empty = managed_empty header,
                     doc_managed_counts = managed_counts header\<rparr>))"

definition count_of :: "(string \<times> nat) list \<Rightarrow> string \<Rightarrow> nat" where
  "count_of m k = (case map_of m k of None \<Rightarrow> 0 | Some n \<Rightarrow> n)"

definition records_whole_shape :: "state_document \<Rightarrow> managed_role list \<Rightarrow> bool" where
  "records_whole_shape doc shape =
     (let expected = tally (map (\<lambda>r. (terraform_type r, exact_count r)) shape) in
      expected \<noteq> []
      \<and> length (filter (\<lambda>kc. 0 < snd kc) (doc_managed_counts doc)) = length expected
      \<and> list_all (\<lambda>kc. count_of (doc_managed_counts doc) (fst kc) = snd kc) expected)"

section \<open>Recovery records\<close>

datatype worker_phase = Admitted | LaunchPending | Running | PhaseFenced | PhaseCompleted | PhaseQuarantined

record recovery_record =
  rec_generation :: string
  rec_epoch :: int
  rec_attempt :: string
  rec_phase :: worker_phase
  rec_process :: "string option"
  rec_workspace :: string
  rec_create_started :: bool
  rec_has_input :: bool

definition recovery_claim :: "external \<Rightarrow> recovery_record \<Rightarrow> state_claim state_result" where
  "recovery_claim E r =
     and_then (ok_or Invalid (parse_uuid E (rec_generation r))) (\<lambda>g.
     and_then (ok_or Invalid (parse_uuid E (rec_attempt r))) (\<lambda>a.
     Inr \<lparr>claim_generation = g, claim_epoch = rec_epoch r, claim_attempt = a\<rparr>))"

definition recovery_identity :: "external \<Rightarrow> recovery_record \<Rightarrow> process_identity option state_result" where
  "recovery_identity E r =
     (case rec_process r of
        None \<Rightarrow> Inr None
      | Some text \<Rightarrow> map_ok Some (ok_or Unavailable (decode_process E text)))"

section \<open>Counting managed resources\<close>

definition entry_sum :: "(string \<times> nat) list \<Rightarrow> string \<Rightarrow> nat" where
  "entry_sum es k = sum_list (map snd (filter (\<lambda>e. fst e = k) es))"

lemma entry_sum_Nil [simp]: "entry_sum [] k = 0"
  by (simp add: entry_sum_def)

lemma entry_sum_snoc: "entry_sum (es @ [e]) k = entry_sum es k + (if fst e = k then snd e else 0)"
  by (simp add: entry_sum_def)

lemma member_le_sum_nat: "x \<in> set xs \<Longrightarrow> x \<le> sum_list (xs :: nat list)"
  by (induction xs) auto

lemma entry_sum_pos:
  assumes "k \<in> fst ` set es" and "\<And>e. e \<in> set es \<Longrightarrow> 0 < snd e"
  shows "0 < entry_sum es k"
proof -
  from assms(1) obtain e where "e \<in> set es" "fst e = k" by auto
  then have "snd e \<in> set (map snd (filter (\<lambda>e. fst e = k) es))" by simp
  then have "snd e \<le> entry_sum es k"
    unfolding entry_sum_def by (rule member_le_sum_nat)
  with assms(2) [OF \<open>e \<in> set es\<close>] show ?thesis by simp
qed

lemma entry_sum_absent: "k \<notin> fst ` set es \<Longrightarrow> entry_sum es k = 0"
  by (induction es) (auto simp: entry_sum_def)

lemma map_of_map_default:
  "map_of (AList.map_default k v f al) k' =
     (if k = k' then Some (case map_of al k of None \<Rightarrow> v | Some w \<Rightarrow> f w) else map_of al k')"
  by (induction al) (auto split: option.splits)

lemma tally_snoc:
  "tally (es @ [e]) = AList.map_default (fst e) (snd e mod 2 ^ 64) (\<lambda>n. u64_add n (snd e)) (tally es)"
  by (simp add: tally_def)

lemma map_of_tally:
  "map_of (tally es) k = (if k \<in> fst ` set es then Some (entry_sum es k mod 2 ^ 64) else None)"
proof (induction es rule: rev_induct)
  case Nil
  show ?case by (simp add: tally_def)
next
  case (snoc e es)
  show ?case
  proof (cases "k = fst e")
    case True
    with snoc show ?thesis
      by (cases "k \<in> fst ` set es")
        (simp_all add: tally_snoc map_of_map_default entry_sum_snoc u64_add_def mod_add_left_eq entry_sum_absent)
  next
    case False
    with snoc show ?thesis
      by (auto simp: tally_snoc map_of_map_default entry_sum_snoc)
  qed
qed

lemma distinct_tally: "distinct (map fst (tally es))"
  by (induction es rule: rev_induct) (simp_all add: tally_def distinct_map_default)

lemma set_fst_tally: "fst ` set (tally es) = fst ` set es"
proof -
  have "k \<in> fst ` set (tally es) \<longleftrightarrow> k \<in> fst ` set es" for k
    by (metis map_of_tally map_of_eq_None_iff option.distinct(1))
  then show ?thesis by blast
qed

lemma count_of_tally: "count_of (tally es) k = entry_sum es k mod 2 ^ 64"
  by (auto simp: count_of_def map_of_tally entry_sum_absent)

text \<open>The number of keys with a positive count.\<close>

lemma length_positive:
  assumes "distinct (map fst m)"
  shows "length (filter (\<lambda>kc. 0 < snd kc) m) = card {k. 0 < count_of m k}"
proof -
  have d: "distinct (map fst (filter (\<lambda>kc. 0 < snd kc) m))"
    using assms by (rule distinct_map_filter)
  have "fst ` set (filter (\<lambda>kc. 0 < snd kc) m) = {k. 0 < count_of m k}"
  proof (intro set_eqI iffI)
    fix k assume "k \<in> fst ` set (filter (\<lambda>kc. 0 < snd kc) m)"
    then obtain n where "(k, n) \<in> set m" "0 < n" by auto
    with assms show "k \<in> {k. 0 < count_of m k}"
      by (simp add: count_of_def map_of_is_SomeI)
  next
    fix k assume "k \<in> {k. 0 < count_of m k}"
    then obtain n where "map_of m k = Some n" "0 < n"
      by (auto simp: count_of_def split: option.splits)
    then show "k \<in> fst ` set (filter (\<lambda>kc. 0 < snd kc) m)"
      by (force dest: map_of_SomeD)
  qed
  then show ?thesis
    using distinct_card [OF d] by simp
qed

definition recorded :: "state_header \<Rightarrow> string \<Rightarrow> nat" where
  "recorded h = entry_sum (map (\<lambda>r. (res_type r, length (res_instances r)))
     (filter (\<lambda>r. res_mode r = ''managed'') (hdr_resources h)))"

definition required :: "managed_role list \<Rightarrow> string \<Rightarrow> nat" where
  "required shape = entry_sum (map (\<lambda>r. (terraform_type r, exact_count r)) shape)"

lemma state_document_parse_Inr:
  assumes "state_document_parse E bytes = Inr doc"
  obtains h where "decode_header E bytes = Some h" "hdr_version h = 4" "0 \<le> hdr_serial h"
    "doc_bytes doc = bytes" "doc_lineage doc = hdr_lineage h" "doc_serial doc = hdr_serial h"
    "doc_managed_empty doc = managed_empty h" "doc_managed_counts doc = managed_counts h"
    "length bytes \<le> max_state_bytes" "hdr_lineage h \<noteq> []"
  using assms
  by (auto simp: state_document_parse_def result_simps split: if_splits)

lemma parse_bytes: "state_document_parse E bytes = Inr doc \<Longrightarrow> doc_bytes doc = bytes"
  by (erule state_document_parse_Inr) simp

lemma parse_serial_nonneg: "state_document_parse E bytes = Inr doc \<Longrightarrow> 0 \<le> doc_serial doc"
  by (erule state_document_parse_Inr) simp

lemma managed_empty_recorded: "managed_empty h \<longleftrightarrow> (\<forall>k. recorded h k = 0)"
proof
  assume "managed_empty h"
  then show "\<forall>k. recorded h k = 0"
    by (auto simp: managed_empty_def recorded_def entry_sum_def list_all_iff)
next
  assume z: "\<forall>k. recorded h k = 0"
  have "res_instances r = []" if "r \<in> set (hdr_resources h)" "res_mode r = ''managed''" for r
  proof -
    from that have "length (res_instances r) \<le> recorded h (res_type r)"
      unfolding recorded_def entry_sum_def by (intro member_le_sum_nat) force
    with z show ?thesis by simp
  qed
  then show "managed_empty h" by (auto simp: managed_empty_def list_all_iff)
qed

text \<open>The comparison of two tallies as one of the counts they stand for.\<close>

lemma recorded_finite:
  assumes parsed: "state_document_parse E bytes = Inr doc" and header: "decode_header E bytes = Some h"
    and small: "\<And>k. recorded h k < 2 ^ 64"
  shows "finite {k. 0 < recorded h k}"
proof (rule finite_subset)
  have "doc_managed_counts doc = managed_counts h"
    using state_document_parse_Inr [OF parsed] header by (metis option.inject)
  then have "count_of (doc_managed_counts doc) k = recorded h k" for k
    using small [of k] by (simp add: managed_counts_def count_of_tally recorded_def)
  then show "{k. 0 < recorded h k} \<subseteq> fst ` set (doc_managed_counts doc)"
    by (force simp: count_of_def dest: map_of_SomeD split: option.splits)
qed simp

lemma whole_shape_counts:
  assumes parsed: "state_document_parse E bytes = Inr doc" and header: "decode_header E bytes = Some h"
    and pos: "\<And>r. r \<in> set shape \<Longrightarrow> 0 < exact_count r"
    and small: "\<And>k. recorded h k < 2 ^ 64" "\<And>k. required shape k < 2 ^ 64"
  shows "records_whole_shape doc shape \<longleftrightarrow> shape \<noteq> []
      \<and> card {k. 0 < recorded h k} = card {k. 0 < required shape k}
      \<and> (\<forall>k. 0 < required shape k \<longrightarrow> recorded h k = required shape k)"
proof -
  define es where "es = map (\<lambda>r. (terraform_type r, exact_count r)) shape"
  have counts: "doc_managed_counts doc = managed_counts h"
    using state_document_parse_Inr [OF parsed] header by (metis option.inject)
  have rec: "count_of (doc_managed_counts doc) k = recorded h k" for k
    using small(1) [of k] by (simp add: counts managed_counts_def count_of_tally recorded_def)
  have req: "map_of (tally es) k = (if k \<in> fst ` set es then Some (required shape k) else None)" for k
    using small(2) [of k] by (simp add: map_of_tally required_def es_def)
  have keys: "k \<in> fst ` set es \<longleftrightarrow> 0 < required shape k" for k
  proof
    assume "k \<in> fst ` set es"
    then show "0 < required shape k"
      unfolding required_def using pos by (intro entry_sum_pos) (auto simp: es_def)
  next
    assume "0 < required shape k"
    then show "k \<in> fst ` set es"
      unfolding required_def es_def [symmetric] using entry_sum_absent [of k es] by auto
  qed
  have len: "length (tally es) = card {k. 0 < required shape k}"
  proof -
    have "length (tally es) = card (fst ` set (tally es))"
      using distinct_card [OF distinct_tally [of es]] by simp
    also have "fst ` set (tally es) = {k. 0 < required shape k}"
      using keys by (auto simp: set_fst_tally)
    finally show ?thesis .
  qed
  have pos_len: "length (filter (\<lambda>kc. 0 < snd kc) (doc_managed_counts doc)) = card {k. 0 < recorded h k}"
    using length_positive [of "doc_managed_counts doc"] rec
    by (simp add: counts managed_counts_def distinct_tally)
  have all: "list_all (\<lambda>kc. count_of (doc_managed_counts doc) (fst kc) = snd kc) (tally es)
      \<longleftrightarrow> (\<forall>k. 0 < required shape k \<longrightarrow> recorded h k = required shape k)"
  proof -
    have "(k, c) \<in> set (tally es) \<longleftrightarrow> 0 < required shape k \<and> c = required shape k" for k c
      using map_of_eq_Some_iff [OF distinct_tally [of es], of k c] req [of k] keys [of k] by auto
    then show ?thesis by (simp add: list_all_iff rec) fastforce
  qed
  have ne: "tally es \<noteq> [] \<longleftrightarrow> shape \<noteq> []"
    using set_fst_tally [of es] by (metis es_def image_is_empty map_is_Nil_conv set_empty)
  show ?thesis
    by (simp add: records_whole_shape_def Let_def ne len all pos_len flip: es_def)
qed

section \<open>Properties\<close>

text \<open>A parsed state document records the whole shape of a manifest exactly when, type by type, the
  managed instances of the state are as many as the manifest's roles require, and there is a role
  at all: nothing is missing and no other managed resource is tracked.  The premises are what the
  manifest validation guarantees of the counts (positive) and that no 64-bit counter wraps.\<close>

theorem whole_shape_iff:
  assumes parsed: "state_document_parse E bytes = Inr doc" and header: "decode_header E bytes = Some h"
    and pos: "\<And>r. r \<in> set shape \<Longrightarrow> 0 < exact_count r"
    and small: "\<And>k. recorded h k < 2 ^ 64" "\<And>k. required shape k < 2 ^ 64"
  shows "records_whole_shape doc shape \<longleftrightarrow> shape \<noteq> [] \<and> (\<forall>k. recorded h k = required shape k)"
proof
  note whole = whole_shape_counts [OF parsed header pos small]
  assume "records_whole_shape doc shape"
  with whole have w: "shape \<noteq> []" "card {k. 0 < recorded h k} = card {k. 0 < required shape k}"
    "\<And>k. 0 < required shape k \<Longrightarrow> recorded h k = required shape k" by blast+
  have "{k. 0 < required shape k} \<subseteq> {k. 0 < recorded h k}" using w(3) by auto
  from card_subset_eq [OF recorded_finite [OF parsed header small(1)] this w(2) [symmetric]]
  have same: "0 < required shape k \<longleftrightarrow> 0 < recorded h k" for k
    by (simp only: set_eq_iff mem_Collect_eq)
  have "recorded h k = required shape k" for k
    using w(3) [of k] same [of k] by (cases "0 < required shape k") simp_all
  with w(1) show "shape \<noteq> [] \<and> (\<forall>k. recorded h k = required shape k)" by blast
next
  assume "shape \<noteq> [] \<and> (\<forall>k. recorded h k = required shape k)"
  then show "records_whole_shape doc shape" using whole_shape_counts [OF parsed header pos small] by simp
qed

end
