(* ===== verification/Plan_Admission.thy ===== *)
theory Plan_Admission
  imports Json Reasons State_Backend "HOL-Library.Code_Target_Nat"
begin

text \<open>
  Admission of a saved Terraform plan: \<open>plan.rs\<close>, \<open>plan_admit.rs\<close> and \<open>plan_checks.rs\<close>.  A plan document
  is a JSON value; each loop of the code is a recursion that stops at the first error.  The formatted
  parts of the error texts are left out.
\<close>

section \<open>Parsing a plan document\<close>

record planned_instance =
  pi_module :: "string option"
  pi_mode :: string
  pi_address :: string
  pi_type :: string
  pi_actions :: "string list"
  pi_deposed :: bool
  pi_previous :: "string option"

record parsed_plan =
  pl_format :: nat
  pl_terraform :: "string option"
  pl_instances :: "planned_instance list"
  pl_prior :: "string list option"

definition plan_err :: "string \<Rightarrow> 'a core_result" where
  "plan_err s = core_err TemplatePlanFailed s"

abbreviation or_plan_err :: "'a option \<Rightarrow> string \<Rightarrow> 'a core_result" where
  "or_plan_err x s \<equiv> ok_or (core_error_new TemplatePlanFailed s) x"

abbreviation get_in :: "json_object \<Rightarrow> string \<Rightarrow> json option" where
  "get_in \<equiv> map_of"

text \<open>A member that is present and not null.\<close>

definition present :: "json_object \<Rightarrow> string \<Rightarrow> bool" where
  "present kvs k = (case get_in kvs k of None \<Rightarrow> False | Some v \<Rightarrow> \<not> is_null v)"

definition str_in :: "json_object \<Rightarrow> string \<Rightarrow> string option" where
  "str_in kvs k = Option.bind (get_in kvs k) as_str"

definition bool_in :: "json_object \<Rightarrow> string \<Rightarrow> bool option" where
  "bool_in kvs k = Option.bind (get_in kvs k) as_bool"

definition array_in :: "json_object \<Rightarrow> string \<Rightarrow> json list option" where
  "array_in kvs k = Option.bind (get_in kvs k) as_array"

definition object_in :: "json_object \<Rightarrow> string \<Rightarrow> json_object option" where
  "object_in kvs k = Option.bind (get_in kvs k) as_object"

text \<open>One entry of \<open>resource_changes\<close>.\<close>

definition parse_change :: "json \<Rightarrow> planned_instance core_result" where
  "parse_change change =
     and_then (or_plan_err (as_object change) ''resource_change entry is not an object'') (\<lambda>cobj.
     and_then (or_plan_err (str_in cobj ''address'') ''resource change without address'') (\<lambda>address.
     and_then (or_plan_err (str_in cobj ''mode'') ''resource change without mode'') (\<lambda>mode.
     and_then (or_plan_err (str_in cobj ''type'') ''resource change without type'') (\<lambda>resource_type.
     and_then (or_plan_err (object_in cobj ''change'') ''resource change without change object'') (\<lambda>change_obj.
     if mode \<noteq> ''managed'' \<and> mode \<noteq> ''data'' then plan_err ''unknown resource mode'' else
     and_then (or_plan_err (array_in change_obj ''actions'') ''resource change without actions array'') (\<lambda>raw.
     and_then (collect (\<lambda>a. or_plan_err (as_str a) ''non-string action'') raw) (\<lambda>actions.
     if present cobj ''importing'' \<or> present change_obj ''importing''
     then plan_err ''planned import is rejected''
     else if str_in change_obj ''action_reason'' = Some ''import''
     then plan_err ''planned import (action_reason) is rejected''
     else Inr \<lparr>pi_module = str_in cobj ''module_address'', pi_mode = mode, pi_address = address,
               pi_type = resource_type, pi_actions = actions,
               pi_deposed = (present cobj ''deposed'' \<or> present change_obj ''deposed''),
               pi_previous = str_in cobj ''previous_address''\<rparr>)))))))"

text \<open>The managed addresses of a module and of the modules below it; an entry without one is empty.\<close>

definition managed_address :: "json \<Rightarrow> string option" where
  "managed_address r =
     (if get_str r ''mode'' = Some ''managed''
      then Some (case get_str r ''address'' of None \<Rightarrow> [] | Some a \<Rightarrow> a) else None)"

definition elements :: "json \<Rightarrow> string \<Rightarrow> json list" where
  "elements v k = (case get_array v k of None \<Rightarrow> [] | Some vs \<Rightarrow> vs)"

lemma elements_size: "w \<in> set (elements v k) \<Longrightarrow> size w < size v"
  by (cases "get_array v k") (auto simp: elements_def dest: get_array_size)

function collect_managed_addresses :: "json \<Rightarrow> string list" where
  "collect_managed_addresses module =
     List.map_filter managed_address (elements module ''resources'')
     @ concat (map collect_managed_addresses (elements module ''child_modules''))"
  by pat_completeness auto

termination
  by (relation "measure size") (auto dest: elements_size)

declare collect_managed_addresses.simps [simp del]

definition prior_root :: "json_object \<Rightarrow> json option" where
  "prior_root obj =
     Option.bind (get_in obj ''prior_state'') (\<lambda>p.
     Option.bind (get p ''values'') (\<lambda>v. get v ''root_module''))"

definition supported_format_major :: nat where "supported_format_major = 1"

definition format_major :: "json_object \<Rightarrow> nat option" where
  "format_major obj = Option.bind (str_in obj ''format_version'') (\<lambda>s. parse_u64 (hd (split_on CHR ''.'' s)))"

definition parse_plan_shape :: "json \<Rightarrow> parsed_plan core_result" where
  "parse_plan_shape doc =
     and_then (or_plan_err (as_object doc) ''plan document is not a JSON object'') (\<lambda>obj.
     and_then (or_plan_err (format_major obj) ''plan format_version missing or malformed'') (\<lambda>format_version.
     if format_version \<noteq> supported_format_major then plan_err ''unsupported plan format major'' else
     let applyable = (case bool_in obj ''applyable'' of None \<Rightarrow> False | Some b \<Rightarrow> b);
         complete = (case bool_in obj ''complete'' of None \<Rightarrow> False | Some b \<Rightarrow> b);
         errored = (case bool_in obj ''errored'' of None \<Rightarrow> True | Some b \<Rightarrow> b) in
     if \<not> applyable then plan_err ''plan is not applyable''
     else if \<not> complete then plan_err ''plan is incomplete''
     else if errored then plan_err ''plan has errored''
     else
     and_then (collect parse_change
        (case array_in obj ''resource_changes'' of None \<Rightarrow> [] | Some cs \<Rightarrow> cs)) (\<lambda>instances.
     if (case array_in obj ''deferred_changes'' of None \<Rightarrow> False | Some ds \<Rightarrow> ds \<noteq> [])
     then plan_err ''plan contains deferred changes''
     else Inr \<lparr>pl_format = format_version, pl_terraform = str_in obj ''terraform_version'',
               pl_instances = instances,
               pl_prior = map_option collect_managed_addresses (prior_root obj)\<rparr>)))"

section \<open>Check results\<close>

definition empty_or_absent :: "json \<Rightarrow> string \<Rightarrow> bool" where
  "empty_or_absent v member0 =
     (case get v member0 of None \<Rightarrow> True | Some w \<Rightarrow> as_array w = Some [])"

definition admit_passed_instances :: "json \<Rightarrow> unit core_result" where
  "admit_passed_instances check =
     (case get check ''instances'' of
        None \<Rightarrow> Inr ()
      | Some v \<Rightarrow>
          and_then (or_plan_err (as_array v) ''plan check instances must be an array'') (\<lambda>instances.
          if list_ex (\<lambda>i. get_str i ''status'' \<noteq> Some ''pass'' \<or> \<not> empty_or_absent i ''problems'') instances
          then plan_err ''plan contains failed, errored or unresolved check instances''
          else Inr ()))"

definition skipped_deleted_resource :: "json \<Rightarrow> json \<Rightarrow> planned_instance list \<Rightarrow> bool" where
  "skipped_deleted_resource check doc deleted =
     (if \<not> empty_or_absent check ''instances'' then False else
      case get check ''address'' of None \<Rightarrow> False | Some address \<Rightarrow>
      if get_str address ''kind'' \<noteq> Some ''resource'' \<or> get_str address ''mode'' \<noteq> Some ''managed''
      then False else
      case get_str address ''to_display'' of None \<Rightarrow> False | Some display \<Rightarrow>
      case find (\<lambda>i. pi_address i = display \<and> pi_mode i = ''managed'' \<and> pi_actions i = [''delete'']) deleted of
        None \<Rightarrow> False
      | Some resource \<Rightarrow>
      if get_str address ''type'' \<noteq> Some (pi_type resource) then False else
      case get_str address ''name'' of None \<Rightarrow> False | Some name \<Rightarrow>
      if name = [] then False else
      (case get_array doc ''resource_changes'' of None \<Rightarrow> False
       | Some changes \<Rightarrow> list_ex (\<lambda>c. get_str c ''address'' = Some display \<and> get_str c ''name'' = Some name) changes))"

text \<open>The body of the loop over the checks, with the set of addresses seen before.\<close>

definition admit_check :: "json \<Rightarrow> planned_instance list \<Rightarrow> string list \<Rightarrow> json \<Rightarrow> string list core_result" where
  "admit_check doc deleted seen check =
     and_then (case Option.bind (get check ''address'') (\<lambda>a. get a ''to_display'') of
                 None \<Rightarrow> Inr seen
               | Some v \<Rightarrow>
                   and_then (or_plan_err (case as_str v of Some s \<Rightarrow> if s = [] then None else Some s | None \<Rightarrow> None)
                      ''plan check address is malformed'') (\<lambda>address.
                   if address \<in> set seen then plan_err ''plan contains duplicate check addresses''
                   else Inr (address # seen))) (\<lambda>seen'.
     if \<not> empty_or_absent check ''problems'' then plan_err ''plan contains check problems''
     else if get_str check ''status'' = Some ''pass'' then map_ok (\<lambda>_. seen') (admit_passed_instances check)
     else if get_str check ''status'' = Some ''unknown'' \<and> skipped_deleted_resource check doc deleted
     then Inr seen'
     else plan_err ''plan contains failed, errored or unresolved checks'')"

fun admit_check_list :: "json \<Rightarrow> planned_instance list \<Rightarrow> string list \<Rightarrow> json list \<Rightarrow> unit core_result" where
  "admit_check_list doc deleted seen [] = Inr ()"
| "admit_check_list doc deleted seen (c # cs) =
     and_then (admit_check doc deleted seen c) (\<lambda>seen'. admit_check_list doc deleted seen' cs)"

definition admit_checks :: "json \<Rightarrow> planned_instance list \<Rightarrow> unit core_result" where
  "admit_checks doc deleted =
     (case get doc ''checks'' of
        None \<Rightarrow> Inr ()
      | Some v \<Rightarrow>
          and_then (or_plan_err (as_array v) ''plan checks must be an array'') (admit_check_list doc deleted []))"

definition parse_plan :: "json \<Rightarrow> parsed_plan core_result" where
  "parse_plan doc =
     and_then (parse_plan_shape doc) (\<lambda>plan.
     and_then (admit_checks doc []) (\<lambda>_. Inr plan))"

section \<open>Admission for Create\<close>

text \<open>The role an instance is counted for: the first one of its type.\<close>

fun count_role :: "string \<Rightarrow> (managed_role \<times> nat) list \<Rightarrow> (managed_role \<times> nat) list option" where
  "count_role t [] = None"
| "count_role t ((r, n) # rs) =
     (if terraform_type r = t then Some ((r, n + 1) # rs)
      else map_option (\<lambda>rest. (r, n) # rest) (count_role t rs))"

definition admit_managed_instance ::
  "string list \<Rightarrow> planned_instance \<Rightarrow> (managed_role \<times> nat) list \<Rightarrow> (managed_role \<times> nat) list core_result" where
  "admit_managed_instance exact_actions i per_role =
     (if pi_mode i \<noteq> ''managed'' then Inr per_role
      else if pi_deposed i then plan_err ''deposed instance in plan''
      else if pi_previous i \<noteq> None then plan_err ''moved resource in plan''
      else if list_ex (\<lambda>a. a = ''import'' \<or> a = ''move'' \<or> a = ''forget'') (pi_actions i)
      then plan_err ''forbidden action in plan''
      else if length (pi_actions i) \<noteq> 1 \<or> pi_actions i ! 0 \<noteq> exact_actions ! 0
      then plan_err ''plan requires exact actions''
      else or_plan_err (count_role (pi_type i) per_role) ''undeclared managed resource type in plan'')"

fun admit_managed_from ::
  "string list \<Rightarrow> planned_instance list \<Rightarrow> (managed_role \<times> nat) list \<Rightarrow> (managed_role \<times> nat) list core_result" where
  "admit_managed_from exact_actions [] per_role = Inr per_role"
| "admit_managed_from exact_actions (i # rest) per_role =
     and_then (admit_managed_instance exact_actions i per_role) (admit_managed_from exact_actions rest)"

definition admit_managed :: "parsed_plan \<Rightarrow> managed_role list \<Rightarrow> string list \<Rightarrow> unit core_result" where
  "admit_managed plan shape exact_actions =
     and_then (admit_managed_from exact_actions (pl_instances plan) (map (\<lambda>r. (r, 0)) shape)) (\<lambda>per_role.
     for_each (\<lambda>(role, count). if count \<noteq> exact_count role then plan_err ''plan role expects another count''
                             else Inr ()) per_role)"

definition admit_data_resources :: "parsed_plan \<Rightarrow> unit core_result" where
  "admit_data_resources plan =
     for_each (\<lambda>i. if pi_mode i \<noteq> ''data'' then Inr ()
                else if length (pi_actions i) = 1 \<and> (pi_actions i ! 0 = ''read'' \<or> pi_actions i ! 0 = ''no-op'')
                then Inr () else plan_err ''data resource may only read or no-op'') (pl_instances plan)"

definition admit_create_plan :: "parsed_plan \<Rightarrow> bool \<Rightarrow> managed_role list \<Rightarrow> unit core_result" where
  "admit_create_plan plan prior_state_empty shape =
     (if \<not> prior_state_empty then plan_err ''create requires empty managed prior state''
      else if (case pl_prior plan of None \<Rightarrow> False | Some managed \<Rightarrow> managed \<noteq> [])
      then plan_err ''create requires empty managed prior state (plan prior_state snapshot is not empty)''
      else and_then (admit_managed plan shape [''create'']) (\<lambda>_. admit_data_resources plan))"

section \<open>Admission for Destroy\<close>

definition admit_delete_instance :: "managed_role list \<Rightarrow> planned_instance \<Rightarrow> unit core_result" where
  "admit_delete_instance shape i =
     (if pi_deposed i then plan_err ''deposed instance in delete plan''
      else if pi_previous i \<noteq> None then plan_err ''moved resource in delete plan''
      else if length (pi_actions i) \<noteq> 1 \<or> pi_actions i ! 0 \<noteq> ''delete''
      then plan_err ''delete plan requires actions exactly [delete]''
      else if pi_type i \<notin> set (map terraform_type shape)
      then plan_err ''undeclared managed resource type in delete plan''
      else Inr ())"

definition managed_instances :: "parsed_plan \<Rightarrow> planned_instance list" where
  "managed_instances plan = filter (\<lambda>i. pi_mode i = ''managed'') (pl_instances plan)"

fun equal_neighbours :: "'a list \<Rightarrow> bool" where
  "equal_neighbours (x # y # rest) = (x = y \<or> equal_neighbours (y # rest))"
| "equal_neighbours _ = False"

definition refreshed_away :: "parsed_plan \<Rightarrow> string \<Rightarrow> bool" where
  "refreshed_away plan address = (case pl_prior plan of None \<Rightarrow> False | Some managed \<Rightarrow> address \<notin> set managed)"

definition admit_destroy_plan :: "parsed_plan \<Rightarrow> string list \<Rightarrow> managed_role list \<Rightarrow> unit core_result" where
  "admit_destroy_plan plan state_addresses shape =
     and_then (for_each (admit_delete_instance shape) (managed_instances plan)) (\<lambda>_.
     and_then (admit_data_resources plan) (\<lambda>_.
     let planned = sort (map pi_address (managed_instances plan)) in
     if equal_neighbours planned then plan_err ''destroy plan lists a managed address more than once'' else
     and_then (for_each (\<lambda>a. if a \<notin> set state_addresses
         then plan_err ''destroy plan introduces address not present in state'' else Inr ()) planned) (\<lambda>_.
     for_each (\<lambda>a. if a \<notin> set planned \<and> \<not> refreshed_away plan a
         then plan_err ''destroy plan omits bound-state address'' else Inr ()) state_addresses)))"

definition admit_destroy_plan_json :: "json \<Rightarrow> string list \<Rightarrow> managed_role list \<Rightarrow> unit core_result" where
  "admit_destroy_plan_json doc state_addresses shape =
     and_then (parse_plan_shape doc) (\<lambda>plan.
     and_then (admit_destroy_plan plan state_addresses shape) (\<lambda>_.
     admit_checks doc (pl_instances plan)))"

definition destroy_empty_state_short_circuit :: "string list \<Rightarrow> bool" where
  "destroy_empty_state_short_circuit state_addresses = (state_addresses = [])"

section \<open>Identity of the destroyed resources\<close>

definition refreshed_name :: "json \<Rightarrow> string option" where
  "refreshed_name change =
     Option.bind (get change ''change'') (\<lambda>c. Option.bind (get c ''before'') (\<lambda>b. get_str b ''name''))"

definition admit_destroy_identity :: "json \<Rightarrow> (string \<times> string) list \<Rightarrow> unit core_result" where
  "admit_destroy_identity doc names =
     and_then (or_plan_err (get_array doc ''resource_changes'') ''plan resource_changes missing'') (\<lambda>changes.
     for_each (\<lambda>(address, expected).
        for_each (\<lambda>c. if refreshed_name c \<noteq> Some expected
                   then plan_err ''destroy plan targets a different resource'' else Inr ())
          (filter (\<lambda>c. get_str c ''address'' = Some address) changes)) names)"

section \<open>What an accepted document holds\<close>

text \<open>The document read directly, without the parser.\<close>

definition change_member :: "json \<Rightarrow> string \<Rightarrow> json option" where
  "change_member c k = Option.bind (get c ''change'') (\<lambda>v. get v k)"

definition absent_or_null :: "json option \<Rightarrow> bool" where
  "absent_or_null v \<longleftrightarrow> (case v of None \<Rightarrow> True | Some w \<Rightarrow> is_null w)"

definition plain_change :: "json \<Rightarrow> string \<Rightarrow> bool" where
  "plain_change c action \<longleftrightarrow> change_member c ''actions'' = Some (JArray [JString action])
     \<and> absent_or_null (get c ''deposed'') \<and> absent_or_null (change_member c ''deposed'')
     \<and> get_str c ''previous_address'' = None"

definition plan_changes :: "json \<Rightarrow> json list" where
  "plan_changes doc = elements doc ''resource_changes''"

definition managed_change :: "json \<Rightarrow> bool" where
  "managed_change c \<longleftrightarrow> get_str c ''mode'' = Some ''managed''"

definition reads_only :: "json \<Rightarrow> bool" where
  "reads_only c \<longleftrightarrow> (\<exists>a\<in>set [''read'', ''no-op'']. change_member c ''actions'' = Some (JArray [JString a]))"

definition document_root :: "json \<Rightarrow> json option" where
  "document_root doc = Option.bind (get doc ''prior_state'') (\<lambda>p.
     Option.bind (get p ''values'') (\<lambda>v. get v ''root_module''))"

lemma as_object_Some: "as_object v = Some kvs \<longleftrightarrow> v = JObject kvs"
  by (cases v) auto

lemma as_array_Some: "as_array v = Some ws \<longleftrightarrow> v = JArray ws"
  by (cases v) auto

lemma as_str_Some: "as_str v = Some s \<longleftrightarrow> v = JString s"
  by (cases v) auto

lemma get_JObject [simp]: "get (JObject kvs) k = map_of kvs k"
  by simp

lemma collect_strings: "collect (\<lambda>a. or_plan_err (as_str a) m) raw = Inr ss \<longleftrightarrow> raw = map JString ss"
  unfolding collect_Inr
proof (induction raw arbitrary: ss)
  case (Cons a raw)
  then show ?case by (cases ss) (auto simp: ok_or_Inr as_str_Some)
qed auto

text \<open>What the parser keeps of an entry is what the document says.\<close>

lemma parse_change_Inr:
  assumes "parse_change c = Inr i"
  shows "get_str c ''mode'' = Some (pi_mode i)" and "get_str c ''address'' = Some (pi_address i)"
    and "get_str c ''type'' = Some (pi_type i)" and "pi_mode i = ''managed'' \<or> pi_mode i = ''data''"
    and "change_member c ''actions'' = Some (JArray (map JString (pi_actions i)))"
    and "\<not> pi_deposed i \<longleftrightarrow> absent_or_null (get c ''deposed'') \<and> absent_or_null (change_member c ''deposed'')"
    and "pi_previous i = get_str c ''previous_address''"
    and "absent_or_null (get c ''importing'')" and "absent_or_null (change_member c ''importing'')"
proof -
  obtain cobj where c: "c = JObject cobj"
    using assms by (auto simp: parse_change_def and_then_Inr ok_or_Inr as_object_Some)
  obtain ch raw actions where ch: "map_of cobj ''change'' = Some (JObject ch)"
    and raw: "map_of ch ''actions'' = Some (JArray raw)"
    and actions: "collect (\<lambda>a. or_plan_err (as_str a) ''non-string action'') raw = Inr actions"
    and imp: "\<not> present cobj ''importing''" "\<not> present ch ''importing''"
    and i: "i = \<lparr>pi_module = str_in cobj ''module_address'', pi_mode = pi_mode i, pi_address = pi_address i,
               pi_type = pi_type i, pi_actions = actions,
               pi_deposed = (present cobj ''deposed'' \<or> present ch ''deposed''),
               pi_previous = str_in cobj ''previous_address''\<rparr>"
    and mode: "str_in cobj ''mode'' = Some (pi_mode i)" "pi_mode i = ''managed'' \<or> pi_mode i = ''data''"
    and fields: "str_in cobj ''address'' = Some (pi_address i)" "str_in cobj ''type'' = Some (pi_type i)"
    using assms
    by (auto simp: parse_change_def c and_then_Inr ok_or_Inr object_in_def array_in_def plan_err_def as_object_Some
        as_array_Some Option.bind_eq_Some_conv split: if_splits)
  have m: "change_member (JObject cobj) k = map_of ch k" for k
    using ch by (simp add: change_member_def)
  have a: "pi_actions i = actions" "pi_deposed i = (present cobj ''deposed'' \<or> present ch ''deposed'')"
      "pi_previous i = str_in cobj ''previous_address''"
    by (subst i, simp)+
  show "get_str c ''mode'' = Some (pi_mode i)" "get_str c ''address'' = Some (pi_address i)"
      "get_str c ''type'' = Some (pi_type i)"
    using mode(1) fields by (simp_all add: c get_str_def str_in_def)
  show "pi_mode i = ''managed'' \<or> pi_mode i = ''data''" by (rule mode(2))
  show "change_member c ''actions'' = Some (JArray (map JString (pi_actions i)))"
    using actions by (simp add: c m raw a(1) collect_strings)
  show "\<not> pi_deposed i \<longleftrightarrow> absent_or_null (get c ''deposed'') \<and> absent_or_null (change_member c ''deposed'')"
    by (auto simp: a(2) m c present_def absent_or_null_def split: option.splits)
  show "pi_previous i = get_str c ''previous_address''"
    by (simp add: a(3) c get_str_def str_in_def)
  show "absent_or_null (get c ''importing'')" "absent_or_null (change_member c ''importing'')"
    using imp by (auto simp: m c present_def absent_or_null_def split: option.splits)
qed

lemma parse_shape_Inr:
  assumes "parse_plan_shape doc = Inr plan"
  shows "map parse_change (plan_changes doc) = map Inr (pl_instances plan)"
    and "pl_prior plan = map_option collect_managed_addresses (document_root doc)"
  using assms
  by (auto simp: parse_plan_shape_def Let_def and_then_Inr ok_or_Inr plan_err_def as_object_Some collect_Inr
      plan_changes_def elements_def get_array_def array_in_def document_root_def prior_root_def split: if_splits)

text \<open>The parsed instances and the entries of the document, side by side.\<close>

lemma shape_instances:
  assumes "parse_plan_shape doc = Inr plan"
  shows "list_all2 (\<lambda>c i. parse_change c = Inr i) (plan_changes doc) (pl_instances plan)"
  using parse_shape_Inr(1) [OF assms]
  by (auto simp: list_all2_conv_all_nth dest: map_eq_imp_length_eq)
    (metis length_map nth_map)

lemma list_all2_ball:
  assumes "list_all2 R xs ys" and "\<And>x y. R x y \<Longrightarrow> P x \<longleftrightarrow> Q y"
  shows "(\<forall>x\<in>set xs. P x) \<longleftrightarrow> (\<forall>y\<in>set ys. Q y)"
  using assms by (induction rule: list_all2_induct) auto

lemma list_all2_filter_map:
  assumes "list_all2 R xs ys" and "\<And>x y. R x y \<Longrightarrow> P x \<longleftrightarrow> Q y" and "\<And>x y. R x y \<Longrightarrow> Q y \<Longrightarrow> f x = g y"
  shows "map f (filter P xs) = map g (filter Q ys)"
  using assms by (induction rule: list_all2_induct) auto

lemma managed_changeE:
  assumes "parse_change c = Inr i"
  shows "managed_change c \<longleftrightarrow> pi_mode i = ''managed''" and "\<not> managed_change c \<longleftrightarrow> pi_mode i = ''data''"
  using parse_change_Inr(1,4) [OF assms] by (auto simp: managed_change_def)

lemma plain_changeE:
  assumes "parse_change c = Inr i"
  shows "plain_change c a \<longleftrightarrow> pi_actions i = [a] \<and> \<not> pi_deposed i \<and> pi_previous i = None"
proof -
  have "map JString (pi_actions i) = [JString a] \<longleftrightarrow> pi_actions i = [a]"
    by (cases "pi_actions i") auto
  then show ?thesis
    using parse_change_Inr(5-7) [OF assms] by (auto simp: plain_change_def)
qed

lemma reads_onlyE:
  assumes "parse_change c = Inr i"
  shows "reads_only c \<longleftrightarrow> pi_actions i = [''read''] \<or> pi_actions i = [''no-op'']"
proof -
  have "map JString (pi_actions i) = [JString a] \<longleftrightarrow> pi_actions i = [a]" for a
    by (cases "pi_actions i") auto
  then show ?thesis
    using parse_change_Inr(5) [OF assms] by (auto simp: reads_only_def)
qed

section \<open>Admission, read off the document\<close>

lemma singleton_conv: "length xs = 1 \<and> xs ! 0 = a \<longleftrightarrow> xs = [a]"
  by (cases xs) auto

lemma count_role_map:
  assumes "distinct (map terraform_type shape)"
  shows "count_role t (map (\<lambda>r. (r, f (terraform_type r))) shape) =
    (if t \<in> set (map terraform_type shape)
     then Some (map (\<lambda>r. (r, (f(t := f t + 1)) (terraform_type r))) shape) else None)"
  using assms by (induction shape) (auto intro!: map_cong simp: image_iff)

definition counted :: "planned_instance list \<Rightarrow> string \<Rightarrow> nat" where
  "counted is t = length (filter (\<lambda>i. pi_mode i = ''managed'' \<and> pi_type i = t) is)"

definition create_instance :: "managed_role list \<Rightarrow> planned_instance \<Rightarrow> bool" where
  "create_instance shape i \<longleftrightarrow> pi_actions i = [''create''] \<and> \<not> pi_deposed i \<and> pi_previous i = None
     \<and> pi_type i \<in> set (map terraform_type shape)"

lemma admit_managed_instance_Inr:
  assumes "distinct (map terraform_type shape)"
  shows "admit_managed_instance [''create''] i (map (\<lambda>r. (r, f (terraform_type r))) shape) = Inr pr \<longleftrightarrow>
    (pi_mode i = ''managed'' \<longrightarrow> create_instance shape i) \<and>
    pr = map (\<lambda>r. (r, f (terraform_type r) + counted [i] (terraform_type r))) shape"
proof (cases "pi_mode i = ''managed''")
  case False
  then show ?thesis by (auto simp: admit_managed_instance_def counted_def)
next
  case True
  have "pi_actions i = [''create''] \<Longrightarrow>
      \<not> list_ex (\<lambda>a. a = ''import'' \<or> a = ''move'' \<or> a = ''forget'') (pi_actions i)"
    by simp
  then have "admit_managed_instance [''create''] i (map (\<lambda>r. (r, f (terraform_type r))) shape) = Inr pr \<longleftrightarrow>
      create_instance shape i
      \<and> pr = map (\<lambda>r. (r, (f(pi_type i := f (pi_type i) + 1)) (terraform_type r))) shape"
    using True singleton_conv [of "pi_actions i" "''create''"]
    by (auto simp: admit_managed_instance_def create_instance_def plan_err_def ok_or_Inr
        count_role_map [OF assms] simp del: map_map split: if_splits)
  also have "map (\<lambda>r. (r, (f(pi_type i := f (pi_type i) + 1)) (terraform_type r))) shape
      = map (\<lambda>r. (r, f (terraform_type r) + counted [i] (terraform_type r))) shape"
    using True by (auto simp: counted_def)
  finally show ?thesis using True by simp
qed

lemma admit_managed_from_Inr:
  assumes "distinct (map terraform_type shape)"
  shows "admit_managed_from [''create''] is (map (\<lambda>r. (r, f (terraform_type r))) shape) = Inr pr \<longleftrightarrow>
    (\<forall>i\<in>set is. pi_mode i = ''managed'' \<longrightarrow> create_instance shape i) \<and>
    pr = map (\<lambda>r. (r, f (terraform_type r) + counted is (terraform_type r))) shape"
proof (induction "is" arbitrary: f)
  case Nil
  then show ?case by (auto simp: counted_def)
next
  case (Cons i "is")
  have c: "counted (i # is) t = counted [i] t + counted is t" for t
    by (simp add: counted_def)
  show ?case
    using Cons.IH [of "\<lambda>t. f t + counted [i] t"]
    by (auto simp: and_then_Inr admit_managed_instance_Inr [OF assms] c add.assoc)
qed

lemma admit_managed_Inr:
  assumes "distinct (map terraform_type shape)"
  shows "admit_managed plan shape [''create''] = Inr () \<longleftrightarrow>
    (\<forall>i\<in>set (pl_instances plan). pi_mode i = ''managed'' \<longrightarrow> create_instance shape i) \<and>
    (\<forall>r\<in>set shape. counted (pl_instances plan) (terraform_type r) = exact_count r)"
  using admit_managed_from_Inr [OF assms, of "pl_instances plan" "\<lambda>_. 0"]
  by (auto simp: admit_managed_def and_then_Inr for_each_Inr plan_err_def split: if_splits)

lemma admit_data_Inr:
  "admit_data_resources plan = Inr () \<longleftrightarrow>
    (\<forall>i\<in>set (pl_instances plan). pi_mode i = ''data'' \<longrightarrow> pi_actions i = [''read''] \<or> pi_actions i = [''no-op''])"
proof -
  have "length as = 1 \<and> (as ! 0 = ''read'' \<or> as ! 0 = ''no-op'') \<longleftrightarrow> as = [''read''] \<or> as = [''no-op'']"
    for as :: "string list"
    using singleton_conv [of as] by blast
  then show ?thesis
    by (auto simp: admit_data_resources_def for_each_Inr plan_err_def)
qed

text \<open>A module of the prior state, at any depth.\<close>

inductive submodule :: "json \<Rightarrow> json \<Rightarrow> bool" where
  root: "submodule m m"
| child: "submodule m p \<Longrightarrow> c \<in> set (elements p ''child_modules'') \<Longrightarrow> submodule m c"

lemma submodule_below:
  "submodule c m \<Longrightarrow> c \<in> set (elements p ''child_modules'') \<Longrightarrow> submodule p m"
  by (induction rule: submodule.induct) (blast intro: submodule.intros)+

lemma submodule_cases_top:
  "submodule p m \<Longrightarrow> m = p \<or> (\<exists>c\<in>set (elements p ''child_modules''). submodule c m)"
  by (induction rule: submodule.induct) (blast intro: submodule.intros)+

definition managed_in :: "json \<Rightarrow> string \<Rightarrow> bool" where
  "managed_in root a \<longleftrightarrow> (\<exists>m r. submodule root m \<and> r \<in> set (elements m ''resources'') \<and> managed_address r = Some a)"

lemma collect_managed_set: "a \<in> set (collect_managed_addresses root) \<longleftrightarrow> managed_in root a"
proof (induction root rule: collect_managed_addresses.induct)
  case (1 module)
  show ?case
  proof
    assume "a \<in> set (collect_managed_addresses module)"
    then consider (here) r where "r \<in> set (elements module ''resources'')" "managed_address r = Some a"
      | (below) c where "c \<in> set (elements module ''child_modules'')" "managed_in c a"
      using 1 by (subst (asm) collect_managed_addresses.simps) (auto simp: set_map_filter)
    then show "managed_in module a"
    proof cases
      case here
      then show ?thesis unfolding managed_in_def by (blast intro: submodule.root)
    next
      case below
      then show ?thesis unfolding managed_in_def by (blast dest: submodule_below)
    qed
  next
    assume "managed_in module a"
    then obtain m r where m: "submodule module m" "r \<in> set (elements m ''resources'')" "managed_address r = Some a"
      unfolding managed_in_def by blast
    from submodule_cases_top [OF m(1)]
    show "a \<in> set (collect_managed_addresses module)"
    proof
      assume "m = module"
      with m show ?thesis
        by (subst collect_managed_addresses.simps) (auto simp: set_map_filter)
    next
      assume "\<exists>c\<in>set (elements module ''child_modules''). submodule c m"
      then obtain c where c: "c \<in> set (elements module ''child_modules'')" "submodule c m" by blast
      with m have "managed_in c a" unfolding managed_in_def by blast
      with c 1 show ?thesis
        by (subst collect_managed_addresses.simps) auto
    qed
  qed
qed

lemma equal_neighbours_sorted: "sorted xs \<Longrightarrow> equal_neighbours xs \<longleftrightarrow> \<not> distinct xs"
proof (induction xs rule: equal_neighbours.induct)
  case (1 x y rest)
  then show ?case
    by (cases "x = y") (auto dest: order.antisym)
qed auto

lemma admit_destroy_plan_Inr:
  "admit_destroy_plan plan addresses shape = Inr () \<longleftrightarrow>
    (\<forall>i\<in>set (pl_instances plan). pi_mode i = ''managed'' \<longrightarrow>
       pi_actions i = [''delete''] \<and> \<not> pi_deposed i \<and> pi_previous i = None
       \<and> pi_type i \<in> set (map terraform_type shape))
    \<and> admit_data_resources plan = Inr ()
    \<and> distinct (map pi_address (managed_instances plan))
    \<and> set (map pi_address (managed_instances plan)) \<subseteq> set addresses
    \<and> (\<forall>a\<in>set addresses. a \<in> set (map pi_address (managed_instances plan)) \<or> refreshed_away plan a)"
proof -
  have "length (pi_actions i) = 1 \<and> pi_actions i ! 0 = ''delete'' \<longleftrightarrow> pi_actions i = [''delete'']" for i
    by (rule singleton_conv)
  then have "admit_delete_instance shape i = Inr () \<longleftrightarrow> pi_actions i = [''delete''] \<and> \<not> pi_deposed i
      \<and> pi_previous i = None \<and> pi_type i \<in> set (map terraform_type shape)" for i
    by (auto simp: admit_delete_instance_def plan_err_def split: if_splits)
  moreover have "equal_neighbours (sort as) \<longleftrightarrow> \<not> distinct as" for as :: "string list"
    by (simp add: equal_neighbours_sorted)
  ultimately show ?thesis
    by (auto simp: admit_destroy_plan_def Let_def and_then_Inr for_each_Inr plan_err_def
        managed_instances_def split: if_splits)
qed

definition planned_addresses :: "json \<Rightarrow> string list" where
  "planned_addresses doc =
     List.map_filter (\<lambda>c. if managed_change c then get_str c ''address'' else None) (plan_changes doc)"

lemma planned_addresses_shape:
  assumes "parse_plan_shape doc = Inr plan"
  shows "planned_addresses doc = map pi_address (managed_instances plan)"
  using shape_instances [OF assms] unfolding planned_addresses_def managed_instances_def
proof (induction rule: list_all2_induct)
  case (Cons c cs i "is")
  then show ?case
    using managed_changeE(1) [of c i] parse_change_Inr(2) [of c i] by (auto simp: List.map_filter_simps)
qed (simp add: List.map_filter_simps)

lemma nonempty_iff: "xs \<noteq> [] \<longleftrightarrow> (\<exists>a. a \<in> set xs)"
  by (cases xs) auto

lemma prior_shape:
  assumes "parse_plan_shape doc = Inr plan"
  shows "(case pl_prior plan of None \<Rightarrow> False | Some managed \<Rightarrow> managed \<noteq> []) \<longleftrightarrow>
      (\<exists>root a. document_root doc = Some root \<and> managed_in root a)"
    and "refreshed_away plan a \<longleftrightarrow> (\<exists>root. document_root doc = Some root \<and> \<not> managed_in root a)"
proof -
  note prior = parse_shape_Inr(2) [OF assms]
  show "(case pl_prior plan of None \<Rightarrow> False | Some managed \<Rightarrow> managed \<noteq> []) \<longleftrightarrow>
      (\<exists>root a. document_root doc = Some root \<and> managed_in root a)"
    by (cases "document_root doc") (simp_all add: prior nonempty_iff collect_managed_set)
  show "refreshed_away plan a \<longleftrightarrow> (\<exists>root. document_root doc = Some root \<and> \<not> managed_in root a)"
    by (cases "document_root doc") (simp_all add: refreshed_away_def prior collect_managed_set)
qed

lemma changes_ball:
  assumes "parse_plan_shape doc = Inr plan"
    and "\<And>c i. parse_change c = Inr i \<Longrightarrow> pi_mode i = ''managed'' \<Longrightarrow> P c \<longleftrightarrow> P' i"
  shows "(\<forall>i\<in>set (pl_instances plan). pi_mode i = ''managed'' \<longrightarrow> P' i) \<and> admit_data_resources plan = Inr () \<longleftrightarrow>
    (\<forall>c\<in>set (plan_changes doc). if managed_change c then P c else reads_only c)"
proof -
  have "(\<forall>c\<in>set (plan_changes doc). if managed_change c then P c else reads_only c) \<longleftrightarrow>
      (\<forall>i\<in>set (pl_instances plan). if pi_mode i = ''managed'' then P' i
         else pi_actions i = [''read''] \<or> pi_actions i = [''no-op''])"
    by (rule list_all2_ball [OF shape_instances [OF assms(1)]])
      (auto simp: managed_changeE assms(2) reads_onlyE)
  moreover have "\<forall>i\<in>set (pl_instances plan). pi_mode i = ''managed'' \<or> pi_mode i = ''data''"
    using shape_instances [OF assms(1)]
    by (induction rule: list_all2_induct) (auto dest: parse_change_Inr(4))
  ultimately show ?thesis
    unfolding admit_data_Inr by fastforce
qed

lemma typed_count:
  assumes "parse_plan_shape doc = Inr plan"
  shows "counted (pl_instances plan) t =
    length (filter (\<lambda>c. managed_change c \<and> get_str c ''type'' = Some t) (plan_changes doc))"
  using shape_instances [OF assms]
proof (induction rule: list_all2_induct)
  case (Cons c cs i "is")
  then show ?case
    using managed_changeE(1) [of c i] parse_change_Inr(3) [of c i] by (auto simp: counted_def)
qed (simp add: counted_def)

section \<open>Properties\<close>


lemma destroy_admitted:
  assumes "parse_plan_shape doc = Inr plan"
  shows "admit_destroy_plan plan addresses shape = Inr () \<longleftrightarrow>
      (\<forall>c\<in>set (plan_changes doc).
         if managed_change c
         then plain_change c ''delete'' \<and> get_str c ''type'' \<in> Some ` terraform_type ` set shape
         else reads_only c)
    \<and> distinct (planned_addresses doc) \<and> set (planned_addresses doc) \<subseteq> set addresses
    \<and> (\<forall>a\<in>set addresses. a \<in> set (planned_addresses doc)
         \<or> (\<exists>root. document_root doc = Some root \<and> \<not> managed_in root a))"
proof -
  have "(\<forall>i\<in>set (pl_instances plan). pi_mode i = ''managed'' \<longrightarrow>
         pi_actions i = [''delete''] \<and> \<not> pi_deposed i \<and> pi_previous i = None
         \<and> pi_type i \<in> set (map terraform_type shape))
      \<and> admit_data_resources plan = Inr () \<longleftrightarrow>
    (\<forall>c\<in>set (plan_changes doc). if managed_change c
       then plain_change c ''delete'' \<and> get_str c ''type'' \<in> Some ` terraform_type ` set shape else reads_only c)"
    by (rule changes_ball [OF assms]) (auto simp: plain_changeE parse_change_Inr(3))
  then show ?thesis
    unfolding admit_destroy_plan_Inr prior_shape(2) [OF assms] planned_addresses_shape [OF assms] by blast
qed

lemma destroy_planned_bound:
  assumes "parse_plan_shape doc = Inr plan" and "admit_destroy_plan plan addresses shape = Inr ()"
  shows "set (planned_addresses doc) \<subseteq> set addresses"
  using assms(2) unfolding admit_destroy_plan_Inr planned_addresses_shape [OF assms(1)] by blast


lemma skipped_none [simp]: "\<not> skipped_deleted_resource check doc []"
  by (simp add: skipped_deleted_resource_def split: option.splits)

lemma skipped_deleted:
  assumes "skipped_deleted_resource check doc is"
  obtains address i where "get check ''address'' = Some address" "i \<in> set is" "pi_mode i = ''managed''"
    "get_str address ''to_display'' = Some (pi_address i)"
  using assms
  by (auto simp: skipped_deleted_resource_def find_Some_iff dest!: nth_mem split: if_splits option.splits)

lemma admit_check_Inr:
  assumes "admit_check doc deleted seen check = Inr seen'"
  shows "get_str check ''status'' = Some ''pass'' \<and> admit_passed_instances check = Inr ()
    \<or> get_str check ''status'' = Some ''unknown'' \<and> skipped_deleted_resource check doc deleted"
    and "empty_or_absent check ''problems''"
  using assms
  by (auto simp: admit_check_def and_then_Inr map_ok_Inr plan_err_def simp del: skipped_none split: if_splits)

lemma admit_check_list_Inr:
  assumes "admit_check_list doc deleted seen cs = Inr ()" and "check \<in> set cs"
  obtains seen1 seen2 where "admit_check doc deleted seen1 check = Inr seen2"
  using assms by (induction cs arbitrary: seen) (auto simp: and_then_Inr)

lemma admit_check_list_passed:
  assumes "\<forall>check\<in>set cs. get_str check ''status'' = Some ''pass''"
  shows "admit_check_list doc deleted seen cs = admit_check_list doc [] seen cs"
  using assms by (induction cs arbitrary: seen) (auto simp: admit_check_def and_then_def split: sum.splits)

lemma admit_checks_Inr:
  assumes "admit_checks doc deleted = Inr ()" and "check \<in> set (elements doc ''checks'')"
  obtains seen1 seen2 where "admit_check doc deleted seen1 check = Inr seen2"
  using assms
  by (auto simp: admit_checks_def and_then_Inr ok_or_Inr elements_def get_array_def split: option.splits
      elim: admit_check_list_Inr)

text \<open>In a plan admitted for Destroy every check passed with all of its instances, or is the unknown
  aggregate of a managed resource that this plan deletes from the bound state; and the strict parser
  of Create accepts the document exactly when none is unknown, so the leniency adds nothing else.\<close>

theorem destroy_checks_resolved:
  assumes "admit_destroy_plan_json doc addresses shape = Inr ()"
  shows "(\<forall>check\<in>set (elements doc ''checks''). empty_or_absent check ''problems'' \<and>
      (get_str check ''status'' = Some ''pass'' \<and> admit_passed_instances check = Inr ()
       \<or> get_str check ''status'' = Some ''unknown''
         \<and> (\<exists>a display. get check ''address'' = Some a \<and> get_str a ''to_display'' = Some display
              \<and> display \<in> set (planned_addresses doc) \<inter> set addresses)))
    \<and> (is_ok (parse_plan doc)
       \<longleftrightarrow> (\<forall>check\<in>set (elements doc ''checks''). get_str check ''status'' = Some ''pass''))"
proof -
  obtain plan where plan: "parse_plan_shape doc = Inr plan" "admit_destroy_plan plan addresses shape = Inr ()"
    and checks: "admit_checks doc (pl_instances plan) = Inr ()"
    using assms by (auto simp: admit_destroy_plan_json_def and_then_Inr)
  have sub: "set (planned_addresses doc) \<subseteq> set addresses"
    using plan by (rule destroy_planned_bound)
  have addr: "pi_address i \<in> set (planned_addresses doc)" if "i \<in> set (pl_instances plan)" "pi_mode i = ''managed''" for i
    using that by (simp add: planned_addresses_shape [OF plan(1)] managed_instances_def)
  show ?thesis
  proof (intro conjI ballI)
    fix check assume "check \<in> set (elements doc ''checks'')"
    with checks obtain seen1 seen2 where c: "admit_check doc (pl_instances plan) seen1 check = Inr seen2"
      by (rule admit_checks_Inr)
    show "empty_or_absent check ''problems''" by (rule admit_check_Inr(2) [OF c])
    show "get_str check ''status'' = Some ''pass'' \<and> admit_passed_instances check = Inr ()
       \<or> get_str check ''status'' = Some ''unknown''
         \<and> (\<exists>a display. get check ''address'' = Some a \<and> get_str a ''to_display'' = Some display
              \<and> display \<in> set (planned_addresses doc) \<inter> set addresses)"
      using admit_check_Inr(1) [OF c] by (auto elim!: skipped_deleted dest!: addr simp: subsetD [OF sub])
  next
    show "is_ok (parse_plan doc)
       \<longleftrightarrow> (\<forall>check\<in>set (elements doc ''checks''). get_str check ''status'' = Some ''pass'')" (is "?ok \<longleftrightarrow> ?pass")
    proof
      assume ?ok
      then have strict: "admit_checks doc [] = Inr ()"
        by (auto simp: parse_plan_def plan(1) is_ok_def and_then_def split: sum.splits)
      show ?pass
      proof
        fix check assume "check \<in> set (elements doc ''checks'')"
        with strict obtain seen1 seen2 where "admit_check doc [] seen1 check = Inr seen2"
          by (rule admit_checks_Inr)
        from admit_check_Inr(1) [OF this] show "get_str check ''status'' = Some ''pass''" by simp
      qed
    next
      assume pass: ?pass
      have "admit_checks doc [] = Inr ()"
        using checks pass
        by (auto simp: admit_checks_def and_then_Inr ok_or_Inr elements_def get_array_def as_array_Some
            admit_check_list_passed [of _ doc "pl_instances plan"] split: option.splits)
      then show ?ok
        by (simp add: parse_plan_def plan(1) is_ok_def and_then_def)
    qed
  qed
qed

section \<open>Witnesses\<close>

definition sample_change :: "string \<Rightarrow> json" where
  "sample_change action = JObject
     [(''address'', JString ''docker_container.runner''), (''mode'', JString ''managed''),
      (''type'', JString ''docker_container''), (''name'', JString ''runner''),
      (''change'', JObject [(''actions'', JArray [JString action]),
         (''before'', JObject [(''name'', JString ''runner-1'')]), (''importing'', JNull)])]"

definition sample_plan_doc :: "string \<Rightarrow> json list \<Rightarrow> json list \<Rightarrow> json" where
  "sample_plan_doc action resources checks = JObject
     [(''format_version'', JString ''1.2''), (''applyable'', JBool True), (''complete'', JBool True),
      (''errored'', JBool False), (''resource_changes'', JArray [sample_change action]),
      (''prior_state'', JObject [(''values'', JObject [(''root_module'', JObject
         [(''resources'', JArray []), (''child_modules'', JArray [JObject [(''resources'', JArray resources)]])])])]),
      (''checks'', JArray checks)]"

definition sample_resource :: json where
  "sample_resource = JObject [(''mode'', JString ''managed''), (''address'', JString ''docker_container.runner'')]"

definition sample_check :: json where
  "sample_check = JObject [(''status'', JString ''unknown''), (''address'', JObject
     [(''kind'', JString ''resource''), (''mode'', JString ''managed''), (''type'', JString ''docker_container''),
      (''name'', JString ''runner''), (''to_display'', JString ''docker_container.runner'')])]"

definition sample_shape :: "managed_role list" where
  "sample_shape = [\<lparr>role_name = ''runner'', terraform_type = ''docker_container'', exact_count = 1\<rparr>]"

definition sample_plan :: "json \<Rightarrow> parsed_plan" where
  "sample_plan doc = (case parse_plan_shape doc of
     Inr p \<Rightarrow> p | Inl _ \<Rightarrow> \<lparr>pl_format = 0, pl_terraform = None, pl_instances = [], pl_prior = None\<rparr>)"

lemmas [code] = collect_managed_addresses.simps



lemma destroy_checks_resolved_witness:
  "admit_destroy_plan_json (sample_plan_doc ''delete'' [sample_resource] [sample_check])
     [''docker_container.runner''] sample_shape = Inr ()
   \<and> \<not> is_ok (parse_plan (sample_plan_doc ''delete'' [sample_resource] [sample_check]))"
proof -
  let ?doc = "sample_plan_doc ''delete'' [sample_resource] [sample_check]"
  have a: "admit_destroy_plan_json ?doc [''docker_container.runner''] sample_shape = Inr ()" by code_simp
  have c: "elements ?doc ''checks'' = [sample_check]" and s: "get_str sample_check ''status'' = Some ''unknown''"
    by (simp_all add: elements_def get_array_def get_str_def sample_plan_doc_def sample_check_def)
  from destroy_checks_resolved [OF a] a show ?thesis by (auto simp: c s)
qed

end
