(* ===== verification/Raw_State.thy ===== *)
theory Raw_State
  imports Json Reasons "HOL-Library.List_Lexorder" "HOL-Library.Char_ord" "HOL-Library.Code_Target_Nat"
begin

text \<open>
  The raw Terraform state (format 4) read by \<open>terraform state pull\<close>: \<open>engine_state.rs\<close> of
  \<open>shaula-template\<close>.  It yields the addresses a Destroy is bound to, so every malformed part is an error
  and none is read as an empty state.
\<close>

section \<open>The parser\<close>

record pulled_state =
  ps_managed :: "string list"
  ps_names :: "(string \<times> string) list"
  ps_serial :: nat
  ps_lineage :: string

definition exec_failure :: "string \<Rightarrow> core_error" where
  "exec_failure s = core_error_new TemplateExecutionFailed s"

text \<open>
  One instance suffix after its opening bracket, copied to the prefix up to its closing bracket; quotes
  and backslash escapes inside are data.
\<close>

fun consume_instance_suffix :: "bool \<Rightarrow> bool \<Rightarrow> string \<Rightarrow> string \<Rightarrow> (string \<times> string) core_result" where
  "consume_instance_suffix in_quote escaped [] prefix0 =
     Inl (exec_failure ''state module path has an unterminated instance suffix'')"
| "consume_instance_suffix in_quote escaped (ch # cs) prefix0 =
     (if escaped then consume_instance_suffix in_quote False cs (prefix0 @ [ch])
      else if ch = CHR 0x5C \<and> in_quote then consume_instance_suffix in_quote True cs (prefix0 @ [ch])
      else if ch = CHR 0x22 then consume_instance_suffix (\<not> in_quote) False cs (prefix0 @ [ch])
      else if ch = CHR '']'' \<and> \<not> in_quote then Inr (prefix0 @ [ch], cs)
      else consume_instance_suffix in_quote False cs (prefix0 @ [ch]))"

lemma consume_instance_suffix_Inr:
  "consume_instance_suffix q e rest p = Inr (p', rest') \<Longrightarrow> \<exists>s. rest = s @ rest' \<and> p' = p @ s \<and> s \<noteq> []"
  by (induction q e rest p rule: consume_instance_suffix.induct) (fastforce split: if_splits)+

definition name_char :: "char \<Rightarrow> bool" where
  "name_char c \<longleftrightarrow> c \<noteq> CHR ''.'' \<and> c \<noteq> CHR ''[''"

text \<open>One element of a module chain, with its optional instance suffix: the copied prefix and the rest.\<close>

definition module_element :: "string \<Rightarrow> string \<Rightarrow> (string \<times> string) core_result" where
  "module_element prefix0 rest =
     (case strip_prefix ''module.'' rest of
        None \<Rightarrow> Inl (exec_failure ''state module path is malformed'')
      | Some after \<Rightarrow>
          let name = takeWhile name_char after; remainder = dropWhile name_char after;
              named = prefix0 @ ''module.'' @ name in
          if name = [] then Inl (exec_failure ''state module path has an empty module name'')
          else case strip_prefix ''['' remainder of
                 Some sfx \<Rightarrow> consume_instance_suffix False False sfx (named @ ''['')
               | None \<Rightarrow> Inr (named, remainder))"

lemma strip_prefix_Some: "strip_prefix p s = Some r \<longleftrightarrow> s = p @ r"
  by (auto simp: strip_prefix_def prefix_def)

lemma module_element_Inr:
  assumes "module_element p rest = Inr (p', rest')"
  shows "\<exists>s. rest = s @ rest' \<and> p' = p @ s \<and> s \<noteq> []"
proof -
  obtain after where rest: "rest = ''module.'' @ after"
    and r: "(case strip_prefix ''['' (dropWhile name_char after) of
        Some sfx \<Rightarrow> consume_instance_suffix False False sfx ((p @ ''module.'' @ takeWhile name_char after) @ ''['')
      | None \<Rightarrow> Inr (p @ ''module.'' @ takeWhile name_char after, dropWhile name_char after)) = Inr (p', rest')"
    using assms unfolding module_element_def Let_def
    by (auto simp only: strip_prefix_Some if_error_Inr case_option_Inr)
  have after: "after = takeWhile name_char after @ dropWhile name_char after" by simp
  show ?thesis
  proof (cases "strip_prefix ''['' (dropWhile name_char after)")
    case None
    with r rest show ?thesis by (intro exI [of _ "''module.'' @ takeWhile name_char after"]) auto
  next
    case (Some sfx)
    then have drop: "dropWhile name_char after = ''['' @ sfx" by (simp add: strip_prefix_Some)
    from r Some obtain s where s: "sfx = s @ rest'" "p' = ((p @ ''module.'' @ takeWhile name_char after) @ ''['') @ s"
      using consume_instance_suffix_Inr by fastforce
    have "rest = (''module.'' @ takeWhile name_char after @ ''['' @ s) @ rest'"
      unfolding rest by (subst after, unfold drop s(1)) simp
    with s(2) show ?thesis by (intro exI [of _ "''module.'' @ takeWhile name_char after @ ''['' @ s"]) simp
  qed
qed

function module_prefix_from :: "string \<Rightarrow> string \<Rightarrow> string core_result" where
  "module_prefix_from prefix0 rest =
     (case module_element prefix0 rest of
        Inl e \<Rightarrow> Inl e
      | Inr (extended, remainder) \<Rightarrow>
          (case strip_prefix ''.'' remainder of
             None \<Rightarrow> if remainder = [] then Inr (extended @ ''.'')
                     else Inl (exec_failure ''state module path is malformed'')
           | Some next0 \<Rightarrow> module_prefix_from (extended @ ''.'') next0))"
  by pat_completeness auto

termination
  by (relation "measure (length \<circ> snd)") (auto simp: strip_prefix_Some dest: module_element_Inr)

declare module_prefix_from.simps [simp del]

definition validated_module_prefix :: "string option \<Rightarrow> string core_result" where
  "validated_module_prefix module =
     (case module of
        None \<Rightarrow> Inr []
      | Some m \<Rightarrow> if m = [] then Inl (exec_failure ''state module path is empty'') else module_prefix_from [] m)"

text \<open>
  The \<open>{:?}\<close> of a string: quoted, with the escapes of the standard library for ASCII; characters beyond
  ASCII are taken as printable.
\<close>

definition hex_digit :: "nat \<Rightarrow> char" where
  "hex_digit n = char_of (if n < 10 then 48 + n else 87 + n)"

definition debug_char :: "char \<Rightarrow> string" where
  "debug_char c =
     (if c = CHR 0x22 \<or> c = CHR 0x5C then [CHR 0x5C, c]
      else if byte c = 0 then [CHR 0x5C, CHR ''0'']
      else if byte c = 9 then [CHR 0x5C, CHR ''t'']
      else if byte c = 10 then [CHR 0x5C, CHR ''n'']
      else if byte c = 13 then [CHR 0x5C, CHR ''r'']
      else if byte c < 16 then CHR 0x5C # ''u{'' @ [hex_digit (byte c), CHR ''}'']
      else if byte c < 32 \<or> byte c = 127
      then CHR 0x5C # ''u{'' @ [hex_digit (byte c div 16), hex_digit (byte c mod 16), CHR ''}'']
      else [c])"

definition debug_string :: "string \<Rightarrow> string" where
  "debug_string s = CHR 0x22 # concat (map debug_char s) @ [CHR 0x22]"

definition instance_address :: "string \<Rightarrow> json_object \<Rightarrow> string core_result" where
  "instance_address base0 inst =
     (case map_of inst ''index_key'' of
        None \<Rightarrow> Inr base0
      | Some (JNumber n) \<Rightarrow> Inr (base0 @ ''['' @ n @ '']'')
      | Some (JString key) \<Rightarrow> Inr (base0 @ ''['' @ debug_string key @ '']'')
      | Some _ \<Rightarrow> Inl (exec_failure ''state instance index_key malformed''))"

definition recorded_name :: "json_object \<Rightarrow> string option" where
  "recorded_name inst =
     Option.bind (map_of inst ''attributes'') (\<lambda>a. Option.bind (get_str a ''name'') (\<lambda>n. if n = [] then None else Some n))"

text \<open>The instances of one resource: their addresses, and the names recorded with them.\<close>

definition parse_instance :: "string \<Rightarrow> json \<Rightarrow> (string \<times> string option) core_result" where
  "parse_instance base0 v =
     and_then (ok_or (exec_failure ''state instance malformed'') (as_object v)) (\<lambda>inst.
     map_ok (\<lambda>address. (address, recorded_name inst)) (instance_address base0 inst))"

definition or_empty :: "string option \<Rightarrow> string" where
  "or_empty s = (case s of None \<Rightarrow> [] | Some t \<Rightarrow> t)"

definition parse_resource :: "json \<Rightarrow> (string \<times> string option) list core_result" where
  "parse_resource v =
     and_then (ok_or (exec_failure ''state resource malformed'') (as_object v)) (\<lambda>obj.
     and_then (ok_or (exec_failure ''state resource mode missing'') (get_str (JObject obj) ''mode'')) (\<lambda>mode.
     if mode \<noteq> ''managed'' \<and> mode \<noteq> ''data'' then Inl (exec_failure ''unknown state resource mode'') else
     let resource_type = or_empty (get_str (JObject obj) ''type''); name = or_empty (get_str (JObject obj) ''name'') in
     if resource_type = [] \<or> name = [] then Inl (exec_failure ''state resource type/name missing'') else
     and_then (validated_module_prefix (get_str (JObject obj) ''module'')) (\<lambda>module_prefix.
     let base0 = module_prefix @ resource_type @ ''.'' @ name in
     and_then (ok_or (exec_failure ''state instances malformed'') (get_array (JObject obj) ''instances'')) (\<lambda>instances.
     if mode = ''managed'' then collect (parse_instance base0) instances else Inr []))))"

definition collect_resource_array :: "json \<Rightarrow> (string \<times> string option) list core_result" where
  "collect_resource_array v =
     and_then (ok_or (exec_failure ''state resources malformed'') (as_array v)) (\<lambda>rs.
     map_ok concat (collect parse_resource rs))"

definition parse_raw_state_v4 :: "json \<Rightarrow> pulled_state core_result" where
  "parse_raw_state_v4 state =
     and_then (ok_or (exec_failure ''state is not an object'') (as_object state)) (\<lambda>obj.
     and_then (ok_or (exec_failure ''state format version missing'') (Option.bind (map_of obj ''version'') as_u64)) (\<lambda>version.
     if version \<noteq> 4 then Inl (exec_failure ''unsupported state format version'') else
     and_then (ok_or (exec_failure ''state serial missing'') (Option.bind (map_of obj ''serial'') as_u64)) (\<lambda>serial.
     and_then (ok_or (exec_failure ''state lineage missing or empty; identity cannot be proven'')
        (Option.bind (get_str (JObject obj) ''lineage'') (\<lambda>l. if l = [] then None else Some l))) (\<lambda>lineage.
     and_then (case map_of obj ''resources'' of None \<Rightarrow> Inr [] | Some v \<Rightarrow> collect_resource_array v) (\<lambda>found.
     Inr \<lparr>ps_managed = remdups_adj (sort (map fst found)),
          ps_names = List.map_filter (\<lambda>(a, n). map_option (Pair a) n) found,
          ps_serial = serial, ps_lineage = lineage\<rparr>)))))"

section \<open>What a parsed state lists\<close>

text \<open>The document read directly: its live managed instances and their addresses.\<close>

definition resource_base :: "json \<Rightarrow> string" where
  "resource_base r = (case get_str r ''module'' of None \<Rightarrow> [] | Some m \<Rightarrow> m @ ''.'')
     @ or_empty (get_str r ''type'') @ ''.'' @ or_empty (get_str r ''name'')"

definition index_suffix :: "json \<Rightarrow> string" where
  "index_suffix i = (case get i ''index_key'' of
       Some (JNumber n) \<Rightarrow> ''['' @ n @ '']''
     | Some (JString key) \<Rightarrow> ''['' @ debug_string key @ '']''
     | _ \<Rightarrow> [])"

definition live_address :: "json \<times> json \<Rightarrow> string" where
  "live_address ri = resource_base (fst ri) @ index_suffix (snd ri)"

definition members :: "json \<Rightarrow> string \<Rightarrow> json list" where
  "members v k = (case get_array v k of None \<Rightarrow> [] | Some vs \<Rightarrow> vs)"

definition live_instances :: "json \<Rightarrow> (json \<times> json) list" where
  "live_instances state =
     concat (map (\<lambda>r. if get_str r ''mode'' = Some ''managed'' then map (Pair r) (members r ''instances'') else [])
       (members state ''resources''))"

definition live_name :: "json \<Rightarrow> string option" where
  "live_name i = Option.bind (get i ''attributes'') (\<lambda>a. Option.bind (get_str a ''name'') (\<lambda>n. if n = [] then None else Some n))"

lemma module_prefix_from_Inr: "module_prefix_from p rest = Inr p' \<Longrightarrow> p' = p @ rest @ ''.''"
proof (induction p rest rule: module_prefix_from.induct)
  case (1 p rest)
  from "1.prems" obtain e r where e: "module_element p rest = Inr (e, r)"
    by (subst (asm) module_prefix_from.simps) (auto split: sum.splits)
  from module_element_Inr [OF this] obtain s where s: "rest = s @ r" "e = p @ s" by blast
  show ?case
  proof (cases "strip_prefix ''.'' r")
    case None
    with "1.prems" e s show ?thesis
      by (subst (asm) module_prefix_from.simps) (auto split: if_splits)
  next
    case (Some next0)
    with "1.prems" e have "module_prefix_from (e @ ''.'') next0 = Inr p'"
      by (subst (asm) module_prefix_from.simps) auto
    from "1.IH" [OF e refl Some this] s Some show ?thesis
      by (simp add: strip_prefix_Some)
  qed
qed

text \<open>A module path is kept as it is, or refused.\<close>

lemma validated_module_prefix_Inr:
  "validated_module_prefix m = Inr p \<Longrightarrow> p = (case m of None \<Rightarrow> [] | Some path \<Rightarrow> path @ ''.'')"
  by (auto simp: validated_module_prefix_def split: option.splits if_splits dest: module_prefix_from_Inr)

lemma parse_instance_Inr:
  assumes "parse_instance base0 i = Inr x"
  shows "x = (base0 @ index_suffix i, live_name i)"
  using assms
  by (cases i)
    (auto simp: parse_instance_def and_then_Inr map_ok_Inr instance_address_def index_suffix_def recorded_name_def
      live_name_def ok_or_Inr split: option.splits json.splits)

lemma parse_resource_Inr:
  assumes "parse_resource r = Inr xs"
  shows "xs = map (\<lambda>i. (live_address (r, i), live_name i))
    (if get_str r ''mode'' = Some ''managed'' then members r ''instances'' else [])"
proof -
  obtain obj where r: "r = JObject obj"
    using assms by (cases r) (auto simp: parse_resource_def and_then_Inr ok_or_Inr)
  obtain mode module_prefix instances where mode: "get_str r ''mode'' = Some mode"
    and m: "validated_module_prefix (get_str r ''module'') = Inr module_prefix"
    and i: "get_array r ''instances'' = Some instances"
    and xs: "(if mode = ''managed'' then collect (parse_instance (module_prefix @ or_empty (get_str r ''type'')
        @ ''.'' @ or_empty (get_str r ''name''))) instances else Inr []) = Inr xs"
    using assms unfolding r parse_resource_def and_then_Inr ok_or_Inr Let_def if_error_Inr as_object.simps by blast
  have base: "module_prefix @ or_empty (get_str r ''type'') @ ''.'' @ or_empty (get_str r ''name'') = resource_base r"
    using validated_module_prefix_Inr [OF m] by (simp add: resource_base_def)
  show ?thesis
  proof (cases "mode = ''managed''")
    case True
    have "map (parse_instance (resource_base r)) instances = map Inr xs"
      using xs True unfolding base by (simp add: collect_Inr)
    then have "xs = map (\<lambda>i. (live_address (r, i), live_name i)) instances"
      by (auto simp: list_eq_iff_nth_eq live_address_def dest!: parse_instance_Inr)
    with True mode i show ?thesis by (simp add: members_def)
  qed (use xs mode in simp)
qed

lemma parse_resources_Inr:
  assumes "collect parse_resource rs = Inr xss"
  shows "concat xss = map (\<lambda>ri. (live_address ri, live_name (snd ri)))
    (concat (map (\<lambda>r. if get_str r ''mode'' = Some ''managed'' then map (Pair r) (members r ''instances'') else []) rs))"
  using assms
proof (induction rs arbitrary: xss)
  case (Cons r rs)
  then obtain xs xss' where "parse_resource r = Inr xs" "collect parse_resource rs = Inr xss'" "xss = xs # xss'"
    by (auto split: sum.splits)
  with Cons.IH [of xss'] parse_resource_Inr [of r xs] show ?case by auto
qed simp

lemma sorted_remdups_adj_distinct: "sorted xs \<Longrightarrow> distinct (remdups_adj xs)"
  for xs :: "'a::linorder list"
  by (induction xs rule: remdups_adj.induct) (auto simp: order.order_iff_strict)

lemma raw_state_content:
  assumes "parse_raw_state_v4 state = Inr s"
  shows "sorted (ps_managed s)" and "distinct (ps_managed s)"
    and "set (ps_managed s) = live_address ` set (live_instances state)"
    and "ps_managed s = [] \<longleftrightarrow> live_instances state = []"
    and "set (ps_names s) = {(live_address (r, i), n) | r i n. (r, i) \<in> set (live_instances state) \<and> live_name i = Some n}"
    and "ps_lineage s \<noteq> []" and "get_str state ''lineage'' = Some (ps_lineage s)"
proof -
  obtain obj where state: "state = JObject obj"
    using assms by (cases state) (auto simp: parse_raw_state_v4_def and_then_Inr ok_or_Inr)
  obtain found where s: "ps_managed s = remdups_adj (sort (map fst found))"
      "ps_names s = List.map_filter (\<lambda>(a, n). map_option (Pair a) n) found"
    and lineage: "ps_lineage s \<noteq> []" "get_str state ''lineage'' = Some (ps_lineage s)"
    and found: "(case map_of obj ''resources'' of None \<Rightarrow> Inr [] | Some v \<Rightarrow> collect_resource_array v) = Inr found"
    using assms unfolding state
    by (auto simp: parse_raw_state_v4_def and_then_Inr ok_or_Inr Option.bind_eq_Some_conv split: if_splits)
  have found: "found = map (\<lambda>ri. (live_address ri, live_name (snd ri))) (live_instances state)"
  proof (cases "map_of obj ''resources''")
    case None
    with found show ?thesis by (simp add: live_instances_def members_def get_array_def state)
  next
    case (Some v)
    with found obtain rs xss where v: "v = JArray rs" and xss: "collect parse_resource rs = Inr xss" "found = concat xss"
      by (cases v) (auto simp: collect_resource_array_def and_then_Inr map_ok_Inr ok_or_Inr)
    with parse_resources_Inr [OF xss(1)] Some show ?thesis
      by (simp add: live_instances_def members_def get_array_def state)
  qed
  show addresses: "set (ps_managed s) = live_address ` set (live_instances state)"
    by (auto simp: s found image_iff)
  from this show "ps_managed s = [] \<longleftrightarrow> live_instances state = []"
    by (metis image_is_empty set_empty)
  show "set (ps_names s) = {(live_address (r, i), n) | r i n. (r, i) \<in> set (live_instances state) \<and> live_name i = Some n}"
  proof (intro set_eqI iffI)
    fix y assume "y \<in> set (ps_names s)"
    then obtain ri where ri: "ri \<in> set (live_instances state)" "map_option (Pair (live_address ri)) (live_name (snd ri)) = Some y"
      unfolding s(2) set_map_filter found by auto
    moreover obtain r i where "ri = (r, i)" by (cases ri)
    ultimately show "y \<in> {(live_address (r, i), n) | r i n. (r, i) \<in> set (live_instances state) \<and> live_name i = Some n}"
      by auto
  next
    fix y assume "y \<in> {(live_address (r, i), n) | r i n. (r, i) \<in> set (live_instances state) \<and> live_name i = Some n}"
    then obtain r i n where "(r, i) \<in> set (live_instances state)" "live_name i = Some n" "y = (live_address (r, i), n)"
      by blast
    then show "y \<in> set (ps_names s)"
      unfolding s(2) set_map_filter found by (auto intro!: bexI [of _ "(r, i)"])
  qed
  show "sorted (ps_managed s)" "distinct (ps_managed s)"
    by (simp_all add: s sorted_remdups_adj_distinct)
  show "ps_lineage s \<noteq> []" "get_str state ''lineage'' = Some (ps_lineage s)" by fact+
qed

text \<open>C29. A parsed raw state is exact: its managed addresses are, sorted and without duplicates, those of
  all instances the document holds of managed resources, in whatever module; it is empty only when
  there is no such instance; and the recorded names are the names of those instances.\<close>

theorem raw_state_exact:
  assumes "parse_raw_state_v4 state = Inr s"
  shows "sorted (ps_managed s) \<and> distinct (ps_managed s)
    \<and> set (ps_managed s) = live_address ` set (live_instances state)
    \<and> (ps_managed s = [] \<longleftrightarrow> live_instances state = [])
    \<and> set (ps_names s) = {(live_address (r, i), n) | r i n. (r, i) \<in> set (live_instances state) \<and> live_name i = Some n}
    \<and> ps_lineage s \<noteq> [] \<and> get_str state ''lineage'' = Some (ps_lineage s)"
  using raw_state_content [OF assms] by blast

section \<open>Witness\<close>

definition sample_state :: json where
  "sample_state = JObject [(''version'', JNumber ''4''), (''serial'', JNumber ''7''), (''lineage'', JString ''l-1''),
     (''resources'', JArray
       [JObject [(''mode'', JString ''data''), (''type'', JString ''docker_image''), (''name'', JString ''base''),
          (''instances'', JArray [JObject []])],
        JObject [(''module'', JString (''module.runners['' @ [CHR 0x22] @ ''east.us'' @ [CHR 0x22] @ '']'')),
          (''mode'', JString ''managed''), (''type'', JString ''docker_container''), (''name'', JString ''runner''),
          (''instances'', JArray [JObject [(''index_key'', JNumber ''0''),
             (''attributes'', JObject [(''name'', JString ''runner-1'')])]])]])]"

definition sample_pulled :: pulled_state where
  "sample_pulled = (let a = ''module.runners['' @ [CHR 0x22] @ ''east.us'' @ [CHR 0x22] @ ''].docker_container.runner[0]'' in
     \<lparr>ps_managed = [a], ps_names = [(a, ''runner-1'')], ps_serial = 7, ps_lineage = ''l-1''\<rparr>)"

lemma raw_state_exact_witness:
  "parse_raw_state_v4 sample_state = Inr sample_pulled \<and> live_instances sample_state \<noteq> []"
proof -
  have p: "parse_raw_state_v4 sample_state = Inr sample_pulled" by code_simp
  from raw_state_exact [OF p] show ?thesis by (auto simp: p sample_pulled_def Let_def)
qed

end
