(* ===== verification/Sample_External.thy ===== *)
theory Sample_External
  imports State_Backend "HOL-Library.Code_Target_Nat"
begin

text \<open>
  The laws the ledger needs of the functions of other crates (\<open>codec_ok\<close>: digests have 32 bytes, a
  printed UUID parses to itself, what is written is read back, and a fresh state document is an empty document of serial zero), and one concrete instance
  of \<open>external\<close> that satisfies them, on which the witnesses of the development are evaluated.
  Nothing here models a file of the program.
\<close>

definition fresh_header :: "string \<Rightarrow> state_header" where
  "fresh_header lineage =
     \<lparr>hdr_version = 4, hdr_lineage = lineage, hdr_serial = 0, hdr_resources = [], hdr_outputs = []\<rparr>"

definition codec_ok :: "external \<Rightarrow> bool" where
  "codec_ok E \<longleftrightarrow>
     (\<forall>s. length (sha256 E s) = 32) \<and>
     (\<forall>s u. parse_uuid E s = Some u \<longrightarrow> parse_uuid E u = Some u) \<and>
     (\<forall>w. decode_lock E (encode_lock E w) = Some w) \<and>
     (\<forall>p. decode_process E (encode_process E p) = Some p) \<and>
     (\<forall>r. decode_receipt E (encode_receipt E r) = Some r) \<and>
     (\<forall>l n. decode_create_identity E (encode_create_identity E l (int n)) = Some (l, n)) \<and>
     (\<forall>l. length l \<le> 256 \<longrightarrow> decode_header E (fresh_state E l) = Some (fresh_header l)
            \<and> length (fresh_state E l) \<le> max_state_bytes)"

lemma codec_okD:
  assumes "codec_ok E"
  shows "length (sha256 E s) = 32" "parse_uuid E t = Some u \<Longrightarrow> parse_uuid E u = Some u" "decode_lock E (encode_lock E w) = Some w" "decode_process E (encode_process E p) = Some p"
    "decode_receipt E (encode_receipt E r) = Some r"
    "decode_create_identity E (encode_create_identity E l (int n)) = Some (l, n)"
    "length l \<le> 256 \<Longrightarrow> decode_header E (fresh_state E l) = Some (fresh_header l)"
    "length l \<le> 256 \<Longrightarrow> length (fresh_state E l) \<le> max_state_bytes"
  using assms by (auto simp: codec_ok_def)

lemma fresh_state_parse:
  assumes "codec_ok E" and "bounded_text l"
  shows "state_document_parse E (fresh_state E l) = Inr
    \<lparr>doc_bytes = fresh_state E l, doc_lineage = l, doc_serial = 0, doc_managed_empty = True,
     doc_managed_counts = []\<rparr>"
  using assms codec_okD(7,8) [OF assms(1), of l]
  by (simp add: state_document_parse_def bounded_text_def ok_or_def fresh_header_def managed_empty_def
      managed_counts_def tally_def)

section \<open>A concrete instance\<close>

text \<open>Fields are written character by character behind an \<open>a\<close> and end with a \<open>b\<close>.\<close>

definition enc_field :: "string \<Rightarrow> string" where
  "enc_field s = concat (map (\<lambda>c. [CHR ''a'', c]) s) @ ''b''"

definition enc_fields :: "string list \<Rightarrow> string" where
  "enc_fields fs = concat (map enc_field fs)"

fun dec_fields :: "string \<Rightarrow> string \<Rightarrow> string list" where
  "dec_fields acc [] = []"
| "dec_fields acc [x] = (if x = CHR ''b'' then [rev acc] else [])"
| "dec_fields acc (x # c # t) =
     (if x = CHR ''b'' then rev acc # dec_fields [] (c # t) else dec_fields (c # acc) t)"

lemma dec_fields_end: "dec_fields acc (CHR ''b'' # t) = rev acc # dec_fields [] t"
  by (cases t) simp_all

lemma dec_enc_field: "dec_fields acc (enc_field s @ t) = (rev acc @ s) # dec_fields [] t"
  by (induction s arbitrary: acc) (simp_all add: enc_field_def dec_fields_end)

lemma dec_enc_fields: "dec_fields [] (enc_fields fs) = fs"
  by (induction fs) (simp_all add: enc_fields_def dec_enc_field)

definition enc_int :: "int \<Rightarrow> string" where
  "enc_int i = (if i < 0 then CHR ''-'' else CHR ''+'') # replicate (nat \<bar>i\<bar>) CHR ''x''"

definition dec_int :: "string \<Rightarrow> int" where
  "dec_int s = (if hd s = CHR ''-'' then - int (length (tl s)) else int (length (tl s)))"

lemma dec_enc_int: "dec_int (enc_int i) = i"
  by (simp add: dec_int_def enc_int_def)

definition sample_encode_lock :: "wire_lock \<Rightarrow> string" where
  "sample_encode_lock w = enc_fields [lock_wire_id w, lock_operation w, lock_info_text w, lock_who w,
     lock_version w, lock_created w, lock_path w]"

definition sample_decode_lock :: "string \<Rightarrow> wire_lock option" where
  "sample_decode_lock s = (case dec_fields [] s of
     [i, o1, f, w, v, c, p] \<Rightarrow> Some \<lparr>lock_wire_id = i, lock_operation = o1, lock_info_text = f,
       lock_who = w, lock_version = v, lock_created = c, lock_path = p\<rparr>
   | _ \<Rightarrow> None)"

definition sample_encode_process :: "process_identity \<Rightarrow> string" where
  "sample_encode_process p = enc_fields ([host_boot p, enc_int (int (process_id p)), started p, containment p]
     @ (case root_id p of None \<Rightarrow> [] | Some n \<Rightarrow> [enc_int (int n)]))"

definition sample_decode_process :: "string \<Rightarrow> process_identity option" where
  "sample_decode_process s = (case dec_fields [] s of
     [h, i, t, c] \<Rightarrow> Some \<lparr>host_boot = h, process_id = nat (dec_int i), started = t, containment = c,
       root_id = None\<rparr>
   | [h, i, t, c, r] \<Rightarrow> Some \<lparr>host_boot = h, process_id = nat (dec_int i), started = t, containment = c,
       root_id = Some (nat (dec_int r))\<rparr>
   | _ \<Rightarrow> None)"

definition sample_encode_receipt :: "completion_receipt \<Rightarrow> string" where
  "sample_encode_receipt r = enc_fields [claim_generation (receipt_claim r), enc_int (claim_epoch (receipt_claim r)),
     claim_attempt (receipt_claim r), receipt_request r, enc_int (receipt_revision r),
     (case receipt_kind r of ProviderCleanup \<Rightarrow> ''p'' | NeverStarted \<Rightarrow> ''n'' | OperatorAttested \<Rightarrow> ''o''),
     enc_int (receipt_at r)]"

definition sample_decode_receipt :: "string \<Rightarrow> completion_receipt option" where
  "sample_decode_receipt s = (case dec_fields [] s of
     [g, e, a, q, v, k, t] \<Rightarrow> Some \<lparr>receipt_claim = \<lparr>claim_generation = g, claim_epoch = dec_int e, claim_attempt = a\<rparr>,
       receipt_request = q, receipt_revision = dec_int v,
       receipt_kind = (if k = ''p'' then ProviderCleanup else if k = ''n'' then NeverStarted else OperatorAttested),
       receipt_at = dec_int t\<rparr>
   | _ \<Rightarrow> None)"

text \<open>A document is a serial digit, \<open>E\<close> (empty) or \<open>R\<close> (one managed resource), and the lineage.\<close>

definition sample_decode_header :: "string \<Rightarrow> state_header option" where
  "sample_decode_header s = (case s of
     a # b # l \<Rightarrow> Some \<lparr>hdr_version = 4, hdr_lineage = l, hdr_serial = int (byte a) - 48,
       hdr_resources = (if b = CHR ''R'' then [\<lparr>res_mode = ''managed'', res_type = ''vm'', res_name = ''r'',
         res_provider = ''p'', res_instances = [[]]\<rparr>] else []), hdr_outputs = []\<rparr>
   | _ \<Rightarrow> None)"

definition sample_external :: external where
  "sample_external = \<lparr>sha256 = (\<lambda>s. take 32 (rev s @ replicate 32 CHR ''0'')), hex_encode = (\<lambda>s. s), parse_uuid = Some,
     decode_header = sample_decode_header, fresh_state = (\<lambda>l. ''0E'' @ l),
     decode_lock = sample_decode_lock, encode_lock = sample_encode_lock,
     decode_process = sample_decode_process, encode_process = sample_encode_process,
     decode_receipt = sample_decode_receipt, encode_receipt = sample_encode_receipt,
     decode_create_identity = (\<lambda>s. case dec_fields [] s of [l, n] \<Rightarrow> Some (l, nat (dec_int n)) | _ \<Rightarrow> None),
     encode_create_identity = (\<lambda>l n. enc_fields [l, enc_int n]),
     decode_manifest_shape = (\<lambda>s. Some [\<lparr>role_name = ''runner'', terraform_type = s, exact_count = 1\<rparr>]),
     decode_auth_context = (\<lambda>s. None), scope_json = (\<lambda>f i n h u a b c. f @ i),
     encode_provenance = (\<lambda>p. enc_fields [prov_attempt_id p, prov_generation_id p]),
     decode_fleet_kind = (\<lambda>s. Some ForgejoFleet),
     parse_json = (\<lambda>s. case dec_fields [] s of
       [l, n] \<Rightarrow> Some (JObject [(''state_lineage'', JString l), (''state_serial'', JNumber (show_nat (nat (dec_int n))))])
     | _ \<Rightarrow> None)\<rparr>"

lemma sample_receipt_roundtrip: "sample_decode_receipt (sample_encode_receipt r) = Some r"
  by (cases "receipt_kind r")
    (simp_all add: sample_decode_receipt_def sample_encode_receipt_def dec_enc_fields dec_enc_int)

lemma sample_process_roundtrip: "sample_decode_process (sample_encode_process p) = Some p"
  by (cases "root_id p")
    (simp_all add: sample_decode_process_def sample_encode_process_def dec_enc_fields dec_enc_int)

lemma sample_lock_roundtrip: "sample_decode_lock (sample_encode_lock w) = Some w"
  by (simp add: sample_decode_lock_def sample_encode_lock_def dec_enc_fields)

lemma min_plus_diff: "min n 32 + (32 - n) = (32 :: nat)"
  by simp

lemma sample_codec_ok: "codec_ok sample_external"
  by (simp add: min_plus_diff codec_ok_def sample_external_def sample_receipt_roundtrip sample_process_roundtrip
      sample_lock_roundtrip dec_enc_fields dec_enc_int sample_decode_header_def fresh_header_def max_state_bytes_def)

theorem whole_shape_iff_witness:
  "\<exists>doc. state_document_parse sample_external ''0RL'' = Inr doc
     \<and> records_whole_shape doc [\<lparr>role_name = ''runner'', terraform_type = ''vm'', exact_count = 1\<rparr>]"
proof -
  have "is_ok (state_document_parse sample_external ''0RL'')" by code_simp
  then obtain doc where d: "state_document_parse sample_external ''0RL'' = Inr doc" by (auto simp: is_ok_iff)
  let ?h = "\<lparr>hdr_version = 4, hdr_lineage = ''L'', hdr_serial = 0,
      hdr_resources = [\<lparr>res_mode = ''managed'', res_type = ''vm'', res_name = ''r'', res_provider = ''p'',
        res_instances = [[]]\<rparr>], hdr_outputs = []\<rparr>"
  let ?s = "[\<lparr>role_name = ''runner'', terraform_type = ''vm'', exact_count = 1\<rparr>]"
  have h: "decode_header sample_external ''0RL'' = Some ?h"
    by (simp add: sample_external_def sample_decode_header_def)
  have same: "recorded ?h k = required ?s k" for k
    by (simp add: recorded_def required_def entry_sum_def)
  have small: "required ?s k < 2 ^ 64" for k by (simp add: required_def entry_sum_def)
  show ?thesis
    using whole_shape_iff [OF d h, of ?s] same small d by simp
qed

end
