(* ===== verification/Template_Flow.thy ===== *)
theory Template_Flow
  imports Plan_Admission Raw_State Sample_External
begin

text \<open>
  The Create and Destroy flows of the Template Runtime: \<open>runtime_create.rs\<close>, \<open>runtime_destroy.rs\<close> and
  \<open>runtime_apply.rs\<close> of \<open>shaula-template\<close>.  Each call that reaches outside (files, the Terraform
  process, the intent sink of the daemon) is a response of a world record, one field per call site, so
  that two reads of one file may differ.  A flow returns its result and the effects it had, in order.
\<close>

section \<open>Effects and results\<close>

datatype outcome_error =
    PlanFailed string
  | ExecutionFailed string
  | StateUnavailable string

datatype effect =
    Materialized
  | BackendInstalled
  | Initialized
  | InputWritten string
  | PlanBuilt bool
  | StartRecorded plan_provenance
  | ApplyStarted plan_provenance
  | HandedOver plan_provenance
  | CommandEnded plan_provenance
  | BootstrapRecorded plan_provenance
  | BootstrapLaunched
  | BootstrapEnded plan_provenance

type_synonym 'a flow = "effect list \<times> (outcome_error + 'a)"

definition yield :: "'a \<Rightarrow> 'a flow" where
  "yield x = ([], Inr x)"

definition fail :: "outcome_error \<Rightarrow> 'a flow" where
  "fail e = ([], Inl e)"

definition emit :: "effect \<Rightarrow> unit flow" where
  "emit e = ([e], Inr ())"

definition flow_then :: "'a flow \<Rightarrow> ('a \<Rightarrow> 'b flow) \<Rightarrow> 'b flow" where
  "flow_then m f = (case m of (w, Inl e) \<Rightarrow> (w, Inl e) | (w, Inr x) \<Rightarrow> (case f x of (w', r) \<Rightarrow> (w @ w', r)))"

text \<open>The \<open>?\<close> operator on a response, and a guard with an early return.\<close>

definition need :: "outcome_error \<Rightarrow> 'a option \<Rightarrow> ('a \<Rightarrow> 'b flow) \<Rightarrow> 'b flow" where
  "need e x f = (case x of None \<Rightarrow> fail e | Some v \<Rightarrow> f v)"

definition check :: "outcome_error \<Rightarrow> bool \<Rightarrow> 'b flow \<Rightarrow> 'b flow" where
  "check e b m = (if b then m else fail e)"

definition ok_option :: "'e + 'a \<Rightarrow> 'a option" where
  "ok_option r = (case r of Inl _ \<Rightarrow> None | Inr x \<Rightarrow> Some x)"

section \<open>Admitting and starting an apply\<close>

record apply_phases =
  phase_apply :: string
  phase_handover :: string
  phase_completion :: string

definition create_phases :: apply_phases where
  "create_phases = \<lparr>phase_apply = ''create.apply'', phase_handover = ''create.handover'',
     phase_completion = ''create.completion''\<rparr>"

definition destroy_phases :: apply_phases where
  "destroy_phases = \<lparr>phase_apply = ''destroy.apply'', phase_handover = ''destroy.handover'',
     phase_completion = ''destroy.completion''\<rparr>"

text \<open>What the outside answers from the recording of the intent to the end of the command.\<close>

record apply_world =
  aw_record :: bool
  aw_plan :: "string option"
  aw_engine :: "string option"
  aw_input :: "string option"
  aw_workspace :: "string option"
  aw_backend :: bool
  aw_start :: bool
  aw_handover :: bool
  aw_success :: bool
  aw_ended :: bool

definition digest_of :: "external \<Rightarrow> string \<Rightarrow> string" where
  "digest_of E bytes = ''sha256:'' @ hex_encode E (sha256 E bytes)"

definition admit_apply :: "bool \<Rightarrow> plan_provenance \<Rightarrow> apply_phases \<Rightarrow> apply_world \<Rightarrow> unit flow" where
  "admit_apply sink provenance phases w =
     (if sink then check (StateUnavailable (phase_apply phases)) (aw_record w) (emit (StartRecorded provenance))
      else yield ())"

definition verify_pre_spawn :: "external \<Rightarrow> plan_provenance \<Rightarrow> apply_phases \<Rightarrow> apply_world \<Rightarrow> unit flow" where
  "verify_pre_spawn E provenance phases w =
     (let state_err = StateUnavailable (phase_apply phases); exec_err = ExecutionFailed (phase_apply phases) in
      need state_err (aw_plan w) (\<lambda>plan_now.
      check exec_err (digest_of E plan_now = prov_saved_plan_digest provenance) (
      need exec_err (aw_engine w) (\<lambda>engine_now.
      check exec_err (engine_now = prov_engine_binary_digest provenance) (
      need state_err (aw_input w) (\<lambda>input_now.
      check exec_err (digest_of E input_now = prov_protected_input_digest provenance) (
      need state_err (aw_workspace w) (\<lambda>workspace_now.
      check exec_err (workspace_now = prov_template_material_digest provenance) (yield ())))))))))"

definition verify_http_workspace :: "bool \<Rightarrow> bool \<Rightarrow> 'a flow \<Rightarrow> 'a flow" where
  "verify_http_workspace http_backend verified rest =
     check (StateUnavailable ''backend.workspace'') (http_backend \<longrightarrow> verified) rest"

text \<open>The spawn: handover, the wait for the command, and only then its exit status.\<close>

definition spawn_apply :: "bool \<Rightarrow> bool \<Rightarrow> plan_provenance \<Rightarrow> apply_phases \<Rightarrow> apply_world \<Rightarrow> unit flow" where
  "spawn_apply http_backend sink provenance phases w =
     verify_http_workspace http_backend (aw_backend w) (
     check (ExecutionFailed (phase_apply phases)) (aw_start w) (
     flow_then (emit (ApplyStarted provenance)) (\<lambda>_.
     flow_then (if sink then check (ExecutionFailed (phase_handover phases)) (aw_handover w) (emit (HandedOver provenance))
                else yield ()) (\<lambda>_.
     flow_then (if sink then check (ExecutionFailed (phase_completion phases)) (aw_ended w) (emit (CommandEnded provenance))
                else yield ()) (\<lambda>_.
     check (ExecutionFailed (phase_apply phases)) (aw_success w) (yield ()))))))"

section \<open>Destroy\<close>

record destroy_request =
  dr_generation :: string
  dr_pinned_artifact :: string
  dr_shape :: "managed_role list"
  dr_original :: plan_provenance
  dr_lineage :: string
  dr_serial :: nat
  dr_allow_advance :: bool
  dr_sink :: bool

datatype destroy_classification = Applied | AlreadyEmpty

record destroy_world =
  dw_backend1 :: bool
  dw_flow :: "outcome_error + string \<times> string"
  dw_input :: "string option"
  dw_decoded :: bool
  dw_contract :: "outcome_error + unit"
  dw_workspace :: "string option"
  dw_material :: "string option"
  dw_pull :: "json option"
  dw_ssh :: bool
  dw_planned :: bool
  dw_plan_json :: "json option"
  dw_plan_bytes :: "string option"
  dw_attempt :: string
  dw_apply :: apply_world
  dw_pull_again :: "json option"
  dw_backend2 :: bool
  dw_pull_after :: "json option"

definition provenance_matches :: "plan_provenance \<Rightarrow> string \<Rightarrow> string \<Rightarrow> bool" where
  "provenance_matches original archive material =
     (if prov_template_material_digest original = [] then prov_artifact_digest original = material
      else prov_artifact_digest original = archive \<and> prov_template_material_digest original = material)"

definition state_pull_snapshot :: "json option \<Rightarrow> pulled_state option" where
  "state_pull_snapshot response = Option.bind response (\<lambda>state. ok_option (parse_raw_state_v4 state))"

definition serial_ok :: "destroy_request \<Rightarrow> nat \<Rightarrow> bool" where
  "serial_ok request serial = (if dr_allow_advance request then serial \<ge> dr_serial request else serial = dr_serial request)"

definition destroy_provenance ::
  "external \<Rightarrow> destroy_request \<Rightarrow> destroy_world \<Rightarrow> string \<times> string \<Rightarrow> string \<Rightarrow> pulled_state \<Rightarrow> string \<Rightarrow> plan_provenance" where
  "destroy_provenance E request w engine workspace_now snapshot plan_bytes =
     \<lparr>prov_intent = DestroyIntent, prov_saved_plan_digest = digest_of E plan_bytes, prov_engine_kind = ''terraform'',
      prov_engine_version = snd engine, prov_engine_binary_digest = fst engine,
      prov_artifact_digest = dr_pinned_artifact request, prov_template_material_digest = workspace_now,
      prov_protected_input_digest = prov_protected_input_digest (dr_original request),
      prov_state_lineage = SerialLineage (ps_lineage snapshot) (ps_serial snapshot),
      prov_generation_id = dr_generation request, prov_attempt_id = dw_attempt w\<rparr>"

text \<open>The second half of the flow, from the pulled state on.\<close>

definition destroy_planned ::
  "external \<Rightarrow> bool \<Rightarrow> destroy_request \<Rightarrow> destroy_world \<Rightarrow> string \<times> string \<Rightarrow> string \<Rightarrow> pulled_state
     \<Rightarrow> destroy_classification flow" where
  "destroy_planned E http_backend request w engine workspace_now snapshot =
     (let plan_err = PlanFailed ''destroy.plan'' in
      check plan_err (dw_ssh w) (
      check plan_err (dw_planned w) (
      flow_then (emit (PlanBuilt True)) (\<lambda>_.
      need plan_err (dw_plan_json w) (\<lambda>plan_json.
      check plan_err (is_ok (admit_destroy_plan_json plan_json (ps_managed snapshot) (dr_shape request))) (
      check (PlanFailed ''destroy.identity'') (is_ok (admit_destroy_identity plan_json (ps_names snapshot))) (
      need (StateUnavailable ''destroy.plan'') (dw_plan_bytes w) (\<lambda>plan_bytes.
      let provenance = destroy_provenance E request w engine workspace_now snapshot plan_bytes in
      flow_then (admit_apply (dr_sink request) provenance destroy_phases (dw_apply w)) (\<lambda>_.
      flow_then (verify_pre_spawn E provenance destroy_phases (dw_apply w)) (\<lambda>_.
      need (StateUnavailable ''state.verify'') (state_pull_snapshot (dw_pull_again w)) (\<lambda>now.
      check (ExecutionFailed ''destroy.apply'')
        (ps_serial now = ps_serial snapshot \<and> ps_lineage now = ps_lineage snapshot \<and> ps_managed now = ps_managed snapshot) (
      flow_then (spawn_apply http_backend (dr_sink request) provenance destroy_phases (dw_apply w)) (\<lambda>_.
      verify_http_workspace http_backend (dw_backend2 w) (
      need (StateUnavailable ''state.verify'') (state_pull_snapshot (dw_pull_after w)) (\<lambda>after.
      check (ExecutionFailed ''destroy.apply'') (ps_managed after = []) (yield Applied))))))))))))))))"

definition destroy_flow ::
  "external \<Rightarrow> bool \<Rightarrow> destroy_request \<Rightarrow> destroy_world \<Rightarrow> destroy_classification flow" where
  "destroy_flow E http_backend request w =
     (let original = dr_original request; state_err = StateUnavailable ''destroy.plan'' in
      check (StateUnavailable ''destroy.authorization'') (http_backend \<longrightarrow> dr_sink request) (
      verify_http_workspace http_backend (dw_backend1 w) (
      (case dw_flow w of Inl e \<Rightarrow> fail e | Inr engine \<Rightarrow>
      need state_err (dw_input w) (\<lambda>input_now.
      check state_err (digest_of E input_now = prov_protected_input_digest original) (
      check (StateUnavailable ''destroy.input_contract'') (dw_decoded w) (
      (case dw_contract w of Inl e \<Rightarrow> fail e | Inr _ \<Rightarrow>
      need state_err (dw_workspace w) (\<lambda>workspace_now.
      need state_err (dw_material w) (\<lambda>expected_material.
      check state_err (provenance_matches original (dr_pinned_artifact request) expected_material
         \<and> workspace_now = expected_material) (
      check (ExecutionFailed ''destroy.plan'') (fst engine = prov_engine_binary_digest original) (
      need (StateUnavailable ''state.verify'') (state_pull_snapshot (dw_pull w)) (\<lambda>snapshot.
      check (StateUnavailable ''state.verify'') (ps_lineage snapshot = dr_lineage request) (
      check (StateUnavailable ''state.verify'') (serial_ok request (ps_serial snapshot)) (
      if destroy_empty_state_short_circuit (ps_managed snapshot) then yield AlreadyEmpty
      else destroy_planned E http_backend request w engine workspace_now snapshot)))))))))))))))"

section \<open>Create\<close>

record create_request =
  cr_generation :: string
  cr_pinned_artifact :: string
  cr_shape :: "managed_role list"
  cr_sink :: bool

text \<open>Which bootstrap contracts the manifest declares.\<close>

record manifest_contracts =
  has_container_bootstrap :: bool
  has_forgejo_vm :: bool
  has_gitlab_vm :: bool

datatype persist_result = Persisted | AlreadyThere "string option" | PersistFailed

record create_world =
  cw_contract :: "outcome_error + manifest_contracts"
  cw_container_profile :: bool
  cw_material :: "string option"
  cw_prepared :: bool
  cw_fresh :: bool
  cw_materialized :: bool
  cw_installed :: bool
  cw_backend1 :: bool
  cw_workspace1 :: "string option"
  cw_flow :: "outcome_error + string \<times> string"
  cw_init :: bool
  cw_init_backend :: bool
  cw_tfvars :: "string option"
  cw_existing :: "string option option"
  cw_staged :: bool
  cw_persist :: persist_result
  cw_ssh :: bool
  cw_planned :: bool
  cw_plan_json :: "json option"
  cw_state_list :: "string list option"
  cw_bootstrap_plan :: "outcome_error + unit"
  cw_plan_bytes :: "string option"
  cw_workspace2 :: "string option"
  cw_attempt :: string
  cw_apply :: apply_world
  cw_state_list_again :: "string list option"
  cw_backend2 :: bool
  cw_outputs :: "json option"
  cw_envelope :: "json \<Rightarrow> bool"
  cw_envelope_valid :: "json \<Rightarrow> bool"
  cw_pull :: "json option"
  cw_boot_workspace :: "string option"
  cw_boot_input :: "string option"
  cw_boot_authorized :: bool
  cw_boot_launch :: "(outcome_error + unit) option"
  cw_boot_ended :: bool

text \<open>
  \<open>write_protected_input\<close>: an input that is already there is kept when it has the same content and
  is never replaced; the content read back after losing a race decides likewise.  The outer option of
  \<open>cw_existing\<close> is whether the file exists, the inner one whether it can be read.
\<close>

definition write_protected_input :: "external \<Rightarrow> create_world \<Rightarrow> string flow" where
  "write_protected_input E w =
     (let refused = StateUnavailable ''create.plan'' in
      need refused (cw_tfvars w) (\<lambda>content.
      case cw_existing w of
        Some previous \<Rightarrow> need refused previous (\<lambda>bytes.
          check refused (bytes = content) (yield (digest_of E content)))
      | None \<Rightarrow>
          check refused (cw_staged w) (
          case cw_persist w of
            Persisted \<Rightarrow> flow_then (emit (InputWritten content)) (\<lambda>_. yield (digest_of E content))
          | AlreadyThere found \<Rightarrow> need refused found (\<lambda>bytes.
              check refused (bytes = content) (yield (digest_of E content)))
          | PersistFailed \<Rightarrow> fail refused)))"

definition initialize_workspace :: "bool \<Rightarrow> create_world \<Rightarrow> unit flow" where
  "initialize_workspace http_backend w =
     check (ExecutionFailed ''create.init'') (cw_init w) (
     flow_then (emit Initialized) (\<lambda>_.
     verify_http_workspace http_backend (cw_init_backend w) (yield ())))"

definition extract_shaula_result :: "json \<Rightarrow> json option" where
  "extract_shaula_result outputs = Option.bind (get outputs ''shaula_result'') (\<lambda>v. get v ''value'')"

definition create_provenance ::
  "external \<Rightarrow> create_request \<Rightarrow> create_world \<Rightarrow> string \<times> string \<Rightarrow> string \<Rightarrow> string \<Rightarrow> string \<Rightarrow> plan_provenance" where
  "create_provenance E request w engine workspace_now input_digest plan_bytes =
     \<lparr>prov_intent = CreateIntent, prov_saved_plan_digest = digest_of E plan_bytes, prov_engine_kind = ''terraform'',
      prov_engine_version = snd engine, prov_engine_binary_digest = fst engine,
      prov_artifact_digest = cr_pinned_artifact request, prov_template_material_digest = workspace_now,
      prov_protected_input_digest = input_digest, prov_state_lineage = EmptyLineage,
      prov_generation_id = cr_generation request, prov_attempt_id = cw_attempt w\<rparr>"

text \<open>The container bootstrap after the apply; a timeout of the launch is \<open>None\<close>.\<close>

definition container_bootstrap :: "external \<Rightarrow> create_request \<Rightarrow> create_world \<Rightarrow> plan_provenance \<Rightarrow> unit flow" where
  "container_bootstrap E request w provenance =
     (let state_err = StateUnavailable ''container.bootstrap''; exec_err = ExecutionFailed ''container.bootstrap'' in
      need state_err (cw_boot_workspace w) (\<lambda>workspace_now.
      check state_err (workspace_now = prov_template_material_digest provenance) (
      need state_err (cw_boot_input w) (\<lambda>input_now.
      check state_err (digest_of E input_now = prov_protected_input_digest provenance) (
      check state_err (cr_sink request) (
      check exec_err (cw_boot_authorized w) (
      flow_then (emit (BootstrapRecorded provenance)) (\<lambda>_.
      flow_then (emit BootstrapLaunched) (\<lambda>_.
      case cw_boot_launch w of
        None \<Rightarrow> fail exec_err
      | Some (Inl e) \<Rightarrow> fail e
      | Some (Inr _) \<Rightarrow> check exec_err (cw_boot_ended w) (emit (BootstrapEnded provenance)))))))))))"

record create_result =
  result_envelope :: json
  result_lineage :: string
  result_serial :: nat
  result_provenance :: plan_provenance

text \<open>From the recorded intent on.\<close>

definition create_apply ::
  "external \<Rightarrow> bool \<Rightarrow> create_request \<Rightarrow> create_world \<Rightarrow> manifest_contracts \<Rightarrow> plan_provenance \<Rightarrow> create_result flow" where
  "create_apply E http_backend request w manifest provenance =
     (let exec_err = ExecutionFailed ''create.apply'' in
      flow_then (admit_apply (cr_sink request) provenance create_phases (cw_apply w)) (\<lambda>_.
      flow_then (verify_pre_spawn E provenance create_phases (cw_apply w)) (\<lambda>_.
      need (StateUnavailable ''create.apply'') (cw_state_list_again w) (\<lambda>prior_now.
      check (StateUnavailable ''create.apply'') (prior_now = []) (
      flow_then (spawn_apply http_backend (cr_sink request) provenance create_phases (cw_apply w)) (\<lambda>_.
      verify_http_workspace http_backend (cw_backend2 w) (
      need exec_err (cw_outputs w) (\<lambda>outputs.
      need exec_err (extract_shaula_result outputs) (\<lambda>envelope.
      check exec_err (cw_envelope w envelope) (
      check exec_err (cw_envelope_valid w envelope) (
      need (StateUnavailable ''state.verify'') (state_pull_snapshot (cw_pull w)) (\<lambda>snapshot.
      check exec_err (ps_managed snapshot \<noteq> []) (
      flow_then (if has_container_bootstrap manifest then container_bootstrap E request w provenance else yield ()) (\<lambda>_.
      yield \<lparr>result_envelope = envelope, result_lineage = ps_lineage snapshot, result_serial = ps_serial snapshot,
             result_provenance = provenance\<rparr>))))))))))))))"

text \<open>From the protected input to the provenance of the saved plan.\<close>

definition create_planned ::
  "external \<Rightarrow> bool \<Rightarrow> create_request \<Rightarrow> create_world \<Rightarrow> manifest_contracts \<Rightarrow> string \<Rightarrow> string \<times> string \<Rightarrow> create_result flow" where
  "create_planned E http_backend request w manifest expected_material engine =
     (let plan_err = PlanFailed ''create.plan''; state_err = StateUnavailable ''create.plan'' in
      flow_then (write_protected_input E w) (\<lambda>input_digest.
      check plan_err (cw_ssh w) (
      check plan_err (cw_planned w) (
      flow_then (emit (PlanBuilt False)) (\<lambda>_.
      need plan_err (cw_plan_json w) (\<lambda>plan_json.
      need plan_err (ok_option (parse_plan plan_json)) (\<lambda>parsed.
      need state_err (cw_state_list w) (\<lambda>prior_state.
      check plan_err (is_ok (admit_create_plan parsed (prior_state = []) (cr_shape request))) (
      case cw_bootstrap_plan w of Inl e \<Rightarrow> fail e | Inr _ \<Rightarrow>
      need state_err (cw_plan_bytes w) (\<lambda>plan_bytes.
      need state_err (cw_workspace2 w) (\<lambda>workspace_now.
      check state_err (workspace_now = expected_material) (
      check state_err (prior_state = []) (
      create_apply E http_backend request w manifest
        (create_provenance E request w engine workspace_now input_digest plan_bytes))))))))))))))"

text \<open>A workspace that was prepared before the Create is neither materialised nor initialised again.\<close>

definition materialize_workspace :: "bool \<Rightarrow> create_world \<Rightarrow> unit flow" where
  "materialize_workspace http_backend w =
     (if cw_prepared w then yield () else
          check (StateUnavailable ''backend.workspace'') (http_backend \<longrightarrow> cw_fresh w) (
          check (StateUnavailable ''create.materialize'') (cw_materialized w) (
          flow_then (emit Materialized) (\<lambda>_.
          if http_backend then check (StateUnavailable ''create.backend'') (cw_installed w) (emit BackendInstalled)
          else yield ()))))"

definition initialize_unless_prepared :: "bool \<Rightarrow> create_world \<Rightarrow> unit flow" where
  "initialize_unless_prepared http_backend w =
     (if cw_prepared w then yield () else initialize_workspace http_backend w)"

definition create_flow :: "external \<Rightarrow> bool \<Rightarrow> create_request \<Rightarrow> create_world \<Rightarrow> create_result flow" where
  "create_flow E http_backend request w =
     (case cw_contract w of Inl e \<Rightarrow> fail e | Inr manifest \<Rightarrow>
      check (StateUnavailable ''input.contract'') (cw_container_profile w) (
      check (StateUnavailable ''create.authorization'')
        (http_backend \<or> has_container_bootstrap manifest \<or> has_forgejo_vm manifest \<or> has_gitlab_vm manifest
         \<longrightarrow> cr_sink request) (
      need (StateUnavailable ''create.materialize'') (cw_material w) (\<lambda>expected_material.
      flow_then (materialize_workspace http_backend w) (\<lambda>_.
      verify_http_workspace http_backend (cw_backend1 w) (
      need (StateUnavailable ''create.materialize'') (cw_workspace1 w) (\<lambda>workspace1.
      check (StateUnavailable ''create.materialize'') (workspace1 = expected_material) (
      case cw_flow w of Inl e \<Rightarrow> fail e | Inr engine \<Rightarrow>
      flow_then (initialize_unless_prepared http_backend w) (\<lambda>_.
      create_planned E http_backend request w manifest expected_material engine)))))))))"

section \<open>Reading a flow\<close>

text \<open>Whether a flow starts an apply, what it returns, and its effects.\<close>

definition starts :: "plan_provenance \<Rightarrow> 'a flow \<Rightarrow> bool" where
  "starts p m \<longleftrightarrow> ApplyStarted p \<in> set (fst m)"

definition returns :: "'a flow \<Rightarrow> 'a \<Rightarrow> bool" where
  "returns m x \<longleftrightarrow> snd m = Inr x"

named_theorems flow_simps

lemma fst_flow [flow_simps]:
  "fst (yield x) = []" "fst (fail e) = []" "fst (emit a) = [a]"
  "fst (flow_then m f) = fst m @ (case snd m of Inl _ \<Rightarrow> [] | Inr x \<Rightarrow> fst (f x))"
  "fst (need e v g) = (case v of None \<Rightarrow> [] | Some y \<Rightarrow> fst (g y))"
  "fst (check e b m) = (if b then fst m else [])"
  by (auto simp: yield_def fail_def emit_def flow_then_def need_def check_def
      split: prod.splits sum.splits option.splits)

lemma snd_flow [flow_simps]:
  "snd (yield x) = Inr x" "snd (fail e) = Inl e" "snd (emit a) = Inr ()"
  "snd (flow_then m f) = (case snd m of Inl e \<Rightarrow> Inl e | Inr x \<Rightarrow> snd (f x))"
  "snd (need e v g) = (case v of None \<Rightarrow> Inl e | Some y \<Rightarrow> snd (g y))"
  "snd (check e b m) = (if b then snd m else Inl e)"
  by (auto simp: yield_def fail_def emit_def flow_then_def need_def check_def
      split: prod.splits sum.splits option.splits)

lemma starts_flow [flow_simps]:
  "\<not> starts p (yield x)" "\<not> starts p (fail e)" "starts p (emit a) \<longleftrightarrow> a = ApplyStarted p"
  "starts p (flow_then m f) \<longleftrightarrow> starts p m \<or> (\<exists>x. returns m x \<and> starts p (f x))"
  "starts p (need e v g) \<longleftrightarrow> (\<exists>y. v = Some y \<and> starts p (g y))"
  "starts p (check e b m) \<longleftrightarrow> b \<and> starts p m"
  by (auto simp: starts_def returns_def flow_simps split: sum.splits option.splits)

lemma returns_flow [flow_simps]:
  "returns (yield x) y \<longleftrightarrow> x = y" "\<not> returns (fail e) y" "returns (emit a) u"
  "returns (flow_then m' f) y \<longleftrightarrow> (\<exists>x'. returns m' x' \<and> returns (f x') y)"
  "returns (need e v g) y \<longleftrightarrow> (\<exists>z. v = Some z \<and> returns (g z) y)"
  "returns (check e b m) y \<longleftrightarrow> b \<and> returns m y"
  by (auto simp: returns_def yield_def fail_def emit_def flow_then_def need_def check_def
      split: prod.splits sum.splits option.splits)

lemma case_sum_flow [flow_simps]:
  "starts p (case r of Inl e \<Rightarrow> fail e | Inr x \<Rightarrow> f x) \<longleftrightarrow> (\<exists>x. r = Inr x \<and> starts p (f x))"
  "returns (case r of Inl e \<Rightarrow> fail e | Inr x \<Rightarrow> f x) y \<longleftrightarrow> (\<exists>x. r = Inr x \<and> returns (f x) y)"
  by (auto simp: flow_simps split: sum.splits)

lemma returns_fst: "returns m x \<Longrightarrow> fst (flow_then m f) = fst m @ fst (f x)"
  by (simp add: flow_simps returns_def)

lemma admit_apply_flow [flow_simps]:
  "\<not> starts p (admit_apply sink q phases w)"
  "returns (admit_apply sink q phases w) u \<longleftrightarrow> (sink \<longrightarrow> aw_record w)"
  by (auto simp: admit_apply_def flow_simps)

lemma admit_apply_effects:
  "returns (admit_apply sink q phases w) u \<Longrightarrow> fst (admit_apply sink q phases w) = (if sink then [StartRecorded q] else [])"
  by (auto simp: admit_apply_def flow_simps)

definition unchanged :: "external \<Rightarrow> plan_provenance \<Rightarrow> apply_world \<Rightarrow> bool" where
  "unchanged E p w \<longleftrightarrow>
     (\<exists>plan. aw_plan w = Some plan \<and> digest_of E plan = prov_saved_plan_digest p)
     \<and> aw_engine w = Some (prov_engine_binary_digest p)
     \<and> (\<exists>input. aw_input w = Some input \<and> digest_of E input = prov_protected_input_digest p)
     \<and> aw_workspace w = Some (prov_template_material_digest p)"

lemma verify_pre_spawn_flow [flow_simps]:
  "\<not> starts p (verify_pre_spawn E q phases w)"
  "returns (verify_pre_spawn E q phases w) u \<longleftrightarrow> unchanged E q w"
  "fst (verify_pre_spawn E q phases w) = []"
  by (auto simp: verify_pre_spawn_def unchanged_def Let_def flow_simps split: option.splits)

lemma spawn_apply_flow [flow_simps]:
  "starts p (spawn_apply b sink q phases w) \<longleftrightarrow> p = q \<and> (b \<longrightarrow> aw_backend w) \<and> aw_start w"
  by (auto simp: spawn_apply_def verify_http_workspace_def flow_simps)

lemma verify_http_flow [flow_simps]:
  "starts p (verify_http_workspace b v m) \<longleftrightarrow> (b \<longrightarrow> v) \<and> starts p m"
  "returns (verify_http_workspace b v m) x \<longleftrightarrow> (b \<longrightarrow> v) \<and> returns m x"
  "fst (verify_http_workspace b v m) = (if b \<longrightarrow> v then fst m else [])"
  by (simp_all add: verify_http_workspace_def flow_simps)

text \<open>After the start of an apply only its handover and its end are reported.\<close>

lemma spawn_apply_effects:
  assumes "starts p (spawn_apply b sink q phases w)"
  obtains tail where "fst (spawn_apply b sink q phases w) = ApplyStarted q # tail"
    "set tail \<subseteq> {HandedOver q, CommandEnded q}"
proof -
  have ok: "(b \<longrightarrow> aw_backend w) \<and> aw_start w"
    using assms by (simp add: flow_simps)
  have "fst (spawn_apply b sink q phases w) = ApplyStarted q # tl (fst (spawn_apply b sink q phases w))
      \<and> set (tl (fst (spawn_apply b sink q phases w))) \<subseteq> {HandedOver q, CommandEnded q}"
    using ok by (cases sink; cases "aw_handover w"; cases "aw_ended w") (simp_all add: spawn_apply_def flow_simps)
  then show thesis using that by blast
qed

lemma spawn_apply_returns:
  assumes "returns (spawn_apply b sink q phases w) u"
  shows "starts q (spawn_apply b sink q phases w)" and "aw_success w"
    and "fst (spawn_apply b sink q phases w) =
      ApplyStarted q # (if sink then [HandedOver q, CommandEnded q] else [])"
proof -
  have ok: "(b \<longrightarrow> aw_backend w) \<and> aw_start w \<and> aw_success w \<and> (sink \<longrightarrow> aw_handover w \<and> aw_ended w)"
    using assms by (auto simp: spawn_apply_def flow_simps split: if_splits)
  then show "starts q (spawn_apply b sink q phases w)" "aw_success w" by (simp_all add: flow_simps)
  from ok show "fst (spawn_apply b sink q phases w) =
      ApplyStarted q # (if sink then [HandedOver q, CommandEnded q] else [])"
    by (simp add: spawn_apply_def flow_simps)
qed

section \<open>What a started Destroy has established\<close>

text \<open>The pulled state a Destroy may act on.\<close>

definition bound_state :: "destroy_request \<Rightarrow> destroy_world \<Rightarrow> pulled_state \<Rightarrow> bool" where
  "bound_state request w snapshot \<longleftrightarrow> state_pull_snapshot (dw_pull w) = Some snapshot
     \<and> ps_lineage snapshot = dr_lineage request \<and> serial_ok request (ps_serial snapshot)"

definition same_state :: "pulled_state \<Rightarrow> pulled_state \<Rightarrow> bool" where
  "same_state a b \<longleftrightarrow> ps_serial a = ps_serial b \<and> ps_lineage a = ps_lineage b \<and> ps_managed a = ps_managed b"

definition admitted_destroy :: "destroy_request \<Rightarrow> pulled_state \<Rightarrow> json \<Rightarrow> bool" where
  "admitted_destroy request snapshot plan_json \<longleftrightarrow>
     admit_destroy_plan_json plan_json (ps_managed snapshot) (dr_shape request) = Inr ()
     \<and> admit_destroy_identity plan_json (ps_names snapshot) = Inr ()"

lemma ok_option_Some: "ok_option r = Some x \<longleftrightarrow> r = Inr x"
  by (cases r) (auto simp: ok_option_def)

lemma state_pull_Some:
  "state_pull_snapshot r = Some s \<longleftrightarrow> (\<exists>state. r = Some state \<and> parse_raw_state_v4 state = Inr s)"
  by (auto simp: state_pull_snapshot_def Option.bind_eq_Some_conv ok_option_Some)

lemma is_ok_unit: "is_ok (r :: 'e + unit) \<longleftrightarrow> r = Inr ()"
  by (cases r) (auto simp: is_ok_def)

lemma ex_unit: "(\<exists>u. P u) \<longleftrightarrow> P ()"
  by auto

lemma destroy_planned_starts:
  assumes "starts p (destroy_planned E b request w engine workspace_now snapshot)"
  obtains plan_json plan_bytes now where "dw_plan_json w = Some plan_json" "admitted_destroy request snapshot plan_json"
    "dw_plan_bytes w = Some plan_bytes" "p = destroy_provenance E request w engine workspace_now snapshot plan_bytes"
    "unchanged E p (dw_apply w)" "state_pull_snapshot (dw_pull_again w) = Some now" "same_state now snapshot"
    "dr_sink request \<longrightarrow> aw_record (dw_apply w)"
    "starts p (spawn_apply b (dr_sink request) p destroy_phases (dw_apply w))"
    "dw_ssh w" "dw_planned w"
  using assms
  by (auto simp: destroy_planned_def Let_def flow_simps is_ok_unit admitted_destroy_def same_state_def)

lemma destroy_planned_effects:
  assumes "starts p (destroy_planned E b request w engine workspace_now snapshot)"
  obtains tail where "fst (destroy_planned E b request w engine workspace_now snapshot) =
      PlanBuilt True # (if dr_sink request then [StartRecorded p] else []) @ ApplyStarted p # tail"
    "set tail \<subseteq> {HandedOver p, CommandEnded p}"
proof -
  from assms obtain plan_json plan_bytes now where
    s: "dw_plan_json w = Some plan_json" "admitted_destroy request snapshot plan_json"
    "dw_plan_bytes w = Some plan_bytes" "p = destroy_provenance E request w engine workspace_now snapshot plan_bytes"
    "unchanged E p (dw_apply w)" "state_pull_snapshot (dw_pull_again w) = Some now" "same_state now snapshot"
    "dr_sink request \<longrightarrow> aw_record (dw_apply w)"
    "starts p (spawn_apply b (dr_sink request) p destroy_phases (dw_apply w))"
    "dw_ssh w" "dw_planned w"
    by (rule destroy_planned_starts)
  have admit: "returns (admit_apply (dr_sink request) p destroy_phases (dw_apply w)) ()"
    and verify: "returns (verify_pre_spawn E p destroy_phases (dw_apply w)) ()"
    using s by (simp_all add: flow_simps)
  from s(9) obtain tail where tail: "fst (spawn_apply b (dr_sink request) p destroy_phases (dw_apply w)) = ApplyStarted p # tail"
      "set tail \<subseteq> {HandedOver p, CommandEnded p}"
    by (rule spawn_apply_effects)
  have "fst (destroy_planned E b request w engine workspace_now snapshot) =
      PlanBuilt True # (if dr_sink request then [StartRecorded p] else []) @ ApplyStarted p # tail"
    using s(1-3,6,7,10,11) s(4) [symmetric] admit_apply_effects [OF admit]
      admit [unfolded returns_def] verify [unfolded returns_def] tail(1)
    by (simp add: destroy_planned_def Let_def flow_simps is_ok_unit admitted_destroy_def same_state_def
        split: sum.split option.split)
  then show thesis using tail(2) by (rule that)
qed

lemma destroy_planned_returns:
  assumes "returns (destroy_planned E b request w engine workspace_now snapshot) outcome"
  obtains p after where "outcome = Applied" "aw_success (dw_apply w)"
    "state_pull_snapshot (dw_pull_after w) = Some after" "ps_managed after = []"
    "starts p (destroy_planned E b request w engine workspace_now snapshot)"
proof -
  from assms obtain plan_json plan_bytes now after where
    s: "dw_ssh w" "dw_planned w" "dw_plan_json w = Some plan_json"
      "is_ok (admit_destroy_plan_json plan_json (ps_managed snapshot) (dr_shape request))"
      "is_ok (admit_destroy_identity plan_json (ps_names snapshot))" "dw_plan_bytes w = Some plan_bytes"
      "returns (admit_apply (dr_sink request) (destroy_provenance E request w engine workspace_now snapshot plan_bytes)
         destroy_phases (dw_apply w)) ()"
      "returns (verify_pre_spawn E (destroy_provenance E request w engine workspace_now snapshot plan_bytes)
         destroy_phases (dw_apply w)) ()"
      "state_pull_snapshot (dw_pull_again w) = Some now"
      "ps_serial now = ps_serial snapshot \<and> ps_lineage now = ps_lineage snapshot \<and> ps_managed now = ps_managed snapshot"
    and spawn: "returns (spawn_apply b (dr_sink request) (destroy_provenance E request w engine workspace_now snapshot plan_bytes)
         destroy_phases (dw_apply w)) ()"
    and after: "state_pull_snapshot (dw_pull_after w) = Some after" "ps_managed after = []" "outcome = Applied"
    unfolding destroy_planned_def Let_def returns_flow verify_http_flow ex_unit by blast
  have "starts (destroy_provenance E request w engine workspace_now snapshot plan_bytes)
      (destroy_planned E b request w engine workspace_now snapshot)"
    unfolding destroy_planned_def Let_def starts_flow verify_http_flow ex_unit returns_flow
    using s spawn_apply_returns(1) [OF spawn] returns_flow(3) by blast
  with after spawn_apply_returns(2) [OF spawn] show thesis by (intro that)
qed

lemma destroy_flow_starts:
  assumes "starts p (destroy_flow E b request w)"
  obtains engine input snapshot workspace_now where "dw_flow w = Inr engine" "dw_input w = Some input"
    "digest_of E input = prov_protected_input_digest (dr_original request)" "dw_workspace w = Some workspace_now"
    "dw_material w = Some workspace_now"
    "provenance_matches (dr_original request) (dr_pinned_artifact request) workspace_now"
    "fst engine = prov_engine_binary_digest (dr_original request)" "bound_state request w snapshot"
    "ps_managed snapshot \<noteq> []" "b \<longrightarrow> dr_sink request"
    "destroy_flow E b request w = destroy_planned E b request w engine workspace_now snapshot"
    "starts p (destroy_planned E b request w engine workspace_now snapshot)"
proof -
  from assms obtain engine input snapshot workspace_now where
    s: "dw_flow w = Inr engine" "dw_input w = Some input"
    "digest_of E input = prov_protected_input_digest (dr_original request)" "dw_workspace w = Some workspace_now"
    "dw_material w = Some workspace_now"
    "provenance_matches (dr_original request) (dr_pinned_artifact request) workspace_now"
    "fst engine = prov_engine_binary_digest (dr_original request)" "bound_state request w snapshot"
    "ps_managed snapshot \<noteq> []" "b \<longrightarrow> dr_sink request" "b \<longrightarrow> dw_backend1 w" "dw_decoded w" "dw_contract w = Inr ()"
    "starts p (destroy_planned E b request w engine workspace_now snapshot)"
    by (auto simp: destroy_flow_def Let_def flow_simps bound_state_def destroy_empty_state_short_circuit_def split: if_splits)
  then have "destroy_flow E b request w = destroy_planned E b request w engine workspace_now snapshot"
    by (simp add: destroy_flow_def Let_def check_def need_def verify_http_workspace_def bound_state_def
        destroy_empty_state_short_circuit_def)
  with s show thesis by (intro that [of engine input workspace_now snapshot]) auto
qed


lemma identity_kept:
  assumes "admit_destroy_identity doc names = Inr ()" and "(a, n) \<in> set names"
    and "c \<in> set (plan_changes doc)" and "get_str c ''address'' = Some a"
  shows "refreshed_name c = Some n"
  using assms
  by (fastforce simp: admit_destroy_identity_def and_then_Inr ok_or_Inr for_each_Inr plan_err_def plan_changes_def
      elements_def split: if_splits prod.splits option.splits)

section \<open>What a started Create has established\<close>

lemma write_input_flow [flow_simps]:
  "\<not> starts p (write_protected_input E w)"
  "returns (write_protected_input E w) d \<Longrightarrow> \<exists>content. cw_tfvars w = Some content \<and> d = digest_of E content"
  "set (fst (write_protected_input E w)) \<subseteq> range InputWritten"
  by (cases "cw_persist w"; auto simp: write_protected_input_def Let_def flow_simps split: option.splits if_splits)+

lemma initialize_workspace_flow [flow_simps]:
  "\<not> starts p (initialize_workspace b w)"
  "set (fst (initialize_workspace b w)) \<subseteq> {Initialized}"
  by (auto simp: initialize_workspace_def flow_simps split: sum.splits)

lemma prepare_flow [flow_simps]:
  "\<not> starts p (materialize_workspace b w)" "\<not> starts p (initialize_unless_prepared b w)"
  "set (fst (materialize_workspace b w)) \<subseteq> {Materialized, BackendInstalled}"
  "set (fst (initialize_unless_prepared b w)) \<subseteq> {Initialized}"
  using initialize_workspace_flow(2) [of b w]
  by (auto simp: materialize_workspace_def initialize_unless_prepared_def flow_simps split: if_splits sum.splits)

definition bootstrap_effects :: "plan_provenance \<Rightarrow> effect set" where
  "bootstrap_effects p = {BootstrapRecorded p, BootstrapLaunched, BootstrapEnded p}"

lemma container_bootstrap_flow [flow_simps]:
  "\<not> starts p (container_bootstrap E request w q)"
  "set (fst (container_bootstrap E request w q)) \<subseteq> bootstrap_effects q"
  by (auto simp: container_bootstrap_def Let_def flow_simps bootstrap_effects_def split: option.splits sum.splits if_splits)

text \<open>The state was listed empty before the plan and again before the start.\<close>

definition admitted_create :: "create_request \<Rightarrow> create_world \<Rightarrow> json \<Rightarrow> bool" where
  "admitted_create request w plan_json \<longleftrightarrow> cw_state_list w = Some [] \<and> cw_state_list_again w = Some []
     \<and> (\<exists>parsed. parse_plan plan_json = Inr parsed \<and> admit_create_plan parsed True (cr_shape request) = Inr ())"

lemma create_apply_starts:
  assumes "starts p (create_apply E b request w manifest q)"
  shows "p = q" and "unchanged E q (cw_apply w)" and "cw_state_list_again w = Some []"
    and "cr_sink request \<longrightarrow> aw_record (cw_apply w)"
    and "starts q (spawn_apply b (cr_sink request) q create_phases (cw_apply w))"
  using assms by (auto simp: create_apply_def Let_def flow_simps split: if_splits)

lemma create_apply_effects:
  assumes "starts p (create_apply E b request w manifest p)"
  obtains tail where "fst (create_apply E b request w manifest p) =
      (if cr_sink request then [StartRecorded p] else []) @ ApplyStarted p # tail"
    "set tail \<subseteq> {HandedOver p, CommandEnded p} \<union> bootstrap_effects p"
proof -
  note s = create_apply_starts [OF assms]
  have admit: "returns (admit_apply (cr_sink request) p create_phases (cw_apply w)) ()"
    and verify: "returns (verify_pre_spawn E p create_phases (cw_apply w)) ()"
    using s by (simp_all add: flow_simps)
  from s(5) obtain tail where tail: "fst (spawn_apply b (cr_sink request) p create_phases (cw_apply w)) = ApplyStarted p # tail"
      "set tail \<subseteq> {HandedOver p, CommandEnded p}"
    by (rule spawn_apply_effects)
  have "\<exists>more. fst (create_apply E b request w manifest p) =
      (if cr_sink request then [StartRecorded p] else []) @ ApplyStarted p # tail @ more \<and> set more \<subseteq> bootstrap_effects p"
    using s(3) admit_apply_effects [OF admit] admit [unfolded returns_def] verify [unfolded returns_def] tail(1)
    by (auto simp: create_apply_def Let_def flow_simps split: sum.split option.split
        intro: subsetD [OF container_bootstrap_flow(2)])
  with tail(2) show thesis by (elim exE) (rule that, auto)
qed

lemma create_planned_starts:
  assumes "starts p (create_planned E b request w manifest material engine)"
  obtains content plan_json plan_bytes where "cw_tfvars w = Some content" "cw_plan_json w = Some plan_json"
    "admitted_create request w plan_json" "cw_workspace2 w = Some material" "cw_plan_bytes w = Some plan_bytes"
    "p = create_provenance E request w engine material (digest_of E content) plan_bytes"
    "returns (write_protected_input E w) (digest_of E content)"
    "starts p (create_apply E b request w manifest p)" "cw_ssh w" "cw_planned w" "cw_bootstrap_plan w = Inr ()"
proof -
  from assms obtain d plan_json parsed prior plan_bytes where
    s: "returns (write_protected_input E w) d" "cw_ssh w" "cw_planned w" "cw_plan_json w = Some plan_json"
      "ok_option (parse_plan plan_json) = Some parsed" "cw_state_list w = Some prior"
      "is_ok (admit_create_plan parsed (prior = []) (cr_shape request))" "cw_bootstrap_plan w = Inr ()"
      "cw_plan_bytes w = Some plan_bytes" "cw_workspace2 w = Some material" "prior = []"
      "starts p (create_apply E b request w manifest (create_provenance E request w engine material d plan_bytes))"
    by (auto simp: create_planned_def Let_def flow_simps)
  moreover from write_input_flow(2) [OF s(1)] obtain content where "cw_tfvars w = Some content" "d = digest_of E content"
    by blast
  moreover note create_apply_starts(1,3) [OF s(12)]
  ultimately show thesis
    by (intro that [of content plan_json plan_bytes]) (auto simp: admitted_create_def ok_option_Some is_ok_unit)
qed

section \<open>Properties\<close>


text \<open>C25. A started destroy deletes only what the Generation owns: every managed change of its plan is a plain
  delete of a live managed instance of the pulled state, whose refreshed name is still the one the
  state recorded for it, if any; and every live instance is deleted or was found gone by the refresh.\<close>

theorem destroy_deletes_only_own:
  assumes "starts p (destroy_flow E http_backend request w)"
  shows "\<exists>state plan_json. dw_pull w = Some state \<and> dw_plan_json w = Some plan_json
    \<and> (\<forall>c\<in>set (plan_changes plan_json). managed_change c \<longrightarrow>
         plain_change c ''delete''
         \<and> (\<exists>ri\<in>set (live_instances state). get_str c ''address'' = Some (live_address ri)
              \<and> (\<forall>n. live_name (snd ri) = Some n \<longrightarrow> refreshed_name c = Some n)))
    \<and> (\<forall>ri\<in>set (live_instances state). live_address ri \<in> set (planned_addresses plan_json)
         \<or> (\<exists>root. document_root plan_json = Some root \<and> \<not> managed_in root (live_address ri)))"
  using assms
proof (rule destroy_flow_starts)
  fix engine input snapshot workspace_now
  assume b: "bound_state request w snapshot"
    and d: "starts p (destroy_planned E http_backend request w engine workspace_now snapshot)"
  from d obtain plan_json where j: "dw_plan_json w = Some plan_json" "admitted_destroy request snapshot plan_json"
    by (rule destroy_planned_starts)
  from b obtain state where state: "dw_pull w = Some state" "parse_raw_state_v4 state = Inr snapshot"
    by (auto simp: bound_state_def state_pull_Some)
  note exact = raw_state_content [OF state(2)]
  from j(2) obtain plan where plan: "parse_plan_shape plan_json = Inr plan"
      "admit_destroy_plan plan (ps_managed snapshot) (dr_shape request) = Inr ()"
    and identity: "admit_destroy_identity plan_json (ps_names snapshot) = Inr ()"
    by (auto simp: admitted_destroy_def admit_destroy_plan_json_def and_then_Inr)
  note own = plan(2) [unfolded destroy_admitted [OF plan(1)]]
  show ?thesis
  proof (intro exI conjI ballI impI)
    show "dw_pull w = Some state" "dw_plan_json w = Some plan_json" by fact+
  next
    fix c assume c: "c \<in> set (plan_changes plan_json)" "managed_change c"
    then show "plain_change c ''delete''" using own by auto
    obtain i where "parse_change c = Inr i"
      using c(1) shape_instances [OF plan(1)] by (auto simp: list_all2_conv_all_nth in_set_conv_nth)
    then have a: "get_str c ''address'' = Some (pi_address i)" by (rule parse_change_Inr(2))
    with c have "pi_address i \<in> set (planned_addresses plan_json)"
      by (auto simp: planned_addresses_def set_map_filter)
    with own exact obtain ri where ri: "ri \<in> set (live_instances state)" "pi_address i = live_address ri" by auto
    moreover have "refreshed_name c = Some n" if "live_name (snd ri) = Some n" for n
    proof -
      have "(live_address ri, n) \<in> set (ps_names snapshot)"
        using exact ri(1) that by (cases ri) auto
      from identity_kept [OF identity this c(1)] a ri(2) show ?thesis by simp
    qed
    ultimately show "\<exists>ri\<in>set (live_instances state). get_str c ''address'' = Some (live_address ri)
        \<and> (\<forall>n. live_name (snd ri) = Some n \<longrightarrow> refreshed_name c = Some n)"
      using a by auto
  next
    fix ri assume "ri \<in> set (live_instances state)"
    with exact have "live_address ri \<in> set (ps_managed snapshot)" by auto
    with own show "live_address ri \<in> set (planned_addresses plan_json)
         \<or> (\<exists>root. document_root plan_json = Some root \<and> \<not> managed_in root (live_address ri))"
      by auto
  qed
qed

text \<open>What a Destroy reports is so: it is already empty only when the bound state holds no live managed
  instance, and then nothing was done; and it is applied only after the apply was started, ended
  successfully, and the state pulled afterwards held no live managed instance.\<close>

theorem destroy_outcomes:
  assumes "snd (destroy_flow E http_backend request w) = Inr outcome"
  shows "case outcome of
      AlreadyEmpty \<Rightarrow> fst (destroy_flow E http_backend request w) = []
        \<and> (\<exists>state. dw_pull w = Some state \<and> live_instances state = [])
    | Applied \<Rightarrow> aw_success (dw_apply w) \<and> (\<exists>p. starts p (destroy_flow E http_backend request w))
        \<and> (\<exists>state. dw_pull_after w = Some state \<and> live_instances state = [])"
proof -
  have pulled: "\<exists>state. r = Some state \<and> (ps_managed s = [] \<longleftrightarrow> live_instances state = [])"
    if "state_pull_snapshot r = Some s" for r s
    using that raw_state_content(4) unfolding state_pull_Some by blast
  from assms have "returns (destroy_flow E http_backend request w) outcome" by (simp add: returns_def)
  then obtain engine input_now workspace_now material snapshot where
    s: "dw_flow w = Inr engine" "dw_input w = Some input_now" "dw_workspace w = Some workspace_now"
      "dw_material w = Some material" "state_pull_snapshot (dw_pull w) = Some snapshot"
    and g: "http_backend \<longrightarrow> dr_sink request" "http_backend \<longrightarrow> dw_backend1 w"
      "digest_of E input_now = prov_protected_input_digest (dr_original request)" "dw_decoded w" "dw_contract w = Inr ()"
      "provenance_matches (dr_original request) (dr_pinned_artifact request) material" "workspace_now = material"
      "fst engine = prov_engine_binary_digest (dr_original request)" "ps_lineage snapshot = dr_lineage request"
      "serial_ok request (ps_serial snapshot)"
    and r: "returns (if ps_managed snapshot = [] then yield AlreadyEmpty
       else destroy_planned E http_backend request w engine workspace_now snapshot) outcome"
    by (auto simp: destroy_flow_def Let_def flow_simps destroy_empty_state_short_circuit_def)
  have flow: "destroy_flow E http_backend request w = (if ps_managed snapshot = [] then yield AlreadyEmpty
       else destroy_planned E http_backend request w engine workspace_now snapshot)"
    using s g by (simp add: destroy_flow_def Let_def check_def need_def verify_http_workspace_def
        destroy_empty_state_short_circuit_def)
  show ?thesis
  proof (cases "ps_managed snapshot = []")
    case True
    with r pulled [OF s(5)] show ?thesis by (auto simp: flow flow_simps)
  next
    case False
    then obtain q after where "outcome = Applied" "aw_success (dw_apply w)"
        "state_pull_snapshot (dw_pull_after w) = Some after" "ps_managed after = []"
        "starts q (destroy_planned E http_backend request w engine workspace_now snapshot)"
      using r by (auto elim: destroy_planned_returns)
    with False pulled show ?thesis by (fastforce simp: flow)
  qed
qed


section \<open>Witnesses\<close>

definition flow_state :: "json list \<Rightarrow> json" where
  "flow_state instances = JObject [(''version'', JNumber ''4''), (''serial'', JNumber ''7''), (''lineage'', JString ''l-1''),
     (''resources'', JArray [JObject [(''mode'', JString ''managed''), (''type'', JString ''docker_container''),
        (''name'', JString ''runner''), (''instances'', JArray instances)]])]"

definition flow_instance :: json where
  "flow_instance = JObject [(''attributes'', JObject [(''name'', JString ''runner-1'')])]"

definition flow_digest :: "string \<Rightarrow> string" where
  "flow_digest bytes = digest_of sample_external bytes"

definition flow_original :: plan_provenance where
  "flow_original = \<lparr>prov_intent = CreateIntent, prov_saved_plan_digest = flow_digest ''plan'',
     prov_engine_kind = ''terraform'', prov_engine_version = ''1.9.8'', prov_engine_binary_digest = ''engine'',
     prov_artifact_digest = ''artifact'', prov_template_material_digest = ''material'',
     prov_protected_input_digest = flow_digest ''input'', prov_state_lineage = EmptyLineage,
     prov_generation_id = ''g'', prov_attempt_id = ''a0''\<rparr>"

definition flow_request :: destroy_request where
  "flow_request = \<lparr>dr_generation = ''g'', dr_pinned_artifact = ''artifact'', dr_shape = sample_shape,
     dr_original = flow_original, dr_lineage = ''l-1'', dr_serial = 7, dr_allow_advance = False, dr_sink = True\<rparr>"

definition flow_apply :: "string \<Rightarrow> apply_world" where
  "flow_apply plan = \<lparr>aw_record = True, aw_plan = Some plan, aw_engine = Some ''engine'', aw_input = Some ''input'',
     aw_workspace = Some ''material'', aw_backend = True, aw_start = True, aw_handover = True, aw_success = True,
     aw_ended = True\<rparr>"

definition flow_world :: destroy_world where
  "flow_world = \<lparr>dw_backend1 = True, dw_flow = Inr (''engine'', ''1.9.8''), dw_input = Some ''input'', dw_decoded = True,
     dw_contract = Inr (), dw_workspace = Some ''material'', dw_material = Some ''material'',
     dw_pull = Some (flow_state [flow_instance]), dw_ssh = True, dw_planned = True,
     dw_plan_json = Some (sample_plan_doc ''delete'' [sample_resource] []), dw_plan_bytes = Some ''destroy plan'',
     dw_attempt = ''a1'', dw_apply = flow_apply ''destroy plan'', dw_pull_again = Some (flow_state [flow_instance]),
     dw_backend2 = True, dw_pull_after = Some (flow_state [])\<rparr>"

definition flow_destroy_provenance :: plan_provenance where
  "flow_destroy_provenance = destroy_provenance sample_external flow_request flow_world (''engine'', ''1.9.8'') ''material''
     \<lparr>ps_managed = [], ps_names = [], ps_serial = 7, ps_lineage = ''l-1''\<rparr> ''destroy plan''"

definition flow_create_request :: create_request where
  "flow_create_request = \<lparr>cr_generation = ''g'', cr_pinned_artifact = ''artifact'', cr_shape = sample_shape, cr_sink = True\<rparr>"

definition flow_create_world :: create_world where
  "flow_create_world = \<lparr>cw_contract = Inr \<lparr>has_container_bootstrap = True, has_forgejo_vm = False, has_gitlab_vm = False\<rparr>,
     cw_container_profile = True, cw_material = Some ''material'', cw_prepared = False, cw_fresh = True,
     cw_materialized = True, cw_installed = True, cw_backend1 = True, cw_workspace1 = Some ''material'',
     cw_flow = Inr (''engine'', ''1.9.8''), cw_init = True, cw_init_backend = True, cw_tfvars = Some ''input'',
     cw_existing = None, cw_staged = True, cw_persist = Persisted, cw_ssh = True, cw_planned = True,
     cw_plan_json = Some (sample_plan_doc ''create'' [] []), cw_state_list = Some [], cw_bootstrap_plan = Inr (),
     cw_plan_bytes = Some ''create plan'', cw_workspace2 = Some ''material'', cw_attempt = ''a0'',
     cw_apply = flow_apply ''create plan'', cw_state_list_again = Some [], cw_backend2 = True,
     cw_outputs = Some (JObject [(''shaula_result'', JObject [(''value'', JString ''result'')])]),
     cw_envelope = (\<lambda>_. True), cw_envelope_valid = (\<lambda>_. True), cw_pull = Some (flow_state [flow_instance]),
     cw_boot_workspace = Some ''material'', cw_boot_input = Some ''input'', cw_boot_authorized = True,
     cw_boot_launch = Some (Inr ()), cw_boot_ended = True\<rparr>"

definition flow_create_provenance :: plan_provenance where
  "flow_create_provenance = create_provenance sample_external flow_create_request flow_create_world (''engine'', ''1.9.8'')
     ''material'' (flow_digest ''input'') ''create plan''"


lemma destroy_deletes_only_own_witness:
  "\<exists>c. managed_change c \<and> plain_change c ''delete'' \<and> refreshed_name c = Some ''runner-1''"
proof -
  have "starts flow_destroy_provenance (destroy_flow sample_external True flow_request flow_world)"
    by code_simp
  moreover have l: "live_instances (flow_state [flow_instance]) = [(hd (members (flow_state [flow_instance]) ''resources''), flow_instance)]"
    by code_simp
  moreover have n: "live_name flow_instance = Some ''runner-1''"
    by code_simp
  moreover have c: "sample_change ''delete'' \<in> set (plan_changes (sample_plan_doc ''delete'' [sample_resource] []))"
    "managed_change (sample_change ''delete'')"
    by (simp_all add: plan_changes_def elements_def get_array_def sample_plan_doc_def managed_change_def sample_change_def
        get_str_def)
  ultimately show ?thesis
    using destroy_deletes_only_own [of flow_destroy_provenance sample_external True flow_request flow_world]
    by (intro exI [of _ "sample_change ''delete''"]) (auto simp: flow_world_def)
qed

lemma destroy_outcomes_witness:
  "snd (destroy_flow sample_external True flow_request flow_world) = Inr Applied
   \<and> live_instances (flow_state []) = []"
proof -
  have r: "snd (destroy_flow sample_external True flow_request flow_world) = Inr Applied" by code_simp
  from destroy_outcomes [OF r] r show ?thesis by (auto simp: flow_world_def)
qed


end
