(* ===== verification/Ledger.thy ===== *)
theory Ledger
  imports Lifecycle Sample_External
begin

text \<open>
  The tables of the control plane that hold the runner ledger
  (\<open>crates/shaula-store/src/entities/lifecycle.rs\<close>, \<open>entities/http_state.rs\<close>, and of
  \<open>entities/fleet.rs\<close> what the ledger reads), with the constraints of the migrations
  \<open>m0004\<close>, \<open>m0007\<close> and \<open>m0027\<close>, and the generation and operation rows of
  \<open>lifecycle_repo.rs\<close>, \<open>lifecycle_forgejo.rs\<close>, \<open>jobs/scope.rs\<close> and \<open>registry_impl/runner_lifetime.rs\<close>.

  A table is the association list of its rows by primary key.  A transaction is a function from the
  ledger to an error or a result with the new ledger: an error rolls everything back, and a write
  that violates a CHECK, UNIQUE, PRIMARY KEY or FOREIGN KEY constraint is such an error.  That the
  database itself fails is the flag of \<open>run\<close>: then nothing is written and the caller sees the
  error of an unavailable database.
\<close>

section \<open>Rows\<close>

record generation_row =
  gen_fleet_key :: string
  gen_runner_name :: string
  gen_generation_name :: string
  gen_fleet_revision :: int
  gen_template_profile_key :: string
  gen_template_revision :: int
  gen_template_artifact_digest :: string
  gen_attestation_id :: string
  gen_inputs_digest :: string
  gen_state :: string
  gen_subphase :: "string option"
  gen_jit_phase :: "string option"
  gen_github_runner_id :: "int option"
  gen_pool_member_key :: "string option"
  gen_workspace_path :: string
  gen_result_json :: "string option"
  gen_result_digest :: "string option"
  gen_provisioned_at :: "int option"
  gen_expiry_requested_at :: "int option"
  gen_resources_destroyed_at :: "int option"
  gen_failed_create_identity :: "string option"
  gen_created_at :: int
  gen_updated_at :: int

record operation_row =
  op_generation_id :: string
  op_kind :: string
  op_state :: string
  op_attempts :: int
  op_next_retry_at :: "int option"
  op_saved_plan_path :: "string option"
  op_saved_plan_digest :: "string option"
  op_provenance_json :: "string option"
  op_lease_owner :: "string option"
  op_lease_expires_at :: "int option"
  op_created_at :: int
  op_updated_at :: int

record fleet_row =
  fleet_incarnation :: string
  fleet_desired_revision :: int
  fleet_mutation_fence :: int
  fleet_deletion_marker :: bool
  fleet_tombstone :: bool

record state_row =
  st_worker_epoch :: int
  st_worker_attempt :: string
  st_capability_hash :: string
  st_revoked :: bool
  st_create_started :: bool
  st_sealed :: bool
  st_revision :: int
  st_state_bytes :: "string option"
  st_lineage :: "string option"
  st_serial :: "int option"
  st_lock_id :: "string option"
  st_lock_info :: "string option"

record worker_row =
  wk_control_hash :: string
  wk_phase :: worker_phase
  wk_process_identity :: "string option"
  wk_cleanup_only :: bool
  wk_handover :: "string option"
  wk_active_command :: "string option"
  wk_cleanup_revision :: "int option"
  wk_protected_input :: "string option"
  wk_resource_state_seen :: bool
  wk_completion_request :: "string option"
  wk_completion_receipt :: "string option"
  wk_workspace_reaped :: bool

record fence_row =
  fence_generation_id :: string
  fence_worker_epoch :: int
  fence_process_identity :: "string option"
  fence_orphan_lock :: "string option"
  fence_confirmed :: bool
  fence_outcome :: string

record deployment_row =
  dep_format_version :: int
  dep_migration_required :: bool
  dep_activated :: bool

record identity_row =
  ident_scope_key :: string
  ident_fleet_incarnation :: string
  ident_github_runner_id :: "int option"

text \<open>
  \<open>fleet_revisions\<close> by fleet and revision (incarnation, specification), \<open>template_profile_revisions\<close>
  by profile and revision (artifact digest, manifest), \<open>scale_set_state\<close> (identifier, state),
  \<open>fleet_auth_contexts\<close> (observed context), and the in-memory credential handoff of
  \<open>WorkerAdmissions\<close>.
\<close>

record ledger =
  db_generations :: "(string \<times> generation_row) list"
  db_operations :: "(string \<times> operation_row) list"
  db_fleets :: "(string \<times> fleet_row) list"
  db_fleet_revisions :: "((string \<times> int) \<times> (string \<times> string)) list"
  db_template_revisions :: "((string \<times> int) \<times> (string \<times> string option)) list"
  db_scale_sets :: "(string \<times> (int option \<times> string)) list"
  db_auth_contexts :: "(string \<times> string option) list"
  db_identities :: "(string \<times> identity_row) list"
  db_forgejo :: "(string \<times> (int \<times> string)) list"
  db_states :: "(string \<times> state_row) list"
  db_workers :: "(string \<times> worker_row) list"
  db_fences :: "(string \<times> fence_row) list"
  db_deployment :: "deployment_row option"
  mem_pending :: "(string \<times> worker_admission) list"

section \<open>Transactions\<close>

definition run :: "'e \<Rightarrow> bool \<Rightarrow> (ledger \<Rightarrow> 'e + 'a \<times> ledger) \<Rightarrow> ledger \<Rightarrow> ('e + 'a) \<times> ledger" where
  "run unavailable io tx db =
     (if \<not> io then (Inl unavailable, db)
      else case tx db of Inl e \<Rightarrow> (Inl e, db) | Inr (x, db') \<Rightarrow> (Inr x, db'))"

definition guard :: "'e \<Rightarrow> bool \<Rightarrow> 'e + unit" where
  "guard e b = (if b then Inr () else Inl e)"

lemma guard_Inr [simp, result_simps]: "guard e b = Inr u \<longleftrightarrow> b"
  by (simp add: guard_def)

definition state_of :: "ledger \<Rightarrow> string \<Rightarrow> state_row option" where
  "state_of db i = map_of (db_states db) i"

definition worker_of :: "ledger \<Rightarrow> string \<Rightarrow> worker_row option" where
  "worker_of db i = map_of (db_workers db) i"

definition generation_of :: "ledger \<Rightarrow> string \<Rightarrow> generation_row option" where
  "generation_of db i = map_of (db_generations db) i"

definition fence_of :: "ledger \<Rightarrow> string \<Rightarrow> fence_row option" where
  "fence_of db a = map_of (db_fences db) a"

definition fleet_of :: "ledger \<Rightarrow> string \<Rightarrow> fleet_row option" where
  "fleet_of db k = map_of (db_fleets db) k"

text \<open>The CHECK constraints of \<open>generation_http_state\<close> and \<open>lifecycle_workers\<close>.\<close>

definition state_check :: "state_row \<Rightarrow> bool" where
  "state_check r \<longleftrightarrow>
     0 < st_worker_epoch r \<and> length (st_capability_hash r) = 32 \<and> 0 \<le> st_revision r
     \<and> (case st_serial r of None \<Rightarrow> True | Some n \<Rightarrow> 0 \<le> n)
     \<and> (st_lock_id r = None \<longleftrightarrow> st_lock_info r = None)
     \<and> ((st_revision r = 0 \<and> st_state_bytes r = None \<and> st_lineage r = None \<and> st_serial r = None)
        \<or> (0 < st_revision r \<and> st_state_bytes r \<noteq> None \<and> st_lineage r \<noteq> None \<and> st_serial r \<noteq> None))
     \<and> (\<not> st_sealed r \<or> (0 < st_revision r \<and> st_lock_id r = None))"

definition worker_check :: "worker_row \<Rightarrow> bool" where
  "worker_check w \<longleftrightarrow>
     length (wk_control_hash w) = 32
     \<and> (wk_completion_request w = None \<longleftrightarrow> wk_completion_receipt w = None)
     \<and> (wk_phase w = PhaseCompleted \<longleftrightarrow> wk_completion_receipt w \<noteq> None)"

text \<open>
  \<open>UPDATE ... SET f WHERE generation_id = id AND p\<close>: the number of rows and the new ledger, or the
  error of a violated constraint.
\<close>

definition update_state :: "string \<Rightarrow> (state_row \<Rightarrow> bool) \<Rightarrow> (state_row \<Rightarrow> state_row) \<Rightarrow> ledger
    \<Rightarrow> state_error + nat \<times> ledger" where
  "update_state i p f db =
     (case state_of db i of
        None \<Rightarrow> Inr (0, db)
      | Some r \<Rightarrow>
          if \<not> p r then Inr (0, db)
          else if \<not> state_check (f r) then Inl Unavailable
          else Inr (1, db\<lparr>db_states := AList.update i (f r) (db_states db)\<rparr>))"

definition update_worker :: "string \<Rightarrow> (worker_row \<Rightarrow> bool) \<Rightarrow> (worker_row \<Rightarrow> worker_row) \<Rightarrow> ledger
    \<Rightarrow> state_error + nat \<times> ledger" where
  "update_worker i p f db =
     (case worker_of db i of
        None \<Rightarrow> Inr (0, db)
      | Some w \<Rightarrow>
          if \<not> p w then Inr (0, db)
          else if \<not> worker_check (f w) then Inl Unavailable
          else Inr (1, db\<lparr>db_workers := AList.update i (f w) (db_workers db)\<rparr>))"

definition update_generation :: "string \<Rightarrow> (generation_row \<Rightarrow> bool) \<Rightarrow> (generation_row \<Rightarrow> generation_row)
    \<Rightarrow> ledger \<Rightarrow> ledger" where
  "update_generation i p f db =
     (case generation_of db i of
        None \<Rightarrow> db
      | Some g \<Rightarrow> if p g then db\<lparr>db_generations := AList.update i (f g) (db_generations db)\<rparr> else db)"

definition exactly_one :: "nat \<times> ledger \<Rightarrow> state_error + ledger" where
  "exactly_one r = (if fst r = 1 then Inr (snd r) else Inl Conflict)"

text \<open>The UPDATE followed by \<open>exactly_one(result.rows_affected)?\<close>.\<close>

definition update_one_state :: "string \<Rightarrow> (state_row \<Rightarrow> bool) \<Rightarrow> (state_row \<Rightarrow> state_row) \<Rightarrow> ledger
    \<Rightarrow> state_error + ledger" where
  "update_one_state i p f db = and_then (update_state i p f db) exactly_one"

definition update_one_worker :: "string \<Rightarrow> (worker_row \<Rightarrow> bool) \<Rightarrow> (worker_row \<Rightarrow> worker_row) \<Rightarrow> ledger
    \<Rightarrow> state_error + ledger" where
  "update_one_worker i p f db = and_then (update_worker i p f db) exactly_one"

text \<open>\<open>set_worker\<close>: an unconditional write of the columns of one worker row.\<close>

definition set_worker :: "string \<Rightarrow> (worker_row \<Rightarrow> worker_row) \<Rightarrow> ledger \<Rightarrow> state_error + ledger" where
  "set_worker i f db = map_ok snd (update_worker i (\<lambda>_. True) f db)"

definition set_state :: "string \<Rightarrow> (state_row \<Rightarrow> state_row) \<Rightarrow> ledger \<Rightarrow> state_error + ledger" where
  "set_state i f db = map_ok snd (update_state i (\<lambda>_. True) f db)"

definition set_generation :: "string \<Rightarrow> (generation_row \<Rightarrow> generation_row) \<Rightarrow> ledger \<Rightarrow> ledger" where
  "set_generation i f db = update_generation i (\<lambda>_. True) f db"

text \<open>\<open>INSERT\<close> with the primary and the foreign keys of the tables.\<close>

definition insert_state :: "string \<Rightarrow> state_row \<Rightarrow> ledger \<Rightarrow> state_error + ledger" where
  "insert_state i r db =
     (if state_of db i \<noteq> None \<or> generation_of db i = None \<or> \<not> state_check r then Inl Unavailable
      else Inr (db\<lparr>db_states := (i, r) # db_states db\<rparr>))"

definition insert_worker :: "string \<Rightarrow> worker_row \<Rightarrow> ledger \<Rightarrow> state_error + ledger" where
  "insert_worker i w db =
     (if worker_of db i \<noteq> None \<or> state_of db i = None \<or> \<not> worker_check w then Inl Unavailable
      else Inr (db\<lparr>db_workers := (i, w) # db_workers db\<rparr>))"

definition insert_fence :: "string \<Rightarrow> fence_row \<Rightarrow> ledger \<Rightarrow> state_error + ledger" where
  "insert_fence a f db =
     (if fence_of db a \<noteq> None then Inl Unavailable
      else Inr (db\<lparr>db_fences := (a, f) # db_fences db\<rparr>))"

section \<open>Lookups after writes\<close>

lemma lookups_states [simp]:
  "state_of (db\<lparr>db_states := x\<rparr>) i = map_of x i"
  "worker_of (db\<lparr>db_states := x\<rparr>) i = worker_of db i"
  "generation_of (db\<lparr>db_states := x\<rparr>) i = generation_of db i"
  "fence_of (db\<lparr>db_states := x\<rparr>) a = fence_of db a"
  "fleet_of (db\<lparr>db_states := x\<rparr>) i = fleet_of db i"
  by (simp_all add: state_of_def worker_of_def generation_of_def fence_of_def fleet_of_def)

lemma lookups_workers [simp]:
  "state_of (db\<lparr>db_workers := x\<rparr>) i = state_of db i"
  "worker_of (db\<lparr>db_workers := x\<rparr>) i = map_of x i"
  "generation_of (db\<lparr>db_workers := x\<rparr>) i = generation_of db i"
  "fence_of (db\<lparr>db_workers := x\<rparr>) a = fence_of db a"
  "fleet_of (db\<lparr>db_workers := x\<rparr>) i = fleet_of db i"
  by (simp_all add: state_of_def worker_of_def generation_of_def fence_of_def fleet_of_def)

lemma lookups_generations [simp]:
  "state_of (db\<lparr>db_generations := x\<rparr>) i = state_of db i"
  "worker_of (db\<lparr>db_generations := x\<rparr>) i = worker_of db i"
  "generation_of (db\<lparr>db_generations := x\<rparr>) i = map_of x i"
  "fence_of (db\<lparr>db_generations := x\<rparr>) a = fence_of db a"
  "fleet_of (db\<lparr>db_generations := x\<rparr>) i = fleet_of db i"
  by (simp_all add: state_of_def worker_of_def generation_of_def fence_of_def fleet_of_def)

lemma lookups_others [simp]:
  "state_of (db\<lparr>db_fences := f\<rparr>) i = state_of db i"
  "worker_of (db\<lparr>db_fences := f\<rparr>) i = worker_of db i"
  "generation_of (db\<lparr>db_fences := f\<rparr>) i = generation_of db i"
  "fence_of (db\<lparr>db_fences := f\<rparr>) a = map_of f a"
  "state_of (db\<lparr>db_operations := os\<rparr>) i = state_of db i"
  "worker_of (db\<lparr>db_operations := os\<rparr>) i = worker_of db i"
  "generation_of (db\<lparr>db_operations := os\<rparr>) i = generation_of db i"
  "fence_of (db\<lparr>db_operations := os\<rparr>) a = fence_of db a"
  "state_of (db\<lparr>db_identities := ids\<rparr>) i = state_of db i"
  "worker_of (db\<lparr>db_identities := ids\<rparr>) i = worker_of db i"
  "generation_of (db\<lparr>db_identities := ids\<rparr>) i = generation_of db i"
  "fence_of (db\<lparr>db_identities := ids\<rparr>) a = fence_of db a"
  "state_of (db\<lparr>db_forgejo := fj\<rparr>) i = state_of db i"
  "worker_of (db\<lparr>db_forgejo := fj\<rparr>) i = worker_of db i"
  "generation_of (db\<lparr>db_forgejo := fj\<rparr>) i = generation_of db i"
  "fence_of (db\<lparr>db_forgejo := fj\<rparr>) a = fence_of db a"
  "state_of (db\<lparr>mem_pending := ps\<rparr>) i = state_of db i"
  "worker_of (db\<lparr>mem_pending := ps\<rparr>) i = worker_of db i"
  "generation_of (db\<lparr>mem_pending := ps\<rparr>) i = generation_of db i"
  "fence_of (db\<lparr>mem_pending := ps\<rparr>) a = fence_of db a"
  "state_of (db\<lparr>db_deployment := d\<rparr>) i = state_of db i"
  "worker_of (db\<lparr>db_deployment := d\<rparr>) i = worker_of db i"
  "generation_of (db\<lparr>db_deployment := d\<rparr>) i = generation_of db i"
  "fence_of (db\<lparr>db_deployment := d\<rparr>) a = fence_of db a"
  by (simp_all add: state_of_def worker_of_def generation_of_def fence_of_def)

lemma map_of_update [simp]: "map_of (AList.update k v al) i = (if i = k then Some v else map_of al i)"
  by (simp add: update_conv')

text \<open>The table an update leaves behind, in one rewriting step.\<close>

definition put_state :: "string \<Rightarrow> state_row \<Rightarrow> ledger \<Rightarrow> ledger" where
  "put_state i r db = db\<lparr>db_states := AList.update i r (db_states db)\<rparr>"

definition put_worker :: "string \<Rightarrow> worker_row \<Rightarrow> ledger \<Rightarrow> ledger" where
  "put_worker i w db = db\<lparr>db_workers := AList.update i w (db_workers db)\<rparr>"

lemma lookups_put [simp]:
  "state_of (put_state i r db) j = (if j = i then Some r else state_of db j)"
  "worker_of (put_state i r db) j = worker_of db j"
  "generation_of (put_state i r db) j = generation_of db j"
  "fence_of (put_state i r db) a = fence_of db a"
  "db_operations (put_state i r db) = db_operations db"
  "db_generations (put_state i r db) = db_generations db"
  "mem_pending (put_state i r db) = mem_pending db"
  "state_of (put_worker i w db) j = state_of db j"
  "worker_of (put_worker i w db) j = (if j = i then Some w else worker_of db j)"
  "generation_of (put_worker i w db) j = generation_of db j"
  "fence_of (put_worker i w db) a = fence_of db a"
  "db_operations (put_worker i w db) = db_operations db"
  "db_generations (put_worker i w db) = db_generations db"
  "mem_pending (put_worker i w db) = mem_pending db"
  by (simp_all add: put_state_def put_worker_def state_of_def worker_of_def generation_of_def fence_of_def)

lemma update_one_state_Inr [result_simps]:
  "update_one_state i p f db = Inr db' \<longleftrightarrow>
     (\<exists>r. state_of db i = Some r \<and> p r \<and> state_check (f r) \<and> db' = put_state i (f r) db)"
  by (auto simp: update_one_state_def update_state_def exactly_one_def put_state_def split: option.splits)

lemma update_one_worker_Inr [result_simps]:
  "update_one_worker i p f db = Inr db' \<longleftrightarrow>
     (\<exists>w. worker_of db i = Some w \<and> p w \<and> worker_check (f w) \<and> db' = put_worker i (f w) db)"
  by (auto simp: update_one_worker_def update_worker_def exactly_one_def put_worker_def split: option.splits)

lemma set_state_Inr [result_simps]:
  "set_state i f db = Inr db' \<longleftrightarrow>
     (case state_of db i of None \<Rightarrow> db' = db | Some r \<Rightarrow> state_check (f r) \<and> db' = put_state i (f r) db)"
  by (auto simp: set_state_def update_state_def map_ok_def put_state_def split: option.splits)

lemma set_worker_Inr [result_simps]:
  "set_worker i f db = Inr db' \<longleftrightarrow>
     (case worker_of db i of None \<Rightarrow> db' = db | Some w \<Rightarrow> worker_check (f w) \<and> db' = put_worker i (f w) db)"
  by (auto simp: set_worker_def update_worker_def map_ok_def put_worker_def split: option.splits)

lemma update_generation_other [simp]:
  "state_of (update_generation i p f db) j = state_of db j"
  "worker_of (update_generation i p f db) j = worker_of db j"
  "fence_of (update_generation i p f db) a = fence_of db a"
  "db_operations (update_generation i p f db) = db_operations db"
  "mem_pending (update_generation i p f db) = mem_pending db"
  by (simp_all add: update_generation_def split: option.splits)

lemma generation_of_update [simp]:
  "generation_of (update_generation i p f db) j =
     (if j = i then map_option (\<lambda>g. if p g then f g else g) (generation_of db i) else generation_of db j)"
  by (auto simp: update_generation_def generation_of_def split: option.splits)

lemma set_generation_simps [simp]:
  "state_of (set_generation i f db) j = state_of db j"
  "worker_of (set_generation i f db) j = worker_of db j"
  "fence_of (set_generation i f db) a = fence_of db a"
  "db_operations (set_generation i f db) = db_operations db"
  "mem_pending (set_generation i f db) = mem_pending db"
  "generation_of (set_generation i f db) j =
     (if j = i then map_option f (generation_of db i) else generation_of db j)"
  by (simp_all add: set_generation_def)

lemma insert_state_Inr [result_simps]:
  "insert_state i r db = Inr db' \<longleftrightarrow>
     state_of db i = None \<and> generation_of db i \<noteq> None \<and> state_check r
     \<and> db' = db\<lparr>db_states := (i, r) # db_states db\<rparr>"
  by (auto simp: insert_state_def)

lemma insert_worker_Inr [result_simps]:
  "insert_worker i w db = Inr db' \<longleftrightarrow>
     worker_of db i = None \<and> state_of db i \<noteq> None \<and> worker_check w
     \<and> db' = db\<lparr>db_workers := (i, w) # db_workers db\<rparr>"
  by (auto simp: insert_worker_def)

lemma insert_fence_Inr [result_simps]:
  "insert_fence a f db = Inr db' \<longleftrightarrow> fence_of db a = None \<and> db' = db\<lparr>db_fences := (a, f) # db_fences db\<rparr>"
  by (auto simp: insert_fence_def)

lemma map_of_states: "map_of (db_states db) = state_of db"
  by (rule ext) (simp add: state_of_def)

lemma map_of_workers: "map_of (db_workers db) = worker_of db"
  by (rule ext) (simp add: worker_of_def)

lemma map_of_generations: "map_of (db_generations db) = generation_of db"
  by (rule ext) (simp add: generation_of_def)

lemma map_of_fences: "map_of (db_fences db) = fence_of db"
  by (rule ext) (simp add: fence_of_def)

end
