(* ===== verification/Generations.thy ===== *)
theory Generations
  imports Ledger Capacity
begin

text \<open>
  Generation and operation rows: \<open>crates/shaula-store/src/lifecycle_repo.rs\<close>,
  \<open>lifecycle_forgejo.rs\<close>, \<open>generation_counts.rs\<close> (the fleet counters), \<open>jobs/scope.rs\<close> (the scope
  snapshot of a generation), \<open>registry_impl/runner_lifetime.rs\<close> with \<open>is_due\<close> of
  \<open>shaula-core/src/runner_lifetime.rs\<close>, and \<open>map_generation\<close> of \<open>lifecycle_support.rs\<close>.

  Error texts keep their fixed words; interpolated values are left out.  Setting a runner identifier
  also refreshes job projections (\<open>refresh_runner_jobs\<close>), which are rows outside this ledger.
\<close>

datatype store_error =
  StoreUnavailable | StoreConflict string | StorePolicyDenied string | StoreCorrupt string

definition core_of_store :: "store_error \<Rightarrow> core_error" where
  "core_of_store e = (case e of
     StoreCorrupt text \<Rightarrow> core_error_new StorageCorrupt text
   | StoreUnavailable \<Rightarrow> core_error_new StorageUnavailable ''database unavailable''
   | StoreConflict _ \<Rightarrow> core_error_new StorageUnavailable ''conflicting concurrent write''
   | StorePolicyDenied _ \<Rightarrow> core_error_new StorageUnavailable ''policy denied'')"

record generation_record =
  grec_id :: string
  grec_fleet_key :: string
  grec_runner_name :: string
  grec_generation_name :: string
  grec_fleet_revision :: int
  grec_template_profile_key :: string
  grec_pool_member_key :: "string option"
  grec_template_revision :: int
  grec_template_artifact_digest :: string
  grec_attestation_id :: string
  grec_inputs_digest :: string
  grec_state :: generation_state
  grec_github_runner_id :: "int option"
  grec_workspace_path :: string
  grec_created_at :: int
  grec_updated_at :: int

record operation_insert =
  oi_id :: string
  oi_generation_id :: string
  oi_kind :: string
  oi_state :: string
  oi_provenance_json :: "string option"
  oi_saved_plan_path :: "string option"
  oi_saved_plan_digest :: "string option"
  oi_now :: int

section \<open>Generations\<close>

definition scope_key :: "external \<Rightarrow> string \<Rightarrow> string \<Rightarrow> int \<Rightarrow> resolved_auth_context \<Rightarrow> string" where
  "scope_key E fleet incarnation i auth =
     hex_encode E (sha256 E (scope_json E fleet incarnation i
       (to_ascii_lowercase (ctx_github_host auth)) (to_ascii_lowercase (config_url (ctx_target auth)))
       (ctx_account_id auth) (ctx_organization_id auth) (ctx_repository_id auth)))"

text \<open>The inner joins of \<open>jobs_snapshot_generation\<close>; \<open>ON CONFLICT DO NOTHING\<close> keeps an old row.\<close>

definition jobs_snapshot_generation :: "external \<Rightarrow> string \<Rightarrow> string \<Rightarrow> int \<Rightarrow> ledger \<Rightarrow> store_error + ledger" where
  "jobs_snapshot_generation E generation fleet revision db =
     (case (fleet_of db fleet, map_of (db_fleet_revisions db) (fleet, revision),
            map_of (db_scale_sets db) fleet, map_of (db_auth_contexts db) fleet) of
        (Some f, Some (incarnation, _), Some (Some i, st), Some (Some text)) \<Rightarrow>
          if incarnation = fleet_incarnation f \<and> st = ''Adopted'' then
            (case decode_auth_context E text of
               None \<Rightarrow> Inl (StoreCorrupt ''job metadata cannot be decoded'')
             | Some auth \<Rightarrow>
                 if map_of (db_identities db) generation \<noteq> None then Inr db
                 else Inr (db\<lparr>db_identities := (generation,
                   \<lparr>ident_scope_key = scope_key E fleet incarnation i auth,
                    ident_fleet_incarnation = incarnation, ident_github_runner_id = None\<rparr>) # db_identities db\<rparr>))
          else Inr db
      | _ \<Rightarrow> Inr db)"

definition new_generation_row :: "generation_record \<Rightarrow> generation_row" where
  "new_generation_row record =
     \<lparr>gen_fleet_key = grec_fleet_key record, gen_runner_name = grec_runner_name record,
      gen_generation_name = grec_generation_name record, gen_fleet_revision = grec_fleet_revision record,
      gen_template_profile_key = grec_template_profile_key record,
      gen_template_revision = grec_template_revision record,
      gen_template_artifact_digest = grec_template_artifact_digest record,
      gen_attestation_id = grec_attestation_id record, gen_inputs_digest = grec_inputs_digest record,
      gen_state = ''CreatePending'', gen_subphase = None, gen_jit_phase = None,
      gen_github_runner_id = None, gen_pool_member_key = grec_pool_member_key record,
      gen_workspace_path = grec_workspace_path record, gen_result_json = None, gen_result_digest = None,
      gen_provisioned_at = None, gen_expiry_requested_at = None, gen_resources_destroyed_at = None,
      gen_failed_create_identity = None, gen_created_at = grec_created_at record,
      gen_updated_at = grec_created_at record\<rparr>"

definition generation_insert_on :: "external \<Rightarrow> generation_record \<Rightarrow> ledger \<Rightarrow> store_error + ledger" where
  "generation_insert_on E record db =
     (if generation_of db (grec_id record) \<noteq> None
         \<or> list_ex (\<lambda>(_, g). gen_fleet_key g = grec_fleet_key record
              \<and> gen_runner_name g = grec_runner_name record) (db_generations db)
      then Inl StoreUnavailable
      else jobs_snapshot_generation E (grec_id record) (grec_fleet_key record) (grec_fleet_revision record)
             (db\<lparr>db_generations := (grec_id record, new_generation_row record) # db_generations db\<rparr>))"

definition map_generation :: "string \<Rightarrow> generation_row \<Rightarrow> generation_record" where
  "map_generation i g =
     \<lparr>grec_id = i, grec_fleet_key = gen_fleet_key g, grec_runner_name = gen_runner_name g,
      grec_generation_name = gen_generation_name g, grec_fleet_revision = gen_fleet_revision g,
      grec_template_profile_key = gen_template_profile_key g, grec_pool_member_key = gen_pool_member_key g,
      grec_template_revision = gen_template_revision g,
      grec_template_artifact_digest = gen_template_artifact_digest g,
      grec_attestation_id = gen_attestation_id g, grec_inputs_digest = gen_inputs_digest g,
      grec_state = (case from_str_repr (gen_state g) of Inl _ \<Rightarrow> Quarantined | Inr s \<Rightarrow> s),
      grec_github_runner_id = gen_github_runner_id g, grec_workspace_path = gen_workspace_path g,
      grec_created_at = gen_created_at g, grec_updated_at = gen_updated_at g\<rparr>"

text \<open>\<open>Store::generation_advance\<close>: the state machine at the persistence boundary.\<close>

definition store_generation_advance ::
  "string \<Rightarrow> generation_state \<Rightarrow> string option \<Rightarrow> int \<Rightarrow> ledger \<Rightarrow> store_error + unit \<times> ledger" where
  "store_generation_advance i nxt subphase now db =
     and_then (ok_or (StoreCorrupt ''generation missing'') (generation_of db i)) (\<lambda>row.
     and_then (map_err StoreCorrupt (from_str_repr (gen_state row))) (\<lambda>current.
     and_then (map_err StoreConflict (advance current nxt)) (\<lambda>_.
     Inr ((), set_generation i (\<lambda>g. g\<lparr>gen_state := as_str_repr nxt, gen_subphase := subphase,
                                      gen_updated_at := now\<rparr>) db))))"

definition jobs_register_runner_on :: "string \<Rightarrow> int \<Rightarrow> ledger \<Rightarrow> ledger" where
  "jobs_register_runner_on generation runner db =
     (case map_of (db_identities db) generation of
        None \<Rightarrow> db
      | Some r \<Rightarrow>
          if ident_github_runner_id r = None \<or> ident_github_runner_id r = Some runner
          then db\<lparr>db_identities := AList.update generation (r\<lparr>ident_github_runner_id := Some runner\<rparr>) (db_identities db)\<rparr>
          else db)"

definition generation_set_jit ::
  "string \<Rightarrow> string \<Rightarrow> int option \<Rightarrow> int \<Rightarrow> ledger \<Rightarrow> store_error + unit \<times> ledger" where
  "generation_set_jit i phase runner now db =
     and_then (ok_or (StoreCorrupt ''generation missing'') (generation_of db i)) (\<lambda>row.
     if runner \<noteq> None \<and> map_of (db_forgejo db) i \<noteq> None
     then Inl (StoreConflict ''generation already has a Forgejo runner identity'')
     else if (case (gen_github_runner_id row, runner) of (Some saved, Some incoming) \<Rightarrow> saved \<noteq> incoming | _ \<Rightarrow> False)
     then Inl (StoreConflict ''generation runner identity changed'')
     else let db1 = set_generation i (\<lambda>g. g\<lparr>gen_jit_phase := Some phase,
                gen_github_runner_id := (case runner of None \<Rightarrow> gen_github_runner_id g | Some r \<Rightarrow> Some r),
                gen_updated_at := now\<rparr>) db in
          Inr ((), case runner of None \<Rightarrow> db1 | Some r \<Rightarrow> jobs_register_runner_on i r db1))"

definition generation_set_result ::
  "string \<Rightarrow> string \<Rightarrow> string \<Rightarrow> int \<Rightarrow> ledger \<Rightarrow> store_error + unit \<times> ledger" where
  "generation_set_result i result_json digest now db =
     and_then (ok_or (StoreCorrupt ''generation missing'') (generation_of db i)) (\<lambda>row.
     Inr ((), set_generation i (\<lambda>g. g\<lparr>gen_result_json := Some result_json, gen_result_digest := Some digest,
        gen_provisioned_at := Some (case gen_provisioned_at row of None \<Rightarrow> now | Some t \<Rightarrow> t),
        gen_updated_at := now\<rparr>) db))"

definition spec_is_forgejo :: "external \<Rightarrow> string \<Rightarrow> bool" where
  "spec_is_forgejo E text = (decode_fleet_kind E text = Some ForgejoFleet)"

definition generation_set_forgejo_runner ::
  "external \<Rightarrow> string \<Rightarrow> int \<Rightarrow> string \<Rightarrow> ledger \<Rightarrow> store_error + unit \<times> ledger" where
  "generation_set_forgejo_runner E i runner uuid db =
     (if runner \<le> 0 \<or> trim uuid = [] \<or> length uuid > 128 \<or> has_control uuid
      then Inl (StoreCorrupt ''invalid Forgejo runner identity'')
      else and_then (ok_or (StoreCorrupt ''generation missing'') (generation_of db i)) (\<lambda>g.
        if \<not> (case map_of (db_fleet_revisions db) (gen_fleet_key g, gen_fleet_revision g) of
                 None \<Rightarrow> False | Some (_, spec) \<Rightarrow> spec_is_forgejo E spec)
        then Inl (StoreConflict ''generation is not a Forgejo generation'')
        else if gen_github_runner_id g \<noteq> None
        then Inl (StoreConflict ''generation already has a GitHub runner identity'')
        else (case map_of (db_forgejo db) i of
            Some (r, u) \<Rightarrow>
              if r \<noteq> runner \<or> u \<noteq> uuid then Inl (StoreConflict ''generation Forgejo runner identity changed'')
              else Inr ((), db)
          | None \<Rightarrow> Inr ((), db\<lparr>db_forgejo := (i, (runner, uuid)) # db_forgejo db\<rparr>))))"

text \<open>
  The stored identity of the Create: the result envelope, or else the anchor of a failed Create.
\<close>

definition generation_state_identity ::
  "external \<Rightarrow> string \<Rightarrow> ledger \<Rightarrow> store_error + (string \<times> nat) option" where
  "generation_state_identity E i db =
     (case generation_of db i of
        None \<Rightarrow> Inr None
      | Some row \<Rightarrow>
          (case (case gen_result_json row of Some t \<Rightarrow> Some t | None \<Rightarrow> gen_failed_create_identity row) of
             None \<Rightarrow> Inr None
           | Some text \<Rightarrow>
               and_then (ok_or (StoreCorrupt ''generation result unreadable'') (parse_json E text)) (\<lambda>value0.
               Inr (case (get_str value0 ''state_lineage'', Option.bind (get value0 ''state_serial'') as_u64) of
                      (Some lineage, Some serial) \<Rightarrow> if lineage \<noteq> [] then Some (lineage, serial) else None
                    | _ \<Rightarrow> None))))"

section \<open>Operations\<close>

definition generation_destroy_attempted :: "string \<Rightarrow> ledger \<Rightarrow> bool" where
  "generation_destroy_attempted i db =
     list_ex (\<lambda>(_, r). op_generation_id r = i \<and> op_kind r = ''Destroy'') (db_operations db)"

definition operation_insert_on :: "operation_insert \<Rightarrow> ledger \<Rightarrow> store_error + ledger" where
  "operation_insert_on ins db =
     (if map_of (db_operations db) (oi_id ins) \<noteq> None then Inl StoreUnavailable
      else Inr (db\<lparr>db_operations := (oi_id ins,
        \<lparr>op_generation_id = oi_generation_id ins, op_kind = oi_kind ins, op_state = oi_state ins,
         op_attempts = 0, op_next_retry_at = None, op_saved_plan_path = oi_saved_plan_path ins,
         op_saved_plan_digest = oi_saved_plan_digest ins, op_provenance_json = oi_provenance_json ins,
         op_lease_owner = None, op_lease_expires_at = None, op_created_at = oi_now ins,
         op_updated_at = oi_now ins\<rparr>) # db_operations db\<rparr>))"

text \<open>\<open>operation_apply_starting_tx\<close>: the outer error is the database, the inner one the fence.\<close>

definition operation_apply_starting_tx ::
  "operation_insert \<Rightarrow> ledger \<Rightarrow> store_error + (string + ledger)" where
  "operation_apply_starting_tx ins db =
     (case generation_of db (oi_generation_id ins) of
        None \<Rightarrow> Inr (Inl ''generation record missing'')
      | Some g \<Rightarrow>
          if oi_kind ins = ''Create'' then
            (case fleet_of db (gen_fleet_key g) of
               None \<Rightarrow> Inr (Inl ''fleet head missing'')
             | Some fleet \<Rightarrow>
                 if fleet_deletion_marker fleet \<or> fleet_tombstone fleet
                    \<or> fleet_desired_revision fleet \<noteq> gen_fleet_revision g
                 then Inr (Inl ''fleet fence moved'')
                 else map_ok Inr (operation_insert_on ins db))
          else map_ok Inr (operation_insert_on ins db))"

definition operation_update_state :: "string \<Rightarrow> string \<Rightarrow> int \<Rightarrow> ledger \<Rightarrow> store_error + unit \<times> ledger" where
  "operation_update_state i st now db =
     and_then (ok_or (StoreCorrupt ''operation missing'') (map_of (db_operations db) i)) (\<lambda>row.
     Inr ((), db\<lparr>db_operations := AList.update i
       (row\<lparr>op_state := st, op_attempts := wrap_i64 (op_attempts row + 1), op_updated_at := now\<rparr>)
       (db_operations db)\<rparr>))"

definition open_operation_states :: "string list" where
  "open_operation_states = [''Pending'', ''Starting'', ''ApplyStarting'', ''BootstrapStarting'', ''Running'', ''Blocked'']"

definition operations_open_for_generation :: "string \<Rightarrow> ledger \<Rightarrow> (string \<times> operation_row) list" where
  "operations_open_for_generation i db =
     filter (\<lambda>(_, r). op_generation_id r = i \<and> op_state r \<in> set open_operation_states) (db_operations db)"

section \<open>Counters\<close>

definition all_states :: "generation_state list" where
  "all_states = [CreatePending, Creating, WaitingOnline, Idle, Busy, Retiring, DestroyPending, Destroying,
     CleanupRequired, Quarantined, Destroyed]"

record generation_counts =
  cnt_effective :: int
  cnt_occupancy :: int
  cnt_quarantined :: int

definition fleet_counts :: "string \<Rightarrow> ledger \<Rightarrow> generation_counts" where
  "fleet_counts fleet db =
     (let rows = filter (\<lambda>g. gen_fleet_key g = fleet) (map snd (db_generations db));
          effective = map as_str_repr (filter counts_effective all_states) in
      \<lparr>cnt_effective = int (length (filter (\<lambda>g. gen_state g \<in> set effective) rows)),
       cnt_occupancy = int (length (filter (\<lambda>g. gen_state g \<noteq> as_str_repr Destroyed) rows)),
       cnt_quarantined = int (length (filter (\<lambda>g. gen_state g = as_str_repr Quarantined) rows))\<rparr>)"

section \<open>The hard lifetime\<close>

record runner_lifetime =
  provisioned_at :: "int option"
  expiry_requested_at :: "int option"
  resources_destroyed_at :: "int option"

text \<open>The configured limit is a duration; \<open>max_ms\<close> is its \<open>as_millis\<close>, a \<open>u128\<close>.\<close>

definition is_due :: "runner_lifetime \<Rightarrow> int \<Rightarrow> nat \<Rightarrow> bool" where
  "is_due l now max_ms \<longleftrightarrow>
     expiry_requested_at l \<noteq> None
     \<or> (case provisioned_at l of None \<Rightarrow> False
        | Some created \<Rightarrow> 0 \<le> saturating_sub now created \<and> int max_ms \<le> saturating_sub now created)"

definition lifetime_missing :: core_error where
  "lifetime_missing = core_error_new StorageCorrupt ''runner lifetime generation missing''"

definition generation_lifetime :: "string \<Rightarrow> ledger \<Rightarrow> runner_lifetime core_result" where
  "generation_lifetime i db =
     map_ok (\<lambda>row. \<lparr>provisioned_at = gen_provisioned_at row,
        expiry_requested_at = gen_expiry_requested_at row,
        resources_destroyed_at = gen_resources_destroyed_at row\<rparr>) (ok_or lifetime_missing (generation_of db i))"

definition expiry_refused :: "generation_row \<Rightarrow> bool" where
  "expiry_refused row \<longleftrightarrow> gen_provisioned_at row = None
     \<or> gen_state row = ''CreatePending'' \<or> gen_state row = ''Quarantined'' \<or> gen_state row = ''Destroyed''"

definition generation_request_expiry :: "string \<Rightarrow> int \<Rightarrow> ledger \<Rightarrow> core_error + bool \<times> ledger" where
  "generation_request_expiry i now db =
     and_then (ok_or lifetime_missing (generation_of db i)) (\<lambda>row.
     if expiry_refused row then Inr (False, db)
     else Inr (True, if gen_expiry_requested_at row = None
                then set_generation i (\<lambda>g. g\<lparr>gen_expiry_requested_at := Some now\<rparr>) db else db))"

definition generation_resources_destroyed :: "string \<Rightarrow> int \<Rightarrow> ledger \<Rightarrow> core_error + unit \<times> ledger" where
  "generation_resources_destroyed i now db =
     and_then (ok_or lifetime_missing (generation_of db i)) (\<lambda>row.
     if gen_expiry_requested_at row = None \<or> gen_state row \<noteq> as_str_repr Destroying
     then Inl (core_error_new OwnershipConflict ''resource cleanup lacks expiry intent'')
     else Inr ((), if gen_resources_destroyed_at row = None
                then set_generation i (\<lambda>g. g\<lparr>gen_resources_destroyed_at := Some now\<rparr>) db else db))"

section \<open>Facts\<close>

lemma as_str_inject: "as_str_repr s = as_str_repr t \<longleftrightarrow> s = t"
  by (metis from_str_as_str sum.inject(2))

lemma set_all_states: "s \<in> set all_states"
  by (cases s) (simp_all add: all_states_def)

text \<open>The state a row is read as: an unknown text is quarantined.\<close>

definition row_state :: "generation_row \<Rightarrow> generation_state" where
  "row_state g = (case from_str_repr (gen_state g) of Inl _ \<Rightarrow> Quarantined | Inr s \<Rightarrow> s)"

lemma state_name_listed: "as_str_repr s \<in> set (map as_str_repr (filter P all_states)) \<longleftrightarrow> P s"
  unfolding set_map set_filter image_iff as_str_inject using set_all_states by blast

lemma row_state_cases:
  obtains s where "gen_state g = as_str_repr s" and "row_state g = s"
  | "\<And>s. gen_state g \<noteq> as_str_repr s" and "row_state g = Quarantined"
proof (cases "from_str_repr (gen_state g)")
  case (Inl e)
  then show thesis
    by (intro that(2)) (auto simp: row_state_def from_str_as_str)
next
  case (Inr s)
  then show thesis
    by (intro that(1) [of s]) (simp_all add: row_state_def as_str_from_str)
qed

lemma row_state_effective:
  "gen_state g \<in> set (map as_str_repr (filter counts_effective all_states)) \<longleftrightarrow> counts_effective (row_state g)"
proof (cases g rule: row_state_cases)
  case (1 s)
  then show ?thesis by (simp only: state_name_listed)
next
  case 2
  then have "gen_state g \<notin> set (map as_str_repr (filter counts_effective all_states))"
    unfolding set_map image_iff by blast
  with 2 show ?thesis by simp
qed

lemma row_state_occupancy:
  "gen_state g \<noteq> as_str_repr Destroyed \<longleftrightarrow> counts_occupancy (row_state g)"
proof (cases g rule: row_state_cases)
  case (1 s)
  have "counts_occupancy s \<longleftrightarrow> s \<noteq> Destroyed" by (cases s) simp_all
  with 1 show ?thesis by (simp only: as_str_inject)
next
  case 2
  have "counts_occupancy Quarantined" by simp
  with 2(1) [of Destroyed] 2(2) show ?thesis by (simp only: simp_thms)
qed

lemma request_expiry_Inr:
  "generation_request_expiry i now db = Inr (b, db') \<longleftrightarrow>
     (\<exists>g. generation_of db i = Some g \<and>
       (if expiry_refused g then \<not> b \<and> db' = db
        else b \<and> db' = (if gen_expiry_requested_at g = None
          then set_generation i (\<lambda>g. g\<lparr>gen_expiry_requested_at := Some now\<rparr>) db else db)))"
proof (cases "generation_of db i")
  case None
  then show ?thesis by (simp add: generation_request_expiry_def ok_or_def)
next
  case (Some g)
  then have l: "generation_request_expiry i now db = (if expiry_refused g then Inr (False, db)
      else Inr (True, if gen_expiry_requested_at g = None
        then set_generation i (\<lambda>g. g\<lparr>gen_expiry_requested_at := Some now\<rparr>) db else db))"
    by (simp add: generation_request_expiry_def ok_or_def)
  show ?thesis unfolding l Some by (cases "expiry_refused g") auto
qed

lemma generation_lifetime_Inr:
  "generation_lifetime i db = Inr l \<longleftrightarrow>
     (\<exists>g. generation_of db i = Some g \<and> l = \<lparr>provisioned_at = gen_provisioned_at g,
        expiry_requested_at = gen_expiry_requested_at g, resources_destroyed_at = gen_resources_destroyed_at g\<rparr>)"
  by (auto simp: generation_lifetime_def map_ok_def ok_or_def split: option.splits)

lemma advance_row:
  "store_generation_advance i nxt subphase now db = Inr (u, db') \<longleftrightarrow>
     (\<exists>g s. generation_of db i = Some g \<and> from_str_repr (gen_state g) = Inr s \<and> transition_allowed s nxt
        \<and> db' = set_generation i (\<lambda>g. g\<lparr>gen_state := as_str_repr nxt, gen_subphase := subphase, gen_updated_at := now\<rparr>) db)"
  by (auto simp: store_generation_advance_def result_simps)

section \<open>Properties\<close>

text \<open>The fleet counters the store computes in SQL are the capacity counters of the fleet's
  generations as the control plane reads them, an unknown state text counting as quarantined:
  occupied and never effective.\<close>

theorem fleet_counts_refine:
  "\<lparr>effective_capacity = cnt_effective (fleet_counts fleet db),
    resource_occupancy = cnt_occupancy (fleet_counts fleet db)\<rparr>
   = ledger_counters (map (\<lambda>(i, g). grec_state (map_generation i g))
       (filter (\<lambda>(i, g). gen_fleet_key g = fleet) (db_generations db)))"
proof -
  have rows: "map (\<lambda>(i, g). grec_state (map_generation i g)) (filter (\<lambda>(i, g). gen_fleet_key g = fleet) kvs)
      = map row_state (filter (\<lambda>g. gen_fleet_key g = fleet) (map snd kvs))" for kvs
    by (induction kvs) (auto simp: map_generation_def row_state_def)
  have tally: "length (filter P (map f xs)) = length (filter (\<lambda>x. P (f x)) xs)" for P f and xs :: "generation_row list"
    by (induction xs) simp_all
  show ?thesis
    by (simp only: rows fleet_counts_def Let_def ledger_counters_def tally row_state_effective
        row_state_occupancy generation_counts.simps)
qed

text \<open>A committed expiry intent keeps a runner due for ever: once the request succeeded, the runner is
  due at every later or earlier clock reading and under every limit, the moment of the first
  request is kept by later requests, and none is recorded before a Create has succeeded.\<close>

theorem expiry_stays_due:
  assumes "generation_request_expiry i now db = Inr (True, db')"
    and "generation_lifetime i db' = Inr l"
  shows "is_due l t max_ms \<and> provisioned_at l \<noteq> None
    \<and> (generation_request_expiry i now' db' = Inr (r, db'') \<longrightarrow> generation_lifetime i db'' = Inr l)"
proof -
  obtain g where g: "generation_of db i = Some g" "\<not> expiry_refused g"
    "db' = (if gen_expiry_requested_at g = None
       then set_generation i (\<lambda>g. g\<lparr>gen_expiry_requested_at := Some now\<rparr>) db else db)"
    using assms(1) by (auto simp: request_expiry_Inr split: if_splits)
  obtain g' where g': "generation_of db' i = Some g'" "gen_expiry_requested_at g' \<noteq> None"
      "gen_provisioned_at g' = gen_provisioned_at g"
    using g by (cases "gen_expiry_requested_at g") auto
  have "gen_provisioned_at g \<noteq> None" using g(2) by (simp add: expiry_refused_def)
  with assms(2) g' have "expiry_requested_at l \<noteq> None" "provisioned_at l \<noteq> None"
    by (simp_all add: generation_lifetime_Inr)
  moreover have "generation_lifetime i db'' = Inr l" if "generation_request_expiry i now' db' = Inr (r, db'')"
  proof -
    have "db'' = db'"
      using that g'(1,2) by (simp add: request_expiry_Inr split: if_splits)
    with assms(2) show ?thesis by simp
  qed
  ultimately show ?thesis by (simp add: is_due_def)
qed

definition sample_generation :: "string \<Rightarrow> generation_row" where
  "sample_generation st = (new_generation_row
     \<lparr>grec_id = ''g'', grec_fleet_key = ''f'', grec_runner_name = ''r'', grec_generation_name = ''n'',
      grec_fleet_revision = 1, grec_template_profile_key = ''t'', grec_pool_member_key = None,
      grec_template_revision = 1, grec_template_artifact_digest = ''d'', grec_attestation_id = ''a'',
      grec_inputs_digest = ''i'', grec_state = CreatePending, grec_github_runner_id = None,
      grec_workspace_path = ''w'', grec_created_at = 0, grec_updated_at = 0\<rparr>)\<lparr>gen_state := st\<rparr>"

definition sample_fleet :: fleet_row where
  "sample_fleet = \<lparr>fleet_incarnation = ''x'', fleet_desired_revision = 1, fleet_mutation_fence = 1,
     fleet_deletion_marker = False, fleet_tombstone = False\<rparr>"

definition sample_ledger :: "generation_row \<Rightarrow> ledger" where
  "sample_ledger g = \<lparr>db_generations = [(''g'', g)], db_operations = [], db_fleets = [(''f'', sample_fleet)],
     db_fleet_revisions = [], db_template_revisions = [((''t'', 1), (''d'', Some ''vm''))],
     db_scale_sets = [], db_auth_contexts = [],
     db_identities = [], db_forgejo = [], db_states = [], db_workers = [], db_fences = [],
     db_deployment = Some \<lparr>dep_format_version = 1, dep_migration_required = False, dep_activated = True\<rparr>,
     mem_pending = []\<rparr>"

lemma sample_ledger_lookup [simp]:
  "generation_of (sample_ledger g) ''g'' = Some g" "state_of (sample_ledger g) i = None"
  "worker_of (sample_ledger g) i = None" "fleet_of (sample_ledger g) ''f'' = Some sample_fleet"
  by (simp_all add: generation_of_def state_of_def worker_of_def fleet_of_def sample_ledger_def)

theorem expiry_stays_due_witness:
  "\<exists>l. generation_lifetime ''g'' (set_generation ''g'' (\<lambda>g. g\<lparr>gen_expiry_requested_at := Some 9\<rparr>)
       (sample_ledger ((sample_generation ''Busy'')\<lparr>gen_provisioned_at := Some 3\<rparr>))) = Inr l
     \<and> is_due l 0 1000000"
proof -
  let ?db = "sample_ledger ((sample_generation ''Busy'')\<lparr>gen_provisioned_at := Some 3\<rparr>)"
  let ?db' = "set_generation ''g'' (\<lambda>g. g\<lparr>gen_expiry_requested_at := Some 9\<rparr>) ?db"
  have r: "generation_request_expiry ''g'' 9 ?db = Inr (True, ?db')"
    by (simp add: request_expiry_Inr expiry_refused_def sample_generation_def new_generation_row_def)
  have l: "generation_lifetime ''g'' ?db' = Inr \<lparr>provisioned_at = Some 3, expiry_requested_at = Some 9,
      resources_destroyed_at = None\<rparr>"
    by (simp add: generation_lifetime_Inr sample_generation_def new_generation_row_def)
  from expiry_stays_due [OF r l, of 0 1000000 0] l show ?thesis by blast
qed

text \<open>Resource destruction is recorded only for a generation with a committed expiry that is being
  destroyed, and the first recorded moment stays.\<close>

theorem resources_destroyed_needs_expiry:
  assumes "generation_resources_destroyed i now db = Inr (u, db')"
  shows "\<exists>g g'. generation_of db i = Some g \<and> gen_state g = ''Destroying'' \<and> gen_expiry_requested_at g \<noteq> None
    \<and> generation_of db' i = Some g'
    \<and> gen_resources_destroyed_at g' = (case gen_resources_destroyed_at g of None \<Rightarrow> Some now | Some t \<Rightarrow> Some t)
    \<and> g'\<lparr>gen_resources_destroyed_at := gen_resources_destroyed_at g\<rparr> = g"
proof -
  obtain g where g: "generation_of db i = Some g" "gen_state g = ''Destroying''" "gen_expiry_requested_at g \<noteq> None"
    and db': "db' = (if gen_resources_destroyed_at g = None
      then set_generation i (\<lambda>g. g\<lparr>gen_resources_destroyed_at := Some now\<rparr>) db else db)"
    using assms by (auto simp: generation_resources_destroyed_def result_simps)
  show ?thesis
    unfolding db' using g by (cases "gen_resources_destroyed_at g") auto
qed

theorem resources_destroyed_needs_expiry_witness:
  "\<exists>g. generation_of (sample_ledger ((sample_generation ''Destroying'')\<lparr>gen_expiry_requested_at := Some 5\<rparr>)) ''g'' = Some g
     \<and> gen_expiry_requested_at g \<noteq> None"
proof -
  let ?db = "sample_ledger ((sample_generation ''Destroying'')\<lparr>gen_expiry_requested_at := Some 5\<rparr>)"
  have "generation_resources_destroyed ''g'' 9 ?db
      = Inr ((), set_generation ''g'' (\<lambda>g. g\<lparr>gen_resources_destroyed_at := Some 9\<rparr>) ?db)"
    by (simp add: generation_resources_destroyed_def sample_generation_def new_generation_row_def ok_or_def)
  from resources_destroyed_needs_expiry [OF this] show ?thesis by blast
qed

text \<open>The record that allows a Create to start is written only while the fleet is live and still at the
  revision the generation was admitted for; a Destroy is never held back by the fleet.\<close>

theorem apply_start_fenced:
  assumes "generation_of db (oi_generation_id ins) = Some g"
    and "map_of (db_operations db) (oi_id ins) = None"
  shows "(\<exists>db'. operation_apply_starting_tx ins db = Inr (Inr db')
            \<and> map_of (db_operations db') (oi_id ins) \<noteq> None) \<longleftrightarrow>
    (oi_kind ins = ''Create'' \<longrightarrow>
       (\<exists>f. fleet_of db (gen_fleet_key g) = Some f \<and> \<not> fleet_deletion_marker f \<and> \<not> fleet_tombstone f
          \<and> fleet_desired_revision f = gen_fleet_revision g))"
  using assms
  by (auto simp: operation_apply_starting_tx_def operation_insert_on_def map_ok_def split: option.splits)

definition sample_insert :: operation_insert where
  "sample_insert = \<lparr>oi_id = ''op'', oi_generation_id = ''g'', oi_kind = ''Create'', oi_state = ''ApplyStarting'',
     oi_provenance_json = None, oi_saved_plan_path = None, oi_saved_plan_digest = None, oi_now = 1\<rparr>"

theorem apply_start_fenced_witness:
  "\<exists>db'. operation_apply_starting_tx sample_insert (sample_ledger (sample_generation ''Creating'')) = Inr (Inr db')
     \<and> map_of (db_operations db') ''op'' \<noteq> None"
proof -
  have g: "generation_of (sample_ledger (sample_generation ''Creating'')) (oi_generation_id sample_insert)
      = Some (sample_generation ''Creating'')"
    and n: "map_of (db_operations (sample_ledger (sample_generation ''Creating''))) (oi_id sample_insert) = None"
    by (simp_all add: sample_insert_def) (simp add: sample_ledger_def)
  have "fleet_of (sample_ledger (sample_generation ''Creating'')) (gen_fleet_key (sample_generation ''Creating''))
      = Some sample_fleet"
    by (simp add: sample_generation_def new_generation_row_def)
  then show ?thesis
    using apply_start_fenced [OF g n]
    by (auto simp: sample_fleet_def sample_generation_def new_generation_row_def sample_insert_def)
qed

end
