(* ===== verification/Http_State.thy ===== *)
theory Http_State
  imports Generations
begin

text \<open>
  The Terraform state of one generation, \<open>crates/shaula-store/src/http_state/\<close>: \<open>row.rs\<close> (loading,
  authorising and reading a row), \<open>operations.rs\<close> (the worker-facing backend) and \<open>admin.rs\<close> (the
  daemon-only operations).

  \<open>writer\<close> reserves SQLite's single writer before anything is read, so every operation here runs
  alone on the ledger.  The conditional UPDATEs are kept with their filters and the check that
  exactly one row changed.
\<close>

section \<open>Rows\<close>

text \<open>\<open>Row::load\<close> joins the generation: a row whose generation is gone is refused.\<close>

definition load :: "ledger \<Rightarrow> string \<Rightarrow> state_row state_result" where
  "load db i =
     (case (state_of db i, generation_of db i) of (Some r, Some _) \<Rightarrow> Inr r | _ \<Rightarrow> Inl Unauthorized)"

definition authorize :: "external \<Rightarrow> state_row \<Rightarrow> state_access \<Rightarrow> unit state_result" where
  "authorize E r access =
     guard Unauthorized (\<not> (st_revoked r
       \<or> \<not> state_capability_matches E (sa_capability access) (st_capability_hash r)))"

definition check_claim :: "string \<Rightarrow> state_row \<Rightarrow> state_claim \<Rightarrow> unit state_result" where
  "check_claim i r claim =
     guard Conflict (\<not> (i \<noteq> claim_generation claim \<or> st_worker_epoch r \<noteq> claim_epoch claim
       \<or> st_worker_attempt r \<noteq> claim_attempt claim))"

definition writable :: "state_row \<Rightarrow> unit state_result" where
  "writable r = guard Sealed (\<not> st_sealed r)"

text \<open>\<open>Row::owned\<close>, on the row as it is when the UPDATE runs.\<close>

definition owned :: "state_row \<Rightarrow> state_row \<Rightarrow> bool" where
  "owned loaded r \<longleftrightarrow> st_worker_epoch r = st_worker_epoch loaded \<and> st_worker_attempt r = st_worker_attempt loaded"

record state_snapshot =
  snap_revision :: int
  snap_document :: state_document

definition snapshot :: "external \<Rightarrow> state_row \<Rightarrow> state_snapshot option state_result" where
  "snapshot E r =
     (case st_state_bytes r of
        None \<Rightarrow>
          if st_revision r = 0 \<and> st_lineage r = None \<and> st_serial r = None \<and> \<not> st_create_started r \<and> \<not> st_sealed r
          then Inr None else Inl Unavailable
      | Some bytes \<Rightarrow>
          if st_revision r > 0 then
            and_then (map_err (\<lambda>_. Unavailable) (state_document_parse E bytes)) (\<lambda>doc.
            if st_lineage r \<noteq> Some (doc_lineage doc) \<or> st_serial r \<noteq> Some (doc_serial doc) then Inl Unavailable
            else Inr (Some \<lparr>snap_revision = st_revision r, snap_document = doc\<rparr>))
          else Inl Unavailable)"

definition current_snapshot :: "external \<Rightarrow> state_row \<Rightarrow> state_snapshot state_result" where
  "current_snapshot E r = and_then (snapshot E r) (ok_or Unavailable)"

definition row_lock :: "external \<Rightarrow> state_row \<Rightarrow> lock_info option state_result" where
  "row_lock E r =
     (case (st_lock_id r, st_lock_info r) of
        (None, None) \<Rightarrow> Inr None
      | (Some i, Some bytes) \<Rightarrow>
          and_then (map_err (\<lambda>_. Unavailable) (lock_info_parse E bytes)) (\<lambda>info.
          if li_id info \<noteq> i then Inl Unavailable else Inr (Some info))
      | _ \<Rightarrow> Inl Unavailable)"

section \<open>The worker-facing backend\<close>

definition authenticate :: "external \<Rightarrow> state_access \<Rightarrow> ledger \<Rightarrow> unit state_result" where
  "authenticate E access db = and_then (load db (sa_generation access)) (\<lambda>r. authorize E r access)"

definition state_read :: "external \<Rightarrow> state_access \<Rightarrow> ledger \<Rightarrow> state_snapshot option state_result" where
  "state_read E access db =
     and_then (load db (sa_generation access)) (\<lambda>r.
     and_then (authorize E r access) (\<lambda>_. snapshot E r))"

definition state_lock :: "external \<Rightarrow> state_access \<Rightarrow> lock_info \<Rightarrow> ledger \<Rightarrow> state_error + unit \<times> ledger" where
  "state_lock E access info db =
     (let i = sa_generation access in
      and_then (load db i) (\<lambda>r.
      and_then (authorize E r access) (\<lambda>_.
      and_then (writable r) (\<lambda>_.
      and_then (snapshot E r) (\<lambda>_.
      and_then (row_lock E r) (\<lambda>current.
      case current of
        Some c \<Rightarrow> if c \<noteq> info then Inl (Locked c) else Inr ((), db)
      | None \<Rightarrow>
          map_ok (\<lambda>db'. ((), db'))
            (update_one_state i
               (\<lambda>x. owned r x \<and> st_lock_id x = None \<and> \<not> st_revoked x \<and> \<not> st_sealed x)
               (\<lambda>x. x\<lparr>st_lock_id := Some (li_id info), st_lock_info := Some (lock_info_to_bytes E info)\<rparr>) db)))))))"

definition state_unlock :: "external \<Rightarrow> state_access \<Rightarrow> string \<Rightarrow> ledger \<Rightarrow> state_error + unit \<times> ledger" where
  "state_unlock E access lock_id db =
     (let i = sa_generation access in
      and_then (load db i) (\<lambda>r.
      and_then (authorize E r access) (\<lambda>_.
      and_then (writable r) (\<lambda>_.
      and_then (row_lock E r) (\<lambda>current.
      case current of
        None \<Rightarrow> Inr ((), db)
      | Some c \<Rightarrow>
          if li_id c \<noteq> lock_id then Inl (Locked c)
          else map_ok (\<lambda>db'. ((), db'))
            (update_one_state i
               (\<lambda>x. owned r x \<and> st_lock_id x = Some lock_id \<and> \<not> st_revoked x \<and> \<not> st_sealed x)
               (\<lambda>x. x\<lparr>st_lock_id := None, st_lock_info := None\<rparr>) db))))))"

definition stored :: "state_row \<Rightarrow> state_document \<Rightarrow> int \<Rightarrow> state_row" where
  "stored x document revision =
     x\<lparr>st_state_bytes := Some (doc_bytes document), st_lineage := Some (doc_lineage document),
       st_serial := Some (doc_serial document), st_revision := revision\<rparr>"

lemma stored_simps [simp]:
  "st_worker_epoch (stored x d v) = st_worker_epoch x" "st_worker_attempt (stored x d v) = st_worker_attempt x"
  "st_capability_hash (stored x d v) = st_capability_hash x" "st_revoked (stored x d v) = st_revoked x"
  "st_create_started (stored x d v) = st_create_started x" "st_sealed (stored x d v) = st_sealed x"
  "st_lock_id (stored x d v) = st_lock_id x" "st_lock_info (stored x d v) = st_lock_info x"
  "st_revision (stored x d v) = v" "st_state_bytes (stored x d v) = Some (doc_bytes d)"
  "st_lineage (stored x d v) = Some (doc_lineage d)" "st_serial (stored x d v) = Some (doc_serial d)"
  by (simp_all add: stored_def)

text \<open>
  The serial must not go back and the lineage must not change; the same serial is only a replay of
  the same bytes.
\<close>

definition state_write ::
  "external \<Rightarrow> state_access \<Rightarrow> string \<Rightarrow> state_document \<Rightarrow> ledger \<Rightarrow> state_error + int \<times> ledger" where
  "state_write E access lock_id document db =
     (let i = sa_generation access in
      and_then (load db i) (\<lambda>r.
      and_then (authorize E r access) (\<lambda>_.
      and_then (writable r) (\<lambda>_.
      and_then (row_lock E r) (\<lambda>current.
      and_then (ok_or Conflict current) (\<lambda>l.
      if li_id l \<noteq> lock_id then Inl (Locked l) else
      and_then (snapshot E r) (\<lambda>previous.
      let continue =
        and_then (ok_or Conflict (checked_add (st_revision r) 1)) (\<lambda>revision.
        and_then (update_one_state i
               (\<lambda>x. owned r x \<and> st_revision x = st_revision r \<and> st_lock_id x = Some lock_id
                  \<and> \<not> st_revoked x \<and> \<not> st_sealed x)
               (\<lambda>x. stored x document revision) db) (\<lambda>db1.
        and_then (if doc_managed_empty document then Inr db1
                  else set_worker i (\<lambda>w. w\<lparr>wk_resource_state_seen := True\<rparr>) db1) (\<lambda>db2.
        Inr (revision, db2))))
      in case previous of
          None \<Rightarrow> continue
        | Some p \<Rightarrow>
            let old = snap_document p in
            if doc_lineage document \<noteq> doc_lineage old \<or> doc_serial document < doc_serial old then Inl Conflict
            else if doc_serial document = doc_serial old then
              (if doc_bytes document \<noteq> doc_bytes old then Inl Conflict else Inr (st_revision r, db))
            else continue)))))))"

section \<open>Daemon-only operations\<close>

definition fresh_state_row :: "state_claim \<Rightarrow> string \<Rightarrow> state_row" where
  "fresh_state_row claim hash =
     \<lparr>st_worker_epoch = claim_epoch claim, st_worker_attempt = claim_attempt claim, st_capability_hash = hash,
      st_revoked = False, st_create_started = False, st_sealed = False, st_revision = 0,
      st_state_bytes = None, st_lineage = None, st_serial = None, st_lock_id = None, st_lock_info = None\<rparr>"

text \<open>\<open>insert_generation\<close>; the freshly issued capability is an argument.\<close>

definition insert_generation ::
  "external \<Rightarrow> generation_record \<Rightarrow> string \<Rightarrow> string \<Rightarrow> ledger \<Rightarrow> state_error + (state_claim \<times> string) \<times> ledger" where
  "insert_generation E record attempt capability db =
     and_then (ok_or Invalid (parse_uuid E (grec_id record))) (\<lambda>i.
     if grec_id record \<noteq> i \<or> grec_state record \<noteq> CreatePending \<or> grec_github_runner_id record \<noteq> None
     then Inl Invalid
     else if generation_of db (grec_id record) \<noteq> None then Inl Conflict
     else and_then (ok_or Conflict (fleet_of db (grec_fleet_key record))) (\<lambda>fleet.
     if fleet_deletion_marker fleet \<or> fleet_tombstone fleet
        \<or> fleet_desired_revision fleet \<noteq> grec_fleet_revision record
     then Inl Conflict
     else let claim = \<lparr>claim_generation = i, claim_epoch = 1, claim_attempt = attempt\<rparr> in
       and_then (map_err (\<lambda>_. Unavailable) (generation_insert_on E record db)) (\<lambda>db1.
       and_then (insert_state i (fresh_state_row claim (state_capability_verifier E capability)) db1) (\<lambda>db2.
       Inr ((claim, capability), db2)))))"

definition revoke :: "state_claim \<Rightarrow> ledger \<Rightarrow> state_error + unit \<times> ledger" where
  "revoke claim db =
     (let i = claim_generation claim in
      and_then (load db i) (\<lambda>r.
      and_then (check_claim i r claim) (\<lambda>_.
      map_ok (\<lambda>db'. ((), db'))
        (update_one_state i (owned r) (\<lambda>x. x\<lparr>st_revoked := True\<rparr>) db))))"

definition note_create_starting :: "external \<Rightarrow> state_claim \<Rightarrow> ledger \<Rightarrow> state_error + unit \<times> ledger" where
  "note_create_starting E claim db =
     (let i = claim_generation claim in
      and_then (load db i) (\<lambda>r.
      and_then (check_claim i r claim) (\<lambda>_.
      and_then (writable r) (\<lambda>_.
      if st_revoked r \<or> st_create_started r then Inl Conflict else
      and_then (current_snapshot E r) (\<lambda>_.
      map_ok (\<lambda>db'. ((), db'))
        (update_one_state i
           (\<lambda>x. owned r x \<and> \<not> st_create_started x \<and> \<not> st_sealed x \<and> \<not> st_revoked x)
           (\<lambda>x. x\<lparr>st_create_started := True\<rparr>) db))))))"

definition seal :: "external \<Rightarrow> state_claim \<Rightarrow> int \<Rightarrow> ledger \<Rightarrow> state_error + unit \<times> ledger" where
  "seal E claim expected_revision db =
     (let i = claim_generation claim in
      and_then (load db i) (\<lambda>r.
      and_then (check_claim i r claim) (\<lambda>_.
      if st_revoked r \<or> \<not> st_create_started r \<or> st_revision r \<noteq> expected_revision then Inl Conflict else
      and_then (current_snapshot E r) (\<lambda>s.
      if \<not> doc_managed_empty (snap_document s) then Inl Conflict else
      and_then (row_lock E r) (\<lambda>l.
      if l \<noteq> None then Inl Conflict else
      map_ok (\<lambda>db'. ((), db'))
        (update_one_state i
           (\<lambda>x. owned r x \<and> st_revision x = expected_revision \<and> st_lock_id x = None \<and> \<not> st_revoked x)
           (\<lambda>x. x\<lparr>st_sealed := True\<rparr>) db))))))"

section \<open>What a successful operation did\<close>

lemma load_Inr [result_simps]: "load db i = Inr r \<longleftrightarrow> state_of db i = Some r \<and> generation_of db i \<noteq> None"
  by (auto simp: load_def split: option.splits)

lemma authorize_Inr [result_simps]:
  "authorize E r access = Inr u \<longleftrightarrow>
     \<not> st_revoked r \<and> state_capability_matches E (sa_capability access) (st_capability_hash r)"
  by (simp add: authorize_def)

lemma check_claim_Inr [result_simps]:
  "check_claim i r claim = Inr u \<longleftrightarrow>
     i = claim_generation claim \<and> st_worker_epoch r = claim_epoch claim \<and> st_worker_attempt r = claim_attempt claim"
  by (auto simp: check_claim_def)

lemma writable_Inr [result_simps]: "writable r = Inr u \<longleftrightarrow> \<not> st_sealed r"
  by (simp add: writable_def)

lemma owned_refl [simp]: "owned r r"
  by (simp add: owned_def)

lemma current_snapshot_Inr [result_simps]: "current_snapshot E r = Inr s \<longleftrightarrow> snapshot E r = Inr (Some s)"
  by (auto simp: current_snapshot_def result_simps)

lemma snapshot_Some:
  "snapshot E r = Inr (Some s) \<longleftrightarrow>
     (\<exists>bytes doc. st_state_bytes r = Some bytes \<and> 0 < st_revision r \<and> state_document_parse E bytes = Inr doc
        \<and> st_lineage r = Some (doc_lineage doc) \<and> st_serial r = Some (doc_serial doc)
        \<and> s = \<lparr>snap_revision = st_revision r, snap_document = doc\<rparr>)"
  by (auto simp: snapshot_def result_simps split: option.splits)

lemma snapshot_None:
  "snapshot E r = Inr None \<longleftrightarrow>
     st_state_bytes r = None \<and> st_revision r = 0 \<and> st_lineage r = None \<and> st_serial r = None
     \<and> \<not> st_create_started r \<and> \<not> st_sealed r"
  by (auto simp: snapshot_def result_simps split: option.splits)

lemma row_lock_None: "row_lock E r = Inr None \<longleftrightarrow> st_lock_id r = None \<and> st_lock_info r = None"
  by (auto simp: row_lock_def result_simps split: option.splits)

lemma row_lock_Some:
  "row_lock E r = Inr (Some l) \<longleftrightarrow>
     (\<exists>bytes. st_lock_id r = Some (li_id l) \<and> st_lock_info r = Some bytes \<and> lock_info_parse E bytes = Inr l)"
  by (auto simp: row_lock_def result_simps split: option.splits)

lemma lock_Inr:
  assumes "state_lock E access info db = Inr (u, db')"
  obtains r where "state_of db (sa_generation access) = Some r" "generation_of db (sa_generation access) \<noteq> None"
    "\<not> st_revoked r" "\<not> st_sealed r"
    "state_capability_matches E (sa_capability access) (st_capability_hash r)"
    "row_lock E r = Inr (Some info) \<and> db' = db
     \<or> st_lock_id r = None \<and> state_check (r\<lparr>st_lock_id := Some (li_id info), st_lock_info := Some (lock_info_to_bytes E info)\<rparr>)
       \<and> db' = put_state (sa_generation access)
           (r\<lparr>st_lock_id := Some (li_id info), st_lock_info := Some (lock_info_to_bytes E info)\<rparr>) db"
  using assms
  by (auto simp: state_lock_def Let_def result_simps row_lock_None)

lemma unlock_Inr:
  assumes "state_unlock E access lock_id db = Inr (u, db')"
  obtains r where "state_of db (sa_generation access) = Some r" "generation_of db (sa_generation access) \<noteq> None"
    "\<not> st_revoked r" "\<not> st_sealed r"
    "state_capability_matches E (sa_capability access) (st_capability_hash r)"
    "st_lock_id r = None \<and> db' = db
     \<or> st_lock_id r = Some lock_id \<and> state_check (r\<lparr>st_lock_id := None, st_lock_info := None\<rparr>)
       \<and> db' = put_state (sa_generation access) (r\<lparr>st_lock_id := None, st_lock_info := None\<rparr>) db"
  using assms
  by (auto simp: state_unlock_def Let_def result_simps row_lock_None)

text \<open>A write either replays the stored document or stores the next one.\<close>

lemma write_Inr:
  assumes "state_write E access lock_id document db = Inr (revision, db')"
  obtains r l where "state_of db (sa_generation access) = Some r" "generation_of db (sa_generation access) \<noteq> None"
    "\<not> st_revoked r" "\<not> st_sealed r"
    "state_capability_matches E (sa_capability access) (st_capability_hash r)"
    "row_lock E r = Inr (Some l)" "li_id l = lock_id"
    "db' = db \<and> revision = st_revision r \<and> st_state_bytes r = Some (doc_bytes document)
     \<or> (\<exists>db1. in_i64 (st_revision r + 1) \<and> revision = st_revision r + 1
         \<and> (snapshot E r = Inr None \<or> (\<exists>s. snapshot E r = Inr (Some s)
              \<and> doc_lineage (snap_document s) = doc_lineage document
              \<and> doc_serial (snap_document s) < doc_serial document))
         \<and> db1 = put_state (sa_generation access)
             (stored r document revision) db
         \<and> state_check (stored r document revision)
         \<and> (if doc_managed_empty document then db' = db1
            else set_worker (sa_generation access) (\<lambda>w. w\<lparr>wk_resource_state_seen := True\<rparr>) db1 = Inr db'))"
proof -
  from assms obtain r l prev where r: "state_of db (sa_generation access) = Some r"
      "generation_of db (sa_generation access) \<noteq> None" "\<not> st_revoked r" "\<not> st_sealed r"
      "state_capability_matches E (sa_capability access) (st_capability_hash r)"
    and l: "row_lock E r = Inr (Some l)" "li_id l = lock_id" and prev: "snapshot E r = Inr prev"
    by (auto simp: state_write_def Let_def result_simps)
  show thesis
  proof (rule that [OF r l])
    show "db' = db \<and> revision = st_revision r \<and> st_state_bytes r = Some (doc_bytes document)
     \<or> (\<exists>db1. in_i64 (st_revision r + 1) \<and> revision = st_revision r + 1
         \<and> (snapshot E r = Inr None \<or> (\<exists>s. snapshot E r = Inr (Some s)
              \<and> doc_lineage (snap_document s) = doc_lineage document
              \<and> doc_serial (snap_document s) < doc_serial document))
         \<and> db1 = put_state (sa_generation access)
             (stored r document revision) db
         \<and> state_check (stored r document revision)
         \<and> (if doc_managed_empty document then db' = db1
            else set_worker (sa_generation access) (\<lambda>w. w\<lparr>wk_resource_state_seen := True\<rparr>) db1 = Inr db'))"
    proof (cases prev)
      case None
      with assms r l prev show ?thesis
        by (auto simp: state_write_def Let_def result_simps checked_add_Some ok_or_def)
    next
      case (Some s)
      then obtain bytes where "st_state_bytes r = Some bytes" "state_document_parse E bytes = Inr (snap_document s)"
        using prev by (auto simp: snapshot_Some)
      then have bytes: "st_state_bytes r = Some (doc_bytes (snap_document s))"
        using parse_bytes by metis
      show ?thesis
      proof (cases "doc_serial document = doc_serial (snap_document s)")
        case True
        with Some assms r l prev bytes show ?thesis
          by (auto simp: state_write_def Let_def result_simps ok_or_def)
      next
        case False
        with Some assms r l prev bytes show ?thesis
          by (auto simp: state_write_def Let_def result_simps checked_add_Some ok_or_def)
      qed
    qed
  qed
qed

lemma revoke_Inr:
  "revoke claim db = Inr (u, db') \<longleftrightarrow>
     (\<exists>r. state_of db (claim_generation claim) = Some r \<and> generation_of db (claim_generation claim) \<noteq> None
        \<and> st_worker_epoch r = claim_epoch claim \<and> st_worker_attempt r = claim_attempt claim
        \<and> state_check (r\<lparr>st_revoked := True\<rparr>) \<and> db' = put_state (claim_generation claim) (r\<lparr>st_revoked := True\<rparr>) db)"
  by (auto simp: revoke_def Let_def result_simps)

lemma note_create_starting_Inr:
  assumes "note_create_starting E claim db = Inr (u, db')"
  obtains r s where "state_of db (claim_generation claim) = Some r" "\<not> st_sealed r" "\<not> st_revoked r"
    "\<not> st_create_started r" "snapshot E r = Inr (Some s)" "st_worker_epoch r = claim_epoch claim"
    "st_worker_attempt r = claim_attempt claim" "state_check (r\<lparr>st_create_started := True\<rparr>)"
    "db' = put_state (claim_generation claim) (r\<lparr>st_create_started := True\<rparr>) db"
  using assms by (auto simp: note_create_starting_def Let_def result_simps)

lemma seal_Inr:
  assumes "seal E claim expected db = Inr (u, db')"
  obtains r s where "state_of db (claim_generation claim) = Some r" "\<not> st_revoked r"
    "st_create_started r" "snapshot E r = Inr (Some s)" "st_revision r = expected"
    "doc_managed_empty (snap_document s)" "st_lock_id r = None" "state_check (r\<lparr>st_sealed := True\<rparr>)"
    "db' = put_state (claim_generation claim) (r\<lparr>st_sealed := True\<rparr>) db"
  using assms by (auto simp: seal_def Let_def result_simps row_lock_None)

lemma jobs_snapshot_others:
  assumes "jobs_snapshot_generation E g f rv db = Inr db'"
  shows "state_of db' = state_of db" "worker_of db' = worker_of db" "generation_of db' = generation_of db"
    "fence_of db' = fence_of db" "mem_pending db' = mem_pending db" "db_operations db' = db_operations db"
  using assms
  by (auto simp: jobs_snapshot_generation_def fun_eq_iff split: option.splits prod.splits if_splits)

lemma generation_insert_Inr:
  assumes "generation_insert_on E record db = Inr db'"
  shows "generation_of db (grec_id record) = None" "state_of db' = state_of db" "worker_of db' = worker_of db"
    "fence_of db' = fence_of db" "mem_pending db' = mem_pending db" "db_operations db' = db_operations db"
    "generation_of db' = (generation_of db)(grec_id record \<mapsto> new_generation_row record)"
proof -
  let ?db = "db\<lparr>db_generations := (grec_id record, new_generation_row record) # db_generations db\<rparr>"
  from assms have s: "jobs_snapshot_generation E (grec_id record) (grec_fleet_key record)
      (grec_fleet_revision record) ?db = Inr db'" and n: "generation_of db (grec_id record) = None"
    by (simp_all add: generation_insert_on_def split: if_splits)
  show "generation_of db (grec_id record) = None" by (rule n)
  show "state_of db' = state_of db" "worker_of db' = worker_of db" "fence_of db' = fence_of db"
      "mem_pending db' = mem_pending db" "db_operations db' = db_operations db"
      "generation_of db' = (generation_of db)(grec_id record \<mapsto> new_generation_row record)"
    unfolding jobs_snapshot_others [OF s] by (simp_all add: fun_eq_iff map_of_generations)
qed

lemma insert_generation_Inr:
  assumes "insert_generation E record attempt capability db = Inr (x, db')"
  obtains db1 claim where "generation_insert_on E record db = Inr db1"
    "insert_state (grec_id record) (fresh_state_row claim (state_capability_verifier E capability)) db1 = Inr db'"
    "claim = \<lparr>claim_generation = grec_id record, claim_epoch = 1, claim_attempt = attempt\<rparr>" "x = (claim, capability)"
  using assms
  by (auto simp: insert_generation_def Let_def and_then_Inr map_err_Inr ok_or_Inr if_error_Inr)

section \<open>The backend contract\<close>

text \<open>
  What a client of the \<open>StateBackend\<close> trait relies on: a successful write is what is read next, locking
  does not touch the state, and only the holder of the lock writes or releases it.
\<close>

locale state_store =
  fixes fetch :: "'acc \<Rightarrow> 's \<Rightarrow> 'e + state_snapshot option"
    and store :: "'acc \<Rightarrow> string \<Rightarrow> state_document \<Rightarrow> 's \<Rightarrow> 'e + int \<times> 's"
    and take_lock :: "'acc \<Rightarrow> lock_info \<Rightarrow> 's \<Rightarrow> 'e + unit \<times> 's"
    and drop_lock :: "'acc \<Rightarrow> string \<Rightarrow> 's \<Rightarrow> 'e + unit \<times> 's"
    and holder :: "'acc \<Rightarrow> 's \<Rightarrow> string option"
    and valid :: "state_document \<Rightarrow> bool"
  assumes read_write: "store a l d s = Inr (v, s') \<Longrightarrow> valid d \<Longrightarrow>
      fetch a s' = Inr (Some \<lparr>snap_revision = v, snap_document = d\<rparr>)"
    and read_lock: "take_lock a i s = Inr (u, s') \<Longrightarrow> fetch a s' = fetch a s"
    and read_unlock: "drop_lock a l s = Inr (u, s') \<Longrightarrow> fetch a s' = fetch a s"
    and write_holder: "store a l d s = Inr (v, s') \<Longrightarrow> holder a s = Some l \<and> holder a s' = Some l"
    and lock_holder: "take_lock a i s = Inr (u, s') \<Longrightarrow>
      holder a s' = Some (li_id i) \<and> (holder a s = None \<or> holder a s = Some (li_id i))"
    and unlock_holder: "drop_lock a l s = Inr (u, s') \<Longrightarrow>
      holder a s' = None \<and> (holder a s = None \<or> holder a s = Some l)"

text \<open>A Terraform run as the backend sees it: take the lock, store documents, release the lock.\<close>

fun write_all :: "('acc \<Rightarrow> string \<Rightarrow> state_document \<Rightarrow> 's \<Rightarrow> 'e + int \<times> 's) \<Rightarrow> 'acc \<Rightarrow> string \<Rightarrow> state_document list \<Rightarrow> 's \<Rightarrow> 'e + 's" where
  "write_all store a l [] s = Inr s"
| "write_all store a l (d # ds) s = and_then (store a l d s) (\<lambda>(v, s'). write_all store a l ds s')"

definition terraform_run :: "('acc \<Rightarrow> string \<Rightarrow> state_document \<Rightarrow> 's \<Rightarrow> 'e + int \<times> 's) \<Rightarrow> ('acc \<Rightarrow> lock_info \<Rightarrow> 's \<Rightarrow> 'e + unit \<times> 's)
    \<Rightarrow> ('acc \<Rightarrow> string \<Rightarrow> 's \<Rightarrow> 'e + unit \<times> 's) \<Rightarrow> 'acc \<Rightarrow> lock_info \<Rightarrow> state_document list \<Rightarrow> 's \<Rightarrow> 'e + 's" where
  "terraform_run store take_lock drop_lock a info ds s =
     and_then (take_lock a info s) (\<lambda>(_, s1). and_then (write_all store a (li_id info) ds s1) (\<lambda>s2.
     map_ok snd (drop_lock a (li_id info) s2)))"

context state_store
begin

lemma write_all_read:
  assumes "write_all store a l ds s = Inr s'" and "list_all valid ds" and "holder a s = Some l"
  shows "holder a s' = Some l \<and>
    (if ds = [] then s' = s else \<exists>v. fetch a s' = Inr (Some \<lparr>snap_revision = v, snap_document = last ds\<rparr>))"
  using assms
proof (induction ds arbitrary: s)
  case (Cons d ds)
  then obtain v s1 where w: "store a l d s = Inr (v, s1)" and r: "write_all store a l ds s1 = Inr s'"
    by (auto simp: and_then_Inr)
  have "holder a s1 = Some l" using write_holder [OF w] by blast
  with Cons.IH [OF r] Cons.prems read_write [OF w] show ?case
    by (cases ds) auto
qed simp

lemma run_read:
  assumes "terraform_run store take_lock drop_lock a info ds s = Inr s'" and "list_all valid ds"
  shows "holder a s' = None \<and> (holder a s = None \<or> holder a s = Some (li_id info)) \<and>
    (if ds = [] then fetch a s' = fetch a s
     else \<exists>v. fetch a s' = Inr (Some \<lparr>snap_revision = v, snap_document = last ds\<rparr>))"
proof -
  from assms(1) obtain s1 s2 u w where l: "take_lock a info s = Inr (u, s1)"
    and ws: "write_all store a (li_id info) ds s1 = Inr s2" and ul: "drop_lock a (li_id info) s2 = Inr (w, s')"
    by (auto simp: terraform_run_def and_then_Inr map_ok_Inr)
  from write_all_read [OF ws assms(2)] lock_holder [OF l] show ?thesis
    using unlock_holder [OF ul] read_unlock [OF ul] read_lock [OF l] by (cases ds) auto
qed

lemma held_lock_excludes:
  assumes "holder a s = Some l" and "l' \<noteq> l"
  shows "\<not> is_ok (store a l' d s)" and "li_id i = l' \<Longrightarrow> \<not> is_ok (take_lock a i s)" and "\<not> is_ok (drop_lock a l' s)"
  using assms by (auto simp: is_ok_iff dest: write_holder lock_holder unlock_holder)

end

definition lock_holder_of :: "state_access \<Rightarrow> ledger \<Rightarrow> string option" where
  "lock_holder_of access db = Option.bind (state_of db (sa_generation access)) st_lock_id"

definition valid_document :: "external \<Rightarrow> state_document \<Rightarrow> bool" where
  "valid_document E d \<longleftrightarrow> state_document_parse E (doc_bytes d) = Inr d"

lemma state_read_simp:
  assumes "state_of db (sa_generation a) = Some r" "generation_of db (sa_generation a) \<noteq> None" "\<not> st_revoked r"
    "state_capability_matches E (sa_capability a) (st_capability_hash r)"
  shows "state_read E a db = snapshot E r"
proof -
  have "load db (sa_generation a) = Inr r" "authorize E r a = Inr ()"
    using assms by (simp_all add: load_Inr authorize_Inr)
  then show ?thesis by (simp add: state_read_def)
qed

lemma snapshot_lock_columns [simp]:
  "snapshot E (r\<lparr>st_lock_id := x, st_lock_info := y\<rparr>) = snapshot E r"
  by (simp add: snapshot_def cong: if_cong option.case_cong)

lemma set_worker_other:
  assumes "set_worker i f db = Inr db'"
  shows "state_of db' = state_of db" "generation_of db' = generation_of db" "fence_of db' = fence_of db"
    "mem_pending db' = mem_pending db" "db_operations db' = db_operations db" "db_generations db' = db_generations db"
  using assms by (auto simp: set_worker_Inr fun_eq_iff split: option.splits)

lemma sqlite_read_write:
  assumes "state_write E a l d db = Inr (v, db')" and "valid_document E d"
  shows "state_read E a db' = Inr (Some \<lparr>snap_revision = v, snap_document = d\<rparr>)"
  using assms(1)
proof (rule write_Inr)
  fix r k
  assume r: "state_of db (sa_generation a) = Some r" "generation_of db (sa_generation a) \<noteq> None"
      "\<not> st_revoked r" "\<not> st_sealed r" "state_capability_matches E (sa_capability a) (st_capability_hash r)"
    and effect: "db' = db \<and> v = st_revision r \<and> st_state_bytes r = Some (doc_bytes d)
     \<or> (\<exists>db1. in_i64 (st_revision r + 1) \<and> v = st_revision r + 1
         \<and> (snapshot E r = Inr None \<or> (\<exists>s. snapshot E r = Inr (Some s)
              \<and> doc_lineage (snap_document s) = doc_lineage d
              \<and> doc_serial (snap_document s) < doc_serial d))
         \<and> db1 = put_state (sa_generation a)
             (stored r d v) db
         \<and> state_check (stored r d v)
         \<and> (if doc_managed_empty d then db' = db1
            else set_worker (sa_generation a) (\<lambda>w. w\<lparr>wk_resource_state_seen := True\<rparr>) db1 = Inr db'))"
  from effect consider (same) "db' = db" "v = st_revision r" "st_state_bytes r = Some (doc_bytes d)"
    | (step) "state_check (stored r d v)"
        "if doc_managed_empty d then db' = put_state (sa_generation a) (stored r d v) db
         else set_worker (sa_generation a) (\<lambda>w. w\<lparr>wk_resource_state_seen := True\<rparr>)
                (put_state (sa_generation a) (stored r d v) db) = Inr db'"
    by blast
  then show ?thesis
  proof cases
    case same
    from assms(1) r(1,3,4) obtain p where p: "snapshot E r = Inr p"
      by (auto simp: state_write_def Let_def result_simps)
    with same(3) have "p \<noteq> None" by (cases p) (auto simp: snapshot_None)
    with p obtain s where s: "snapshot E r = Inr (Some s)" by blast
    with same(3) assms(2) have "s = \<lparr>snap_revision = st_revision r, snap_document = d\<rparr>"
      by (auto simp: snapshot_Some valid_document_def)
    with s same r show ?thesis by (simp add: state_read_simp)
  next
    case step
    have same: "state_of db' = state_of (put_state (sa_generation a) (stored r d v) db)"
      "generation_of db' = generation_of (put_state (sa_generation a) (stored r d v) db)"
      using step(2) by (auto split: if_splits dest: set_worker_other)
    have "0 < v" using step(1) by (auto simp: state_check_def)
    have "state_read E a db' = snapshot E (stored r d v)"
      by (rule state_read_simp) (use same r in simp_all)
    also have "\<dots> = Inr (Some \<lparr>snap_revision = v, snap_document = d\<rparr>)"
      using assms(2) \<open>0 < v\<close> by (simp add: snapshot_Some valid_document_def)
    finally show ?thesis .
  qed
qed

lemma sqlite_write_holder:
  assumes "state_write E a l d db = Inr (v, db')"
  shows "lock_holder_of a db = Some l \<and> lock_holder_of a db' = Some l"
  using assms
  by (rule write_Inr)
    (auto simp: lock_holder_of_def row_lock_Some split: if_splits dest: set_worker_other)

lemma sqlite_lock:
  assumes "state_lock E a i db = Inr (u, db')"
  shows "state_read E a db' = state_read E a db \<and> lock_holder_of a db' = Some (li_id i)
    \<and> (lock_holder_of a db = None \<or> lock_holder_of a db = Some (li_id i))"
  using assms by (rule lock_Inr) (auto simp: state_read_simp lock_holder_of_def row_lock_Some)

lemma sqlite_unlock:
  assumes "state_unlock E a l db = Inr (u, db')"
  shows "state_read E a db' = state_read E a db \<and> lock_holder_of a db' = None
    \<and> (lock_holder_of a db = None \<or> lock_holder_of a db = Some l)"
  using assms by (rule unlock_Inr) (auto simp: state_read_simp lock_holder_of_def)

interpretation sqlite: state_store "state_read E" "state_write E" "state_lock E" "state_unlock E"
  lock_holder_of "valid_document E" for E
  by unfold_locales
    (rule sqlite_read_write sqlite_write_holder conjunct1 [OF sqlite_lock] conjunct1 [OF sqlite_unlock]
       conjunct2 [OF sqlite_lock] conjunct2 [OF sqlite_unlock], assumption+)+

section \<open>Properties\<close>

text \<open>C32. A Terraform run against the backend publishes its last document: if taking the lock, storing the
  documents and releasing the lock all succeed, the next read returns the last stored document (or
  what was there before, if none was stored), nobody holds the lock, and before the run nobody else
  held it.\<close>

theorem terraform_run_publishes:
  assumes "terraform_run (state_write E) (state_lock E) (state_unlock E) access info ds db = Inr db'"
    and "list_all (valid_document E) ds"
  shows "lock_holder_of access db' = None
    \<and> (lock_holder_of access db = None \<or> lock_holder_of access db = Some (li_id info))
    \<and> (if ds = [] then state_read E access db' = state_read E access db
       else \<exists>v. state_read E access db' = Inr (Some \<lparr>snap_revision = v, snap_document = last ds\<rparr>))"
  using assms by (rule sqlite.run_read)

definition sample_lock :: lock_info where
  "sample_lock = \<lparr>li_id = ''l'', li_wire = \<lparr>lock_wire_id = ''l'', lock_operation = [], lock_info_text = [],
     lock_who = [], lock_version = [], lock_created = [], lock_path = []\<rparr>\<rparr>"

definition sample_document :: "nat \<Rightarrow> bool \<Rightarrow> state_document" where
  "sample_document n e =
     \<lparr>doc_bytes = digit n # (if e then CHR ''E'' else CHR ''R'') # ''L'', doc_lineage = ''L'',
      doc_serial = int n, doc_managed_empty = e,
      doc_managed_counts = (if e then [] else [(''vm'', 1)])\<rparr>"

definition sample_state :: state_row where
  "sample_state = \<lparr>st_worker_epoch = 1, st_worker_attempt = ''a'',
     st_capability_hash = state_capability_verifier sample_external ''cap'', st_revoked = False,
     st_create_started = False, st_sealed = False, st_revision = 1, st_state_bytes = Some ''0EL'',
     st_lineage = Some ''L'', st_serial = Some 0, st_lock_id = None, st_lock_info = None\<rparr>"

definition sample_access :: state_access where
  "sample_access = \<lparr>sa_generation = ''g'', sa_capability = ''cap''\<rparr>"

definition sample_http :: ledger where
  "sample_http = (sample_ledger (sample_generation ''Creating''))\<lparr>db_states := [(''g'', sample_state)]\<rparr>"

theorem terraform_run_publishes_witness:
  "\<exists>db' v. terraform_run (state_write sample_external) (state_lock sample_external) (state_unlock sample_external)
       sample_access sample_lock [sample_document 1 False, sample_document 2 True] sample_http = Inr db'
     \<and> state_read sample_external sample_access db' = Inr (Some \<lparr>snap_revision = v, snap_document = sample_document 2 True\<rparr>)"
proof -
  let ?run = "terraform_run (state_write sample_external) (state_lock sample_external) (state_unlock sample_external)
       sample_access sample_lock [sample_document 1 False, sample_document 2 True] sample_http"
  have "is_ok ?run" by code_simp
  then obtain db' where r: "?run = Inr db'" by (auto simp: is_ok_iff)
  have v: "list_all (valid_document sample_external) [sample_document 1 False, sample_document 2 True]"
    by code_simp
  from terraform_run_publishes [OF r v] r show ?thesis by auto
qed

text \<open>While a lock is held no other lock identifier gets through: taking the lock, releasing it and
  writing under another identifier all fail.\<close>

theorem lock_is_exclusive:
  assumes "lock_holder_of access db = Some l" and "l' \<noteq> l" and "li_id info = l'"
  shows "\<not> is_ok (state_lock E access info db) \<and> \<not> is_ok (state_unlock E access l' db)
    \<and> \<not> is_ok (state_write E access l' d db)"
  using sqlite.held_lock_excludes [OF assms(1,2)] assms(3) by blast

theorem lock_is_exclusive_witness:
  "\<not> is_ok (state_lock sample_external sample_access sample_lock
     (put_state ''g'' (sample_state\<lparr>st_lock_id := Some ''other'', st_lock_info := Some []\<rparr>) sample_http))"
proof -
  have "lock_holder_of sample_access
      (put_state ''g'' (sample_state\<lparr>st_lock_id := Some ''other'', st_lock_info := Some []\<rparr>) sample_http) = Some ''other''"
    by (simp add: lock_holder_of_def sample_access_def)
  from lock_is_exclusive [OF this, of "''l''" sample_lock] show ?thesis by (simp add: sample_lock_def)
qed

end
