(* ===== verification/Worker_Ledger.thy ===== *)
theory Worker_Ledger
  imports Http_State
begin

text \<open>
  The lifecycle worker of a generation, \<open>crates/shaula-store/src/http_state/\<close>: \<open>worker.rs\<close> and
  \<open>admissions.rs\<close> (admission, launch, registration, the in-memory credential handoff),
  \<open>worker_journal.rs\<close> (retained input, spawn acknowledgement, command end, fencing, cleanup
  attestation), \<open>create_proof.rs\<close> (the retained Create identity), \<open>worker_effect.rs\<close> (permission for
  a mutating effect), \<open>worker_completion.rs\<close> (the terminal receipt) and \<open>cleanup.rs\<close> (reaping), with
  their callers \<open>lifecycle_bootstrap.rs\<close>, \<open>record_apply_starting_impl\<close> of \<open>lifecycle_support.rs\<close> and
  \<open>generation_advance\<close> of \<open>lifecycle_impl.rs\<close>.

  Fresh UUIDs and capabilities are arguments.
\<close>

section \<open>Loading a worker\<close>

definition worker_load :: "external \<Rightarrow> control_access \<Rightarrow> ledger \<Rightarrow> worker_row state_result" where
  "worker_load E access db =
     (let i = claim_generation (ca_claim access) in
      and_then (load db i) (\<lambda>state.
      and_then (map_err (\<lambda>_. Unauthorized) (check_claim i state (ca_claim access))) (\<lambda>_.
      and_then (ok_or Unauthorized (worker_of db i)) (\<lambda>w.
      if st_revoked state \<or> \<not> control_capability_matches E (ca_capability access) (wk_control_hash w)
      then Inl Unauthorized else Inr w))))"

section \<open>Admission\<close>

definition admitted_state_row :: "external \<Rightarrow> worker_admission \<Rightarrow> state_document \<Rightarrow> state_row" where
  "admitted_state_row E adm doc =
     \<lparr>st_worker_epoch = claim_epoch (adm_claim adm), st_worker_attempt = claim_attempt (adm_claim adm),
      st_capability_hash = state_capability_verifier E (adm_state adm), st_revoked = False,
      st_create_started = False, st_sealed = False, st_revision = 1, st_state_bytes = Some (doc_bytes doc),
      st_lineage = Some (doc_lineage doc), st_serial = Some 0, st_lock_id = None, st_lock_info = None\<rparr>"

definition admitted_worker_row :: "external \<Rightarrow> worker_admission \<Rightarrow> worker_row" where
  "admitted_worker_row E adm =
     \<lparr>wk_control_hash = control_capability_verifier E (adm_control adm), wk_phase = Admitted,
      wk_process_identity = None, wk_cleanup_only = False, wk_handover = None, wk_active_command = None,
      wk_cleanup_revision = None, wk_protected_input = None, wk_resource_state_seen = False,
      wk_completion_request = None, wk_completion_receipt = None, wk_workspace_reaped = False\<rparr>"

definition admit_worker_on :: "external \<Rightarrow> string \<Rightarrow> worker_admission \<Rightarrow> ledger \<Rightarrow> state_error + ledger" where
  "admit_worker_on E lineage adm db =
     (if claim_epoch (adm_claim adm) \<noteq> 1 then Inl Invalid else
      let i = claim_generation (adm_claim adm) in
      and_then (if list_ex (\<lambda>(_, r). op_generation_id r = i) (db_operations db) \<or> map_of (db_forgejo db) i \<noteq> None
                then Inl Conflict else ok_or Conflict (generation_of db i)) (\<lambda>g.
      if gen_state g \<noteq> ''CreatePending'' \<or> gen_jit_phase g \<noteq> None \<or> gen_github_runner_id g \<noteq> None
      then Inl Conflict else
      and_then (state_document_parse E (fresh_state E lineage)) (\<lambda>doc.
      and_then (insert_state i (admitted_state_row E adm doc) db) (\<lambda>db1.
      insert_worker i (admitted_worker_row E adm) db1))))"

text \<open>\<open>WorkerAdmissions\<close>: \<open>new\<close>, \<open>take\<close>, \<open>discard\<close>, \<open>publish\<close> and \<open>admit_on\<close>.\<close>

definition admissions_new :: "nat \<Rightarrow> nat \<Rightarrow> nat state_result" where
  "admissions_new max_workers recovery_reserve =
     (if recovery_reserve = 0 \<or> recovery_reserve \<ge> max_workers \<or> max_workers > 1024 then Inl Invalid
      else Inr (max_workers - recovery_reserve))"

definition admissions_take :: "string \<Rightarrow> ledger \<Rightarrow> state_error + worker_admission \<times> ledger" where
  "admissions_take i db =
     and_then (ok_or Conflict (map_of (mem_pending db) i)) (\<lambda>adm.
     Inr (adm, db\<lparr>mem_pending := AList.delete i (mem_pending db)\<rparr>))"

definition admissions_discard :: "external \<Rightarrow> string \<Rightarrow> ledger \<Rightarrow> ledger" where
  "admissions_discard E i db =
     (case parse_uuid E i of None \<Rightarrow> db | Some u \<Rightarrow> db\<lparr>mem_pending := AList.delete u (mem_pending db)\<rparr>)"

definition publish :: "worker_admission \<Rightarrow> ledger \<Rightarrow> state_error + ledger" where
  "publish adm db =
     (let i = claim_generation (adm_claim adm) in
      if map_of (mem_pending db) i \<noteq> None then Inl Conflict
      else Inr (db\<lparr>mem_pending := (i, adm) # mem_pending db\<rparr>))"

definition admit_on ::
  "external \<Rightarrow> nat \<Rightarrow> string \<Rightarrow> string \<Rightarrow> string \<Rightarrow> string \<Rightarrow> string \<Rightarrow> ledger \<Rightarrow> state_error + worker_admission \<times> ledger" where
  "admit_on E create_limit lineage attempt control state_cap i db =
     and_then (case db_deployment db of
         None \<Rightarrow> Inl Unavailable
       | Some d \<Rightarrow> if dep_format_version d = 1 then Inr (dep_activated d) else Inl Unavailable) (\<lambda>activated.
     if \<not> activated then Inl Conflict
     else if length (filter (\<lambda>(_, w). wk_phase w \<noteq> PhaseCompleted) (db_workers db)) \<ge> create_limit
     then Inl Unavailable
     else and_then (ok_or Invalid (parse_uuid E i)) (\<lambda>u.
       let adm = worker_admission_new u attempt control state_cap in
       map_ok (\<lambda>db'. (adm, db')) (admit_worker_on E lineage adm db)))"

section \<open>Launch and registration\<close>

definition worker_launch_pending :: "external \<Rightarrow> control_access \<Rightarrow> ledger \<Rightarrow> state_error + unit \<times> ledger" where
  "worker_launch_pending E access db =
     and_then (worker_load E access db) (\<lambda>w.
     if wk_phase w \<noteq> Admitted then Inl Conflict
     else map_ok (\<lambda>db'. ((), db'))
       (update_one_worker (claim_generation (ca_claim access)) (\<lambda>x. wk_phase x = Admitted)
          (\<lambda>x. x\<lparr>wk_phase := LaunchPending\<rparr>) db))"

definition worker_register :: "external \<Rightarrow> control_access \<Rightarrow> process_identity \<Rightarrow> ledger \<Rightarrow> state_error + unit \<times> ledger" where
  "worker_register E access identity db =
     and_then (process_identity_validate identity) (\<lambda>_.
     let text = encode_process E identity in
     and_then (worker_load E access db) (\<lambda>w.
     if wk_phase w = Running \<and> wk_process_identity w = Some text then Inr ((), db)
     else if wk_phase w \<noteq> LaunchPending \<or> wk_process_identity w \<noteq> None then Inl Conflict
     else map_ok (\<lambda>db'. ((), db'))
       (set_worker (claim_generation (ca_claim access))
          (\<lambda>x. x\<lparr>wk_phase := Running, wk_process_identity := Some text\<rparr>) db)))"

section \<open>The journal\<close>

definition retain_input :: "external \<Rightarrow> control_access \<Rightarrow> string \<Rightarrow> ledger \<Rightarrow> state_error + unit \<times> ledger" where
  "retain_input E access input db =
     (if length input > max_state_bytes then Inl TooLarge else
      let i = claim_generation (ca_claim access) in
      and_then (worker_load E access db) (\<lambda>w.
      and_then (load db i) (\<lambda>state.
      if wk_phase w \<noteq> Running \<or> wk_cleanup_only w \<or> st_create_started state then Inl Conflict
      else case wk_protected_input w of
          Some saved \<Rightarrow> if saved = input then Inr ((), db) else Inl Conflict
        | None \<Rightarrow> map_ok (\<lambda>db'. ((), db')) (set_worker i (\<lambda>x. x\<lparr>wk_protected_input := Some input\<rparr>) db))))"

definition spawn_ack :: "external \<Rightarrow> control_access \<Rightarrow> string \<Rightarrow> ledger \<Rightarrow> state_error + unit \<times> ledger" where
  "spawn_ack E access attempt db =
     and_then (worker_load E access db) (\<lambda>w.
     if wk_phase w \<noteq> Running \<or> wk_active_command w \<noteq> Some attempt
        \<or> (case wk_handover w of None \<Rightarrow> False | Some h \<Rightarrow> h \<noteq> attempt)
     then Inl Conflict
     else map_ok (\<lambda>db'. ((), db'))
       (set_worker (claim_generation (ca_claim access)) (\<lambda>x. x\<lparr>wk_handover := None\<rparr>) db))"

definition command_ended :: "external \<Rightarrow> control_access \<Rightarrow> string \<Rightarrow> ledger \<Rightarrow> state_error + unit \<times> ledger" where
  "command_ended E access attempt db =
     and_then (worker_load E access db) (\<lambda>w.
     if wk_phase w \<noteq> Running \<or> wk_handover w \<noteq> None \<or> wk_active_command w \<noteq> Some attempt
     then Inl Conflict
     else map_ok (\<lambda>db'. ((), db'))
       (set_worker (claim_generation (ca_claim access)) (\<lambda>x. x\<lparr>wk_active_command := None\<rparr>) db))"

definition worker_fenced :: "external \<Rightarrow> control_access \<Rightarrow> process_identity \<Rightarrow> ledger \<Rightarrow> state_error + unit \<times> ledger" where
  "worker_fenced E access identity db =
     and_then (worker_load E access db) (\<lambda>w.
     and_then (ok_or Conflict (wk_process_identity w)) (\<lambda>text.
     and_then (ok_or Unavailable (decode_process E text)) (\<lambda>saved.
     if saved \<noteq> identity \<or> wk_phase w = PhaseCompleted then Inl Conflict
     else map_ok (\<lambda>db'. ((), db'))
       (set_worker (claim_generation (ca_claim access))
          (\<lambda>x. x\<lparr>wk_phase := PhaseFenced, wk_handover := None, wk_active_command := None\<rparr>) db))))"

definition worker_receipt :: "external \<Rightarrow> control_access \<Rightarrow> ledger \<Rightarrow> completion_receipt option state_result" where
  "worker_receipt E access db =
     and_then (worker_load E access db) (\<lambda>w.
     case wk_completion_receipt w of
       None \<Rightarrow> Inr None
     | Some text \<Rightarrow> map_ok Some (ok_or Unavailable (decode_receipt E text)))"

section \<open>The retained Create identity\<close>

definition identity_matches :: "external \<Rightarrow> string option \<Rightarrow> state_document \<Rightarrow> bool" where
  "identity_matches E result state =
     (case Option.bind result (decode_create_identity E) of
        None \<Rightarrow> False
      | Some (lineage, serial) \<Rightarrow>
          lineage = doc_lineage state \<and> 0 \<le> doc_serial state \<and> serial \<le> nat (doc_serial state))"

definition anchor :: "external \<Rightarrow> string \<Rightarrow> state_document \<Rightarrow> ledger \<Rightarrow> bool \<times> ledger" where
  "anchor E i state db =
     (case Option.bind (generation_of db i) (\<lambda>g.
             case map_of (db_template_revisions db) (gen_template_profile_key g, gen_template_revision g) of
               None \<Rightarrow> None
             | Some (digest, manifest) \<Rightarrow>
                 if digest = gen_template_artifact_digest g then Option.bind manifest (decode_manifest_shape E)
                 else None) of
        None \<Rightarrow> (False, db)
      | Some shape \<Rightarrow>
          if \<not> records_whole_shape state shape then (False, db)
          else (True, update_generation i
            (\<lambda>g. gen_result_json g = None \<and> gen_failed_create_identity g = None)
            (\<lambda>g. g\<lparr>gen_failed_create_identity := Some (encode_create_identity E (doc_lineage state) (doc_serial state))\<rparr>) db))"

definition verified :: "external \<Rightarrow> string \<Rightarrow> state_document \<Rightarrow> bool \<Rightarrow> ledger \<Rightarrow> state_error + bool \<times> ledger" where
  "verified E i state anchorable db =
     and_then (ok_or Unavailable (generation_of db i)) (\<lambda>g.
     if identity_matches E (gen_result_json g) state \<or> identity_matches E (gen_failed_create_identity g) state
     then Inr (True, db)
     else if anchorable \<and> gen_result_json g = None \<and> gen_failed_create_identity g = None
     then Inr (anchor E i state db)
     else Inr (False, db))"

definition anchor_failed_create :: "external \<Rightarrow> string \<Rightarrow> ledger \<Rightarrow> state_error + bool \<times> ledger" where
  "anchor_failed_create E i db =
     and_then (load db i) (\<lambda>state.
     let fenced = (case worker_of db i of None \<Rightarrow> False | Some w \<Rightarrow> wk_phase w = PhaseFenced) in
     if st_revoked state \<or> st_sealed state \<or> \<not> st_create_started state then Inr (False, db)
     else and_then (if fenced then Inr None else row_lock E state) (\<lambda>held.
     if held \<noteq> None then Inr (False, db)
     else and_then (snapshot E state) (\<lambda>s. case s of
        None \<Rightarrow> Inr (False, db)
      | Some s \<Rightarrow> verified E i (snap_document s) True db)))"

definition verify_cleanup :: "external \<Rightarrow> control_access \<Rightarrow> ledger \<Rightarrow> state_error + unit \<times> ledger" where
  "verify_cleanup E access db =
     (let i = claim_generation (ca_claim access) in
      and_then (worker_load E access db) (\<lambda>w.
      if wk_phase w \<noteq> Running \<or> wk_handover w \<noteq> None \<or> wk_active_command w \<noteq> None then Inl Conflict else
      and_then (load db i) (\<lambda>state.
      and_then (current_snapshot E state) (\<lambda>s.
      and_then (row_lock E state) (\<lambda>l.
      if l \<noteq> None \<or> \<not> doc_managed_empty (snap_document s) then Inl Conflict else
      and_then (if \<not> st_create_started state then Inr db
                else and_then (verified E i (snap_document s) False db) (\<lambda>(ok, db1).
                     if \<not> ok \<or> \<not> wk_resource_state_seen w then Inl Conflict else Inr db1)) (\<lambda>db2.
      map_ok (\<lambda>db'. ((), db')) (set_worker i (\<lambda>x. x\<lparr>wk_cleanup_revision := Some (st_revision state)\<rparr>) db2)))))))"

section \<open>Permission for an effect\<close>

definition worker_bootstrap_on :: "plan_provenance \<Rightarrow> ledger \<Rightarrow> state_error + ledger" where
  "worker_bootstrap_on proof db =
     (case worker_of db (prov_generation_id proof) of
        None \<Rightarrow> Inr db
      | Some w \<Rightarrow>
          if wk_phase w \<noteq> Running \<or> wk_cleanup_only w \<or> wk_handover w \<noteq> None \<or> wk_active_command w \<noteq> None
          then Inl Conflict
          else set_worker (prov_generation_id proof)
                 (\<lambda>x. x\<lparr>wk_active_command := Some (''bootstrap:'' @ prov_attempt_id proof)\<rparr>) db)"

definition worker_effect_on :: "external \<Rightarrow> plan_provenance \<Rightarrow> ledger \<Rightarrow> state_error + ledger" where
  "worker_effect_on E proof db =
     (let i = prov_generation_id proof in
      case worker_of db i of
        None \<Rightarrow> Inr db
      | Some w \<Rightarrow>
          if wk_phase w \<noteq> Running \<or> wk_handover w \<noteq> None \<or> wk_active_command w \<noteq> None then Inl Conflict else
          and_then (load db i) (\<lambda>row.
          and_then (writable row) (\<lambda>_.
          if st_revoked row then Inl Unauthorized else
          and_then (current_snapshot E row) (\<lambda>s.
          and_then (if prov_intent proof = DestroyIntent \<and> st_create_started row
                    then and_then (verified E i (snap_document s) False db) (\<lambda>(ok, db1).
                         if \<not> ok then Inl Conflict else Inr db1)
                    else Inr db) (\<lambda>db2.
          and_then (if prov_intent proof = CreateIntent
                    then (if \<not> doc_managed_empty (snap_document s) then Inl Conflict else
                      and_then (ok_or Conflict (wk_protected_input w)) (\<lambda>input.
                      if ''sha256:'' @ hex_encode E (sha256 E input) \<noteq> prov_protected_input_digest proof
                      then Inl Conflict
                      else if st_create_started row \<or> wk_cleanup_only w then Inl Conflict
                      else set_state i (\<lambda>x. x\<lparr>st_create_started := True\<rparr>) db2))
                    else Inr db2) (\<lambda>db3.
          set_worker i (\<lambda>x. x\<lparr>wk_handover := Some (prov_attempt_id proof),
             wk_active_command := Some (prov_attempt_id proof), wk_cleanup_revision := None\<rparr>) db3))))))"

text \<open>\<open>record_apply_starting_impl\<close>: the fence and the durable record share one transaction.\<close>

definition worker_core_error :: core_error where
  "worker_core_error = core_error_new StorageUnavailable ''lifecycle worker admission unavailable''"

definition record_apply_starting ::
  "external \<Rightarrow> plan_provenance \<Rightarrow> string \<Rightarrow> int \<Rightarrow> ledger \<Rightarrow> core_error + unit \<times> ledger" where
  "record_apply_starting E proof saved_plan_path now db =
     (let ins = \<lparr>oi_id = prov_attempt_id proof, oi_generation_id = prov_generation_id proof,
         oi_kind = (case prov_intent proof of CreateIntent \<Rightarrow> ''Create'' | DestroyIntent \<Rightarrow> ''Destroy''),
         oi_state = ''ApplyStarting'', oi_provenance_json = Some (encode_provenance E proof),
         oi_saved_plan_path = Some saved_plan_path,
         oi_saved_plan_digest = Some (prov_saved_plan_digest proof), oi_now = now\<rparr> in
      and_then (map_err core_of_store (operation_apply_starting_tx ins db)) (\<lambda>fenced. case fenced of
        Inl summary_text \<Rightarrow> Inl (core_error_new OwnershipConflict summary_text)
      | Inr db1 \<Rightarrow>
          and_then (map_err (\<lambda>_. worker_core_error) (worker_effect_on E proof db1)) (\<lambda>db2. Inr ((), db2))))"

definition operation_bootstrap_starting ::
  "external \<Rightarrow> plan_provenance \<Rightarrow> int \<Rightarrow> ledger \<Rightarrow> store_error + bool \<times> ledger" where
  "operation_bootstrap_starting E proof now db =
     (if prov_intent proof \<noteq> CreateIntent then Inr (False, db) else
      let current = (case generation_of db (prov_generation_id proof) of
             None \<Rightarrow> False
           | Some g \<Rightarrow> (case fleet_of db (gen_fleet_key g) of
                None \<Rightarrow> False
              | Some f \<Rightarrow> gen_state g = ''Creating'' \<and> fleet_desired_revision f = gen_fleet_revision g
                  \<and> \<not> fleet_deletion_marker f \<and> \<not> fleet_tombstone f)) in
      case map_of (db_operations db) (prov_attempt_id proof) of
        None \<Rightarrow> Inr (False, db)
      | Some r \<Rightarrow>
          if op_generation_id r = prov_generation_id proof \<and> op_kind r = ''Create'' \<and> op_state r = ''ApplyStarting''
             \<and> op_provenance_json r = Some (encode_provenance E proof) \<and> current
          then map_err (\<lambda>_. StoreCorrupt ''worker bootstrap authority unavailable'')
             (map_ok (\<lambda>db'. (True, db')) (worker_bootstrap_on proof
               (db\<lparr>db_operations := AList.update (prov_attempt_id proof)
                  (r\<lparr>op_state := ''BootstrapStarting'', op_updated_at := now\<rparr>) (db_operations db)\<rparr>)))
          else Inr (False, db))"

section \<open>Completion\<close>

definition new_receipt :: "state_claim \<Rightarrow> string \<Rightarrow> int \<Rightarrow> completion_kind \<Rightarrow> int \<Rightarrow> completion_receipt" where
  "new_receipt claim request revision kind now =
     \<lparr>receipt_claim = claim, receipt_request = request, receipt_revision = revision, receipt_kind = kind,
      receipt_at = now\<rparr>"

definition complete_on ::
  "external \<Rightarrow> state_claim \<Rightarrow> worker_row \<Rightarrow> string \<Rightarrow> int \<Rightarrow> completion_kind \<Rightarrow> int \<Rightarrow> ledger
     \<Rightarrow> state_error + completion_receipt \<times> ledger" where
  "complete_on E claim w request expected_revision kind now db =
     (let i = claim_generation claim in
      case wk_completion_receipt w of
        Some saved \<Rightarrow>
          and_then (ok_or Unavailable (decode_receipt E saved)) (\<lambda>receipt.
          if wk_completion_request w = Some request \<and> receipt_revision receipt = expected_revision
             \<and> receipt_kind receipt = kind \<and> receipt_claim receipt = claim
          then Inr (receipt, db) else Inl Conflict)
      | None \<Rightarrow>
          if wk_handover w \<noteq> None \<or> wk_active_command w \<noteq> None
             \<or> \<not> (wk_phase w = Running \<or> wk_phase w = PhaseFenced \<or> wk_phase w = Admitted)
          then Inl Conflict else
          and_then (load db i) (\<lambda>state.
          and_then (writable state) (\<lambda>_.
          if st_revision state \<noteq> expected_revision then Inl Conflict else
          and_then (row_lock E state) (\<lambda>l.
          if l \<noteq> None then Inl Conflict else
          and_then (current_snapshot E state) (\<lambda>s.
          if \<not> doc_managed_empty (snap_document s) then Inl Conflict else
          and_then (ok_or Conflict (generation_of db i)) (\<lambda>g.
          if gen_state g \<noteq> ''Destroying'' then Inl Conflict else
          let create = list_ex (\<lambda>(_, r). op_generation_id r = i \<and> op_kind r = ''Create'') (db_operations db) in
          if \<not> (case kind of
                  NeverStarted \<Rightarrow> \<not> st_create_started state \<and> \<not> create
                | ProviderCleanup \<Rightarrow> st_create_started state \<and> wk_cleanup_revision w = Some (st_revision state)
                | OperatorAttested \<Rightarrow> False)
          then Inl Conflict else
          let receipt = new_receipt claim request expected_revision kind now in
          and_then (set_state i (\<lambda>x. x\<lparr>st_sealed := True\<rparr>) db) (\<lambda>db1.
          and_then (set_worker i (\<lambda>x. x\<lparr>wk_phase := PhaseCompleted, wk_completion_request := Some request,
                      wk_completion_receipt := Some (encode_receipt E receipt)\<rparr>) db1) (\<lambda>db2.
          Inr (receipt, set_generation i (\<lambda>x. x\<lparr>gen_state := ''Destroyed'', gen_updated_at := now\<rparr>) db2)))))))))"

definition complete_worker ::
  "external \<Rightarrow> control_access \<Rightarrow> string \<Rightarrow> int \<Rightarrow> completion_kind \<Rightarrow> int \<Rightarrow> ledger \<Rightarrow> state_error + completion_receipt \<times> ledger" where
  "complete_worker E access request expected_revision kind now db =
     and_then (worker_load E access db) (\<lambda>w. complete_on E (ca_claim access) w request expected_revision kind now db)"

definition complete_generation ::
  "external \<Rightarrow> string \<Rightarrow> string \<Rightarrow> int \<Rightarrow> ledger \<Rightarrow> state_error + bool \<times> ledger" where
  "complete_generation E request i now db =
     (case worker_of db i of
        None \<Rightarrow> Inr (False, db)
      | Some w \<Rightarrow>
          if wk_completion_receipt w \<noteq> None then Inr (True, db) else
          and_then (load db i) (\<lambda>state.
          and_then (ok_or Invalid (parse_uuid E i)) (\<lambda>g.
          and_then (ok_or Unavailable (parse_uuid E (st_worker_attempt state))) (\<lambda>a.
          let claim = \<lparr>claim_generation = g, claim_epoch = st_worker_epoch state, claim_attempt = a\<rparr>;
              kind = (if st_create_started state then ProviderCleanup else NeverStarted) in
          and_then (complete_on E claim w request (st_revision state) kind now db) (\<lambda>(_, db').
          Inr (True, db'))))))"

text \<open>\<open>LifecycleStore::generation_advance\<close>: a generation with a worker is destroyed only by its receipt.\<close>

definition generation_advance ::
  "external \<Rightarrow> string \<Rightarrow> string \<Rightarrow> generation_state \<Rightarrow> int \<Rightarrow> ledger \<Rightarrow> core_error + unit \<times> ledger" where
  "generation_advance E request i nxt now db =
     (let legacy = map_err core_of_store (store_generation_advance i nxt None now db) in
      if nxt = Destroyed then
        and_then (map_err (\<lambda>_. worker_core_error) (complete_generation E request i now db)) (\<lambda>(finished, db1).
        if finished then Inr ((), admissions_discard E i db1) else legacy)
      else legacy)"

definition workspace_reaped :: "completion_receipt \<Rightarrow> ledger \<Rightarrow> state_error + unit \<times> ledger" where
  "workspace_reaped receipt db =
     map_ok (\<lambda>db'. ((), db'))
       (update_one_worker (claim_generation (receipt_claim receipt))
          (\<lambda>x. wk_phase x = PhaseCompleted \<and> wk_completion_request x = Some (receipt_request receipt))
          (\<lambda>x. x\<lparr>wk_workspace_reaped := True\<rparr>) db)"

end
