(* ===== verification/Recovery.thy ===== *)
theory Recovery
  imports Worker_Ledger
begin

text \<open>
  Restart recovery and operator finalisation: \<open>crates/shaula-store/src/http_state/recovery.rs\<close>,
  \<open>operator.rs\<close>, \<open>replace_fenced\<close> of \<open>worker_journal.rs\<close> and the ledger part of
  \<open>commit_generation_finalize_impl\<close> (\<open>registry_impl/commits_generation.rs\<close>), without its audit and
  idempotency rows.
\<close>

section \<open>Recovery records\<close>

definition recovery_record_of :: "string \<Rightarrow> worker_row \<Rightarrow> state_row \<Rightarrow> generation_row \<Rightarrow> recovery_record" where
  "recovery_record_of i w s g =
     \<lparr>rec_generation = i, rec_epoch = st_worker_epoch s, rec_attempt = st_worker_attempt s,
      rec_phase = wk_phase w, rec_process = wk_process_identity w, rec_workspace = gen_workspace_path g,
      rec_create_started = st_create_started s, rec_has_input = (wk_protected_input w \<noteq> None)\<rparr>"

definition recovery_rows :: "ledger \<Rightarrow> (generation_row \<times> recovery_record) list" where
  "recovery_rows db =
     List.map_filter (\<lambda>(i, w).
       case (state_of db i, generation_of db i) of
         (Some s, Some g) \<Rightarrow>
           if wk_phase w \<noteq> PhaseCompleted \<and> gen_state g \<noteq> ''Destroyed''
           then Some (g, recovery_record_of i w s g) else None
       | _ \<Rightarrow> None) (db_workers db)"

definition recovery_records :: "ledger \<Rightarrow> recovery_record list" where
  "recovery_records db =
     map snd (sort_key (\<lambda>(g, r). gen_created_at g) (sort_key (\<lambda>(g, r). rec_generation r) (recovery_rows db)))"

section \<open>Recovering a worker\<close>

text \<open>\<open>release_command\<close>: a fenced executor holds no command or spawn handover any longer.\<close>

definition release_command :: "string \<Rightarrow> ledger \<Rightarrow> state_error + ledger" where
  "release_command i db = set_worker i (\<lambda>x. x\<lparr>wk_handover := None, wk_active_command := None\<rparr>) db"

definition confirm_fence :: "recovery_record \<Rightarrow> ledger \<Rightarrow> ledger" where
  "confirm_fence r db =
     (case fence_of db (rec_attempt r) of
        None \<Rightarrow> db
      | Some f \<Rightarrow>
          if fence_generation_id f = rec_generation r \<and> fence_worker_epoch f = rec_epoch r
          then db\<lparr>db_fences := AList.update (rec_attempt r) (f\<lparr>fence_confirmed := True\<rparr>) (db_fences db)\<rparr>
          else db)"

definition quarantine :: "string \<Rightarrow> bool \<Rightarrow> ledger \<Rightarrow> state_error + ledger" where
  "quarantine i fenced db =
     and_then (set_state i (\<lambda>x. x\<lparr>st_revoked := True\<rparr>) db) (\<lambda>db1.
     and_then (set_worker i (\<lambda>x. x\<lparr>wk_phase := PhaseQuarantined\<rparr>) db1) (\<lambda>db2.
     let db3 = set_generation i (\<lambda>x. x\<lparr>gen_state := ''Quarantined''\<rparr>) db2 in
     if fenced then release_command i db3 else Inr db3))"

text \<open>
  Credential rotation: the next epoch, a cleanup-only worker, the orphan lock cleared, and the
  generation moved out of the Create part of its lifecycle.
\<close>

definition rotate :: "external \<Rightarrow> string \<Rightarrow> worker_admission \<Rightarrow> int option \<Rightarrow> ledger \<Rightarrow> state_error + ledger" where
  "rotate E i adm cleanup_revision db =
     and_then (set_state i (\<lambda>x. x\<lparr>st_worker_epoch := claim_epoch (adm_claim adm),
         st_worker_attempt := claim_attempt (adm_claim adm),
         st_capability_hash := state_capability_verifier E (adm_state adm), st_revoked := False,
         st_lock_id := None, st_lock_info := None\<rparr>) db) (\<lambda>db1.
     and_then (set_worker i (\<lambda>x. x\<lparr>wk_control_hash := control_capability_verifier E (adm_control adm),
         wk_phase := Admitted, wk_process_identity := None, wk_cleanup_only := True, wk_handover := None,
         wk_active_command := None, wk_cleanup_revision := cleanup_revision\<rparr>) db1) (\<lambda>db2.
     Inr (update_generation i
       (\<lambda>g. gen_state g \<in> set [''CreatePending'', ''Creating'', ''WaitingOnline''])
       (\<lambda>g. g\<lparr>gen_state := ''CleanupRequired''\<rparr>) db2)))"

definition keep_cleanup_revision :: "worker_row \<Rightarrow> state_row \<Rightarrow> int option" where
  "keep_cleanup_revision w state =
     (case wk_cleanup_revision w of
        None \<Rightarrow> None
      | Some rv \<Rightarrow>
          if rv = st_revision state \<and> wk_handover w = None \<and> wk_active_command w = None \<and> st_lock_info state = None
          then Some rv else None)"

definition recovered_admission :: "state_claim \<Rightarrow> int \<Rightarrow> string \<Rightarrow> string \<Rightarrow> string \<Rightarrow> worker_admission" where
  "recovered_admission claim epoch attempt control state_cap =
     \<lparr>adm_claim = \<lparr>claim_generation = claim_generation claim, claim_epoch = epoch, claim_attempt = attempt\<rparr>,
      adm_control = control, adm_state = state_cap, adm_cleanup_only = True\<rparr>"

text \<open>
  Whether the stored state is complete; an unreadable snapshot counts as incomplete, an error of
  \<open>verified\<close> is returned.
\<close>

definition recovery_evidence :: "external \<Rightarrow> string \<Rightarrow> state_row \<Rightarrow> bool \<Rightarrow> ledger \<Rightarrow> state_error + bool \<times> ledger" where
  "recovery_evidence E i state anchorable db =
     (case snapshot E state of
        Inr (Some s) \<Rightarrow>
          if \<not> st_create_started state then Inr (True, db) else verified E i (snap_document s) anchorable db
      | _ \<Rightarrow> Inr (False, db))"

text \<open>
  The transaction of \<open>recover_worker\<close>: the new ledger and the admission to publish after the commit.
\<close>

definition recover_worker_tx ::
  "external \<Rightarrow> recovery_record \<Rightarrow> fence_outcome \<Rightarrow> bool \<Rightarrow> string \<Rightarrow> string \<Rightarrow> string \<Rightarrow> ledger
     \<Rightarrow> state_error + worker_admission option \<times> ledger" where
  "recover_worker_tx E record outcome preserve_evidence attempt control state_cap db =
     (let i = rec_generation record; fenced = (outcome = Fenced) in
      and_then (load db i) (\<lambda>state.
      and_then (recovery_claim E record) (\<lambda>claim.
      and_then (check_claim i state claim) (\<lambda>_.
      and_then (ok_or Conflict (worker_of db i)) (\<lambda>w.
      if wk_phase w \<noteq> rec_phase record \<or> wk_process_identity w \<noteq> rec_process record \<or> st_sealed state
      then Inl Conflict
      else if wk_phase w = PhaseQuarantined
      then map_ok (Pair None) (if fenced then release_command i (confirm_fence record db) else Inr db)
      else
        let cleanup_revision = keep_cleanup_revision w state in
        and_then (insert_fence (rec_attempt record)
            \<lparr>fence_generation_id = i, fence_worker_epoch = rec_epoch record,
             fence_process_identity = rec_process record, fence_orphan_lock = st_lock_info state,
             fence_confirmed = False, fence_outcome = (if fenced then ''fenced'' else ''unknown'')\<rparr> db) (\<lambda>db1.
        let anchorable = fenced \<and> \<not> preserve_evidence \<and> (\<not> rec_create_started record \<or> rec_has_input record) in
        and_then (recovery_evidence E i state anchorable db1) (\<lambda>(complete_state, db2).
        if \<not> fenced \<or> preserve_evidence \<or> (rec_create_started record \<and> \<not> rec_has_input record) \<or> \<not> complete_state
        then map_ok (Pair None) (quarantine i fenced db2)
        else
          and_then (ok_or Conflict (checked_add (st_worker_epoch state) 1)) (\<lambda>epoch.
          let adm = recovered_admission claim epoch attempt control state_cap in
          map_ok (Pair (Some adm)) (rotate E i adm cleanup_revision db2)))))))))"

text \<open>After the commit the new credentials are handed to the launcher of this daemon.\<close>

definition recover_worker ::
  "external \<Rightarrow> recovery_record \<Rightarrow> fence_outcome \<Rightarrow> bool \<Rightarrow> string \<Rightarrow> string \<Rightarrow> string \<Rightarrow> ledger
     \<Rightarrow> (state_error + unit) \<times> ledger" where
  "recover_worker E record outcome preserve_evidence attempt control state_cap db =
     (case recover_worker_tx E record outcome preserve_evidence attempt control state_cap db of
        Inl e \<Rightarrow> (Inl e, db)
      | Inr (None, db1) \<Rightarrow> (Inr (), db1)
      | Inr (Some adm, db1) \<Rightarrow>
          (case publish adm db1 of Inl e \<Rightarrow> (Inl e, db1) | Inr db2 \<Rightarrow> (Inr (), db2)))"

definition replace_fenced ::
  "external \<Rightarrow> control_access \<Rightarrow> string \<Rightarrow> string \<Rightarrow> string \<Rightarrow> ledger \<Rightarrow> (state_error + unit) \<times> ledger" where
  "replace_fenced E access attempt control state_cap db =
     (case worker_load E access db of
        Inl e \<Rightarrow> (Inl e, db)
      | Inr _ \<Rightarrow>
          (case find (\<lambda>r. rec_generation r = claim_generation (ca_claim access)) (recovery_records db) of
             None \<Rightarrow> (Inl Conflict, db)
           | Some record \<Rightarrow>
               if rec_phase record \<noteq> PhaseFenced then (Inl Conflict, db)
               else recover_worker E record Fenced False attempt control state_cap db))"

definition recovered_state_identity :: "external \<Rightarrow> string \<Rightarrow> ledger \<Rightarrow> (string \<times> nat) option state_result" where
  "recovered_state_identity E i db =
     (case worker_of db i of
        None \<Rightarrow> Inr None
      | Some w \<Rightarrow>
          if \<not> wk_cleanup_only w \<or> wk_phase w = PhaseQuarantined then Inr None else
          and_then (load db i) (\<lambda>row.
          if st_revoked row then Inl Unauthorized else
          and_then (current_snapshot E row) (\<lambda>s.
          if doc_serial (snap_document s) < 0 then Inl Invalid
          else Inr (Some (doc_lineage (snap_document s), nat (doc_serial (snap_document s)))))))"

text \<open>\<open>state_identity_impl\<close>: the recovered identity first, then the retained Create identity.\<close>

definition state_identity :: "external \<Rightarrow> string \<Rightarrow> ledger \<Rightarrow> (string \<times> nat) option core_result" where
  "state_identity E i db =
     and_then (map_err (\<lambda>_. worker_core_error) (recovered_state_identity E i db)) (\<lambda>x.
     case x of Some identity \<Rightarrow> Inr (Some identity)
             | None \<Rightarrow> map_err core_of_store (generation_state_identity E i db))"

section \<open>Operator finalisation\<close>

definition operator_seal :: "string \<Rightarrow> ledger \<Rightarrow> state_error + ledger" where
  "operator_seal i db = set_state i (\<lambda>x. x\<lparr>st_sealed := True, st_revoked := True\<rparr>) db"

definition quarantined_fenced :: "string \<Rightarrow> worker_row \<Rightarrow> state_row \<Rightarrow> ledger \<Rightarrow> bool" where
  "quarantined_fenced i w state db \<longleftrightarrow>
     wk_phase w = PhaseQuarantined
     \<and> (case fence_of db (st_worker_attempt state) of
          None \<Rightarrow> False
        | Some f \<Rightarrow> fence_generation_id f = i \<and> fence_worker_epoch f = st_worker_epoch state
            \<and> (fence_outcome f = ''fenced'' \<or> fence_confirmed f))"

definition operator_seal_on :: "external \<Rightarrow> string \<Rightarrow> string \<Rightarrow> int \<Rightarrow> ledger \<Rightarrow> state_error + ledger" where
  "operator_seal_on E i request now db =
     (case worker_of db i of
        None \<Rightarrow> operator_seal i db
      | Some w \<Rightarrow>
          and_then (load db i) (\<lambda>state.
          if (\<not> (wk_phase w = Admitted \<or> wk_phase w = PhaseFenced) \<and> \<not> quarantined_fenced i w state db)
             \<or> wk_handover w \<noteq> None \<or> wk_active_command w \<noteq> None
          then Inl Conflict else
          and_then (ok_or Invalid (parse_uuid E i)) (\<lambda>g.
          and_then (ok_or Invalid (parse_uuid E (st_worker_attempt state))) (\<lambda>a.
          and_then (ok_or Invalid (parse_uuid E request)) (\<lambda>q.
          let receipt = new_receipt \<lparr>claim_generation = g, claim_epoch = st_worker_epoch state, claim_attempt = a\<rparr>
                q (st_revision state) OperatorAttested now in
          and_then (operator_seal i db) (\<lambda>db1.
          set_worker i (\<lambda>x. x\<lparr>wk_phase := PhaseCompleted, wk_completion_request := Some request,
             wk_completion_receipt := Some (encode_receipt E receipt)\<rparr>) db1))))))"

datatype finalize_error = FinalizeNotFound | FinalizeConflict | FinalizeStorage

definition generation_finalize ::
  "external \<Rightarrow> string \<Rightarrow> string \<Rightarrow> string \<Rightarrow> int \<Rightarrow> ledger \<Rightarrow> finalize_error + unit \<times> ledger" where
  "generation_finalize E i operation provenance now db =
     and_then (ok_or FinalizeNotFound (generation_of db i)) (\<lambda>row.
     if gen_state row \<noteq> as_str_repr Quarantined then Inl FinalizeConflict
     else let db1 = set_generation i (\<lambda>g. g\<lparr>gen_state := as_str_repr Destroyed, gen_updated_at := now\<rparr>) db in
       and_then (map_err (\<lambda>_. FinalizeConflict) (operator_seal_on E i operation now db1)) (\<lambda>db2.
       and_then (map_err (\<lambda>_. FinalizeStorage) (operation_insert_on
         \<lparr>oi_id = operation, oi_generation_id = i, oi_kind = ''Finalize'', oi_state = ''Succeeded'',
          oi_provenance_json = Some provenance, oi_saved_plan_path = None, oi_saved_plan_digest = None,
          oi_now = now\<rparr> db2)) (\<lambda>db3. Inr ((), db3))))"

end
