(* ===== verification/Protocol.thy ===== *)
theory Protocol
  imports Ledger
begin

text \<open>
  The abstract protocol of one generation: what the three rows that belong to it (its Terraform
  state, its lifecycle worker, its ledger row) may do together.  It is the specification the
  detailed operations of \<open>Http_State\<close>, \<open>Worker_Ledger\<close>, \<open>Recovery\<close> and \<open>Generations\<close> are shown to
  refine in \<open>Refinement\<close>; the invariants and the progress of the rows are proved here, once, by rule
  induction.  No definition here translates a function of the code.
\<close>

text \<open>\<open>c_canonical\<close>: the identifier of the generation is a UUID in its canonical text form.\<close>

record cell =
  c_state :: "state_row option"
  c_worker :: "worker_row option"
  c_gen :: "generation_row option"
  c_canonical :: bool

definition create_states :: "string list" where
  "create_states = [''CreatePending'', ''Creating'', ''WaitingOnline'']"

inductive cell_step :: "cell \<Rightarrow> cell \<Rightarrow> bool" where
  new_generation: "c_gen c = None \<Longrightarrow> gen_state g = ''CreatePending'' \<Longrightarrow> cell_step c (c\<lparr>c_gen := Some g\<rparr>)"
| new_state: "c_state c = None \<Longrightarrow> c_gen c \<noteq> None \<Longrightarrow> state_check r \<Longrightarrow> \<not> st_sealed r \<Longrightarrow>
    cell_step c (c\<lparr>c_state := Some r\<rparr>)"
| admit: "c_state c = None \<Longrightarrow> c_worker c = None \<Longrightarrow> c_gen c = Some g \<Longrightarrow> gen_state g = ''CreatePending'' \<Longrightarrow>
    c_canonical c \<Longrightarrow> state_check r \<Longrightarrow> \<not> st_sealed r \<Longrightarrow> worker_check w \<Longrightarrow> wk_phase w = Admitted \<Longrightarrow>
    cell_step c (c\<lparr>c_state := Some r, c_worker := Some w\<rparr>)"
| lock: "c_state c = Some r \<Longrightarrow> \<not> st_revoked r \<Longrightarrow> \<not> st_sealed r \<Longrightarrow> st_lock_id r = None \<Longrightarrow>
    r' = r\<lparr>st_lock_id := i, st_lock_info := b\<rparr> \<Longrightarrow> state_check r' \<Longrightarrow> cell_step c (c\<lparr>c_state := Some r'\<rparr>)"
| unlock: "c_state c = Some r \<Longrightarrow> \<not> st_revoked r \<Longrightarrow> \<not> st_sealed r \<Longrightarrow>
    r' = r\<lparr>st_lock_id := None, st_lock_info := None\<rparr> \<Longrightarrow> state_check r' \<Longrightarrow> cell_step c (c\<lparr>c_state := Some r'\<rparr>)"
| store: "c_state c = Some r \<Longrightarrow> \<not> st_revoked r \<Longrightarrow> \<not> st_sealed r \<Longrightarrow> st_lock_id r \<noteq> None \<Longrightarrow>
    (st_lineage r = None \<and> st_serial r = None
     \<or> st_lineage r = Some l \<and> (\<exists>m. st_serial r = Some m \<and> m < n)) \<Longrightarrow>
    r' = r\<lparr>st_state_bytes := Some b, st_lineage := Some l, st_serial := Some n, st_revision := st_revision r + 1\<rparr> \<Longrightarrow>
    state_check r' \<Longrightarrow>
    w' = c_worker c \<or> (\<exists>w. c_worker c = Some w \<and> w' = Some (w\<lparr>wk_resource_state_seen := True\<rparr>)
      \<and> worker_check (w\<lparr>wk_resource_state_seen := True\<rparr>)) \<Longrightarrow>
    cell_step c (c\<lparr>c_state := Some r', c_worker := w'\<rparr>)"
| revoke: "c_state c = Some r \<Longrightarrow> r' = r\<lparr>st_revoked := True\<rparr> \<Longrightarrow> state_check r' \<Longrightarrow> cell_step c (c\<lparr>c_state := Some r'\<rparr>)"
| start_create: "c_state c = Some r \<Longrightarrow> \<not> st_revoked r \<Longrightarrow> \<not> st_sealed r \<Longrightarrow> \<not> st_create_started r \<Longrightarrow>
    r' = r\<lparr>st_create_started := True\<rparr> \<Longrightarrow> state_check r' \<Longrightarrow> cell_step c (c\<lparr>c_state := Some r'\<rparr>)"
| seal_state: "c_state c = Some r \<Longrightarrow> \<not> st_revoked r \<Longrightarrow> st_create_started r \<Longrightarrow> st_lock_id r = None \<Longrightarrow>
    r' = r\<lparr>st_sealed := True\<rparr> \<Longrightarrow> state_check r' \<Longrightarrow> cell_step c (c\<lparr>c_state := Some r'\<rparr>)"
| annotate: "c_gen c = Some g \<Longrightarrow> gen_state g' = gen_state g \<Longrightarrow> cell_step c (c\<lparr>c_gen := Some g'\<rparr>)"
| advance_generation: "c_gen c = Some g \<Longrightarrow> from_str_repr (gen_state g) = Inr s \<Longrightarrow> transition_allowed s t \<Longrightarrow>
    gen_state g' = as_str_repr t \<Longrightarrow> t \<noteq> Destroyed \<or> c_worker c = None \<Longrightarrow> cell_step c (c\<lparr>c_gen := Some g'\<rparr>)"
| launch: "c_state c = Some r \<Longrightarrow> \<not> st_revoked r \<Longrightarrow> c_worker c = Some w \<Longrightarrow> wk_phase w = Admitted \<Longrightarrow>
    w' = w\<lparr>wk_phase := LaunchPending\<rparr> \<Longrightarrow> worker_check w' \<Longrightarrow> cell_step c (c\<lparr>c_worker := Some w'\<rparr>)"
| register: "c_state c = Some r \<Longrightarrow> \<not> st_revoked r \<Longrightarrow> c_worker c = Some w \<Longrightarrow> wk_phase w = LaunchPending \<Longrightarrow>
    wk_process_identity w = None \<Longrightarrow> w' = w\<lparr>wk_phase := Running, wk_process_identity := Some p\<rparr> \<Longrightarrow>
    worker_check w' \<Longrightarrow> cell_step c (c\<lparr>c_worker := Some w'\<rparr>)"
| running: "c_state c = Some r \<Longrightarrow> \<not> st_revoked r \<Longrightarrow> c_worker c = Some w \<Longrightarrow> wk_phase w = Running \<Longrightarrow>
    wk_phase w' = Running \<Longrightarrow> wk_process_identity w' = wk_process_identity w \<Longrightarrow>
    wk_cleanup_only w' = wk_cleanup_only w \<Longrightarrow> worker_check w' \<Longrightarrow> cell_step c (c\<lparr>c_worker := Some w'\<rparr>)"
| bootstrap: "c_worker c = Some w \<Longrightarrow> wk_phase w = Running \<Longrightarrow> \<not> wk_cleanup_only w \<Longrightarrow>
    wk_handover w = None \<Longrightarrow> wk_active_command w = None \<Longrightarrow> w' = w\<lparr>wk_active_command := Some a\<rparr> \<Longrightarrow>
    worker_check w' \<Longrightarrow> cell_step c (c\<lparr>c_worker := Some w'\<rparr>)"
| effect: "c_state c = Some r \<Longrightarrow> \<not> st_revoked r \<Longrightarrow> \<not> st_sealed r \<Longrightarrow> c_worker c = Some w \<Longrightarrow>
    wk_phase w = Running \<Longrightarrow> wk_handover w = None \<Longrightarrow> wk_active_command w = None \<Longrightarrow>
    r' = r \<or> r' = r\<lparr>st_create_started := True\<rparr> \<and> \<not> st_create_started r \<and> \<not> wk_cleanup_only w \<and> state_check r' \<Longrightarrow>
    w' = w\<lparr>wk_handover := Some a, wk_active_command := Some a, wk_cleanup_revision := None\<rparr> \<Longrightarrow>
    worker_check w' \<Longrightarrow> cell_step c (c\<lparr>c_state := Some r', c_worker := Some w'\<rparr>)"
| fence: "c_state c = Some r \<Longrightarrow> \<not> st_revoked r \<Longrightarrow> c_worker c = Some w \<Longrightarrow> wk_phase w \<noteq> PhaseCompleted \<Longrightarrow>
    wk_process_identity w \<noteq> None \<Longrightarrow>
    w' = w\<lparr>wk_phase := PhaseFenced, wk_handover := None, wk_active_command := None\<rparr> \<Longrightarrow>
    worker_check w' \<Longrightarrow> cell_step c (c\<lparr>c_worker := Some w'\<rparr>)"
| complete: "c_state c = Some r \<Longrightarrow> \<not> st_sealed r \<Longrightarrow> st_lock_id r = None \<Longrightarrow> c_worker c = Some w \<Longrightarrow>
    wk_phase w \<in> {Running, PhaseFenced, Admitted} \<Longrightarrow> wk_handover w = None \<Longrightarrow> wk_active_command w = None \<Longrightarrow>
    c_gen c = Some g \<Longrightarrow> gen_state g = ''Destroying'' \<Longrightarrow>
    (if st_create_started r then wk_cleanup_revision w = Some (st_revision r) else True) \<Longrightarrow>
    r' = r\<lparr>st_sealed := True\<rparr> \<Longrightarrow> state_check r' \<Longrightarrow>
    w' = w\<lparr>wk_phase := PhaseCompleted, wk_completion_request := Some q, wk_completion_receipt := Some t\<rparr> \<Longrightarrow>
    worker_check w' \<Longrightarrow> gen_state g' = ''Destroyed'' \<Longrightarrow>
    cell_step c (c\<lparr>c_state := Some r', c_worker := Some w', c_gen := Some g'\<rparr>)"
| quarantine: "c_state c = Some r \<Longrightarrow> \<not> st_sealed r \<Longrightarrow> c_worker c = Some w \<Longrightarrow> wk_phase w \<noteq> PhaseQuarantined \<Longrightarrow>
    c_gen c = Some g \<Longrightarrow> r' = r\<lparr>st_revoked := True\<rparr> \<Longrightarrow> state_check r' \<Longrightarrow>
    w' = w\<lparr>wk_phase := PhaseQuarantined\<rparr>
      \<or> w' = w\<lparr>wk_phase := PhaseQuarantined, wk_handover := None, wk_active_command := None\<rparr> \<Longrightarrow>
    worker_check w' \<Longrightarrow> gen_state g' = ''Quarantined'' \<Longrightarrow>
    cell_step c (c\<lparr>c_state := Some r', c_worker := Some w', c_gen := Some g'\<rparr>)"
| release: "c_worker c = Some w \<Longrightarrow> wk_phase w = PhaseQuarantined \<Longrightarrow>
    w' = w\<lparr>wk_handover := None, wk_active_command := None\<rparr> \<Longrightarrow> worker_check w' \<Longrightarrow>
    cell_step c (c\<lparr>c_worker := Some w'\<rparr>)"
| rotate: "c_state c = Some r \<Longrightarrow> \<not> st_sealed r \<Longrightarrow> c_worker c = Some w \<Longrightarrow> wk_phase w \<noteq> PhaseQuarantined \<Longrightarrow>
    c_gen c = Some g \<Longrightarrow>
    r' = r\<lparr>st_worker_epoch := st_worker_epoch r + 1, st_worker_attempt := a, st_capability_hash := h,
           st_revoked := False, st_lock_id := None, st_lock_info := None\<rparr> \<Longrightarrow> state_check r' \<Longrightarrow>
    w' = w\<lparr>wk_control_hash := ch, wk_phase := Admitted, wk_process_identity := None, wk_cleanup_only := True,
           wk_handover := None, wk_active_command := None, wk_cleanup_revision := cr\<rparr> \<Longrightarrow> worker_check w' \<Longrightarrow>
    gen_state g' = (if gen_state g \<in> set create_states then ''CleanupRequired'' else gen_state g) \<Longrightarrow>
    cell_step c (c\<lparr>c_state := Some r', c_worker := Some w', c_gen := Some g'\<rparr>)"
| finalize_worker: "c_state c = Some r \<Longrightarrow> c_worker c = Some w \<Longrightarrow>
    wk_phase w \<in> {Admitted, PhaseFenced, PhaseQuarantined} \<Longrightarrow> wk_handover w = None \<Longrightarrow> wk_active_command w = None \<Longrightarrow>
    c_gen c = Some g \<Longrightarrow> gen_state g = ''Quarantined'' \<Longrightarrow>
    r' = r\<lparr>st_sealed := True, st_revoked := True\<rparr> \<Longrightarrow> state_check r' \<Longrightarrow>
    w' = w\<lparr>wk_phase := PhaseCompleted, wk_completion_request := Some q, wk_completion_receipt := Some t\<rparr> \<Longrightarrow>
    worker_check w' \<Longrightarrow> gen_state g' = ''Destroyed'' \<Longrightarrow>
    cell_step c (c\<lparr>c_state := Some r', c_worker := Some w', c_gen := Some g'\<rparr>)"
| finalize_legacy: "c_worker c = None \<Longrightarrow> c_gen c = Some g \<Longrightarrow> gen_state g = ''Quarantined'' \<Longrightarrow>
    (case c_state c of None \<Rightarrow> s' = None
     | Some r \<Rightarrow> s' = Some (r\<lparr>st_sealed := True, st_revoked := True\<rparr>) \<and> state_check (r\<lparr>st_sealed := True, st_revoked := True\<rparr>)) \<Longrightarrow>
    gen_state g' = ''Destroyed'' \<Longrightarrow> cell_step c (c\<lparr>c_state := s', c_gen := Some g'\<rparr>)"
| reap: "c_worker c = Some w \<Longrightarrow> wk_phase w = PhaseCompleted \<Longrightarrow> w' = w\<lparr>wk_workspace_reaped := True\<rparr> \<Longrightarrow>
    worker_check w' \<Longrightarrow> cell_step c (c\<lparr>c_worker := Some w'\<rparr>)"

text \<open>Several protocol steps in one transaction.\<close>

abbreviation cell_steps :: "cell \<Rightarrow> cell \<Rightarrow> bool" where
  "cell_steps \<equiv> cell_step\<^sup>*\<^sup>*"

section \<open>Progress of the state row\<close>

definition row_progress :: "state_row \<Rightarrow> state_row \<Rightarrow> bool" where
  "row_progress r r' \<longleftrightarrow>
     st_worker_epoch r \<le> st_worker_epoch r'
     \<and> (st_worker_epoch r' = st_worker_epoch r \<longrightarrow>
          st_worker_attempt r' = st_worker_attempt r \<and> st_capability_hash r' = st_capability_hash r
          \<and> (st_revoked r \<longrightarrow> st_revoked r'))
     \<and> st_revision r \<le> st_revision r'
     \<and> (st_revision r' = st_revision r \<longrightarrow> st_state_bytes r' = st_state_bytes r)
     \<and> (st_lineage r \<noteq> None \<longrightarrow> st_lineage r' = st_lineage r)
     \<and> (\<forall>n. st_serial r = Some n \<longrightarrow> (\<exists>m. st_serial r' = Some m \<and> n \<le> m
          \<and> (st_revision r < st_revision r' \<longrightarrow> n < m)))
     \<and> (st_create_started r \<longrightarrow> st_create_started r')
     \<and> (st_sealed r \<longrightarrow> st_sealed r' \<and> st_revision r' = st_revision r)"

definition cell_progress :: "cell \<Rightarrow> cell \<Rightarrow> bool" where
  "cell_progress c c' \<longleftrightarrow> (\<forall>r. c_state c = Some r \<longrightarrow> (\<exists>r'. c_state c' = Some r' \<and> row_progress r r'))"

lemma row_progress_refl [simp]: "row_progress r r"
  by (auto simp: row_progress_def)

lemma row_progress_trans:
  assumes "row_progress a b" and "row_progress b c"
  shows "row_progress a c"
proof -
  have serial: "\<exists>m. st_serial c = Some m \<and> n \<le> m \<and> (st_revision a < st_revision c \<longrightarrow> n < m)"
    if n: "st_serial a = Some n" for n
  proof -
    from assms(1) n obtain k where k: "st_serial b = Some k" "n \<le> k" "st_revision a < st_revision b \<longrightarrow> n < k"
      unfolding row_progress_def by blast
    from assms(2) k(1) obtain m where m: "st_serial c = Some m" "k \<le> m" "st_revision b < st_revision c \<longrightarrow> k < m"
      unfolding row_progress_def by blast
    have "st_revision a \<le> st_revision b" using assms(1) unfolding row_progress_def by blast
    with k m show ?thesis by (intro exI [of _ m]) auto
  qed
  have epochs: "st_worker_epoch a \<le> st_worker_epoch b" "st_worker_epoch b \<le> st_worker_epoch c"
      "st_revision a \<le> st_revision b" "st_revision b \<le> st_revision c"
    using assms unfolding row_progress_def by blast+
  have same: "st_worker_attempt c = st_worker_attempt a \<and> st_capability_hash c = st_capability_hash a
      \<and> (st_revoked a \<longrightarrow> st_revoked c)" if "st_worker_epoch c = st_worker_epoch a"
  proof -
    have "st_worker_epoch b = st_worker_epoch a" "st_worker_epoch c = st_worker_epoch b"
      using epochs that by auto
    with assms show ?thesis unfolding row_progress_def by simp
  qed
  have bytes: "st_state_bytes c = st_state_bytes a" if "st_revision c = st_revision a"
  proof -
    have "st_revision b = st_revision a" "st_revision c = st_revision b"
      using epochs that by auto
    with assms show ?thesis unfolding row_progress_def by simp
  qed
  have lineage: "st_lineage c = st_lineage a" if "st_lineage a \<noteq> None"
    using assms that unfolding row_progress_def by metis
  have seals: "st_sealed a \<longrightarrow> st_sealed c \<and> st_revision c = st_revision a"
      "st_create_started a \<longrightarrow> st_create_started c"
    using assms unfolding row_progress_def by auto
  show ?thesis
    unfolding row_progress_def using serial epochs same bytes lineage seals by auto
qed

lemma cell_progress_refl: "cell_progress c c"
  by (simp add: cell_progress_def)

lemma cell_progress_trans: "cell_progress a b \<Longrightarrow> cell_progress b c \<Longrightarrow> cell_progress a c"
  unfolding cell_progress_def using row_progress_trans by metis

lemma cell_progress_same: "c_state c' = c_state c \<Longrightarrow> cell_progress c c'"
  by (simp add: cell_progress_def)

lemma cell_progress_put:
  "c_state c = Some r \<Longrightarrow> c_state c' = Some r' \<Longrightarrow> row_progress r r' \<Longrightarrow> cell_progress c c'"
  by (simp add: cell_progress_def)

lemma cell_step_progress: "cell_step c c' \<Longrightarrow> cell_progress c c'"
proof (induction rule: cell_step.induct)
  case (store c r l n r' b w')
  then show ?case
    by (intro cell_progress_put [where r = r and r' = r']) (auto simp: row_progress_def)
qed (auto simp: cell_progress_def row_progress_def split: option.splits)

lemma cell_steps_progress: "cell_steps c c' \<Longrightarrow> cell_progress c c'"
  by (induction rule: rtranclp_induct) (auto intro: cell_progress_refl cell_progress_trans cell_step_progress)

section \<open>The invariant of a generation\<close>

definition cell_inv :: "cell \<Rightarrow> bool" where
  "cell_inv c \<longleftrightarrow>
     (\<forall>r. c_state c = Some r \<longrightarrow> state_check r \<and> c_gen c \<noteq> None)
     \<and> (\<forall>w. c_worker c = Some w \<longrightarrow> worker_check w \<and>
          (\<exists>r g. c_state c = Some r \<and> c_gen c = Some g
             \<and> (wk_phase w = PhaseCompleted \<longleftrightarrow> gen_state g = ''Destroyed'')
             \<and> (wk_phase w = PhaseCompleted \<longrightarrow> st_sealed r)
             \<and> (wk_phase w = PhaseQuarantined \<longrightarrow> st_revoked r \<and> gen_state g = ''Quarantined'')))"

lemma from_destroyed: "from_str_repr ''Destroyed'' = Inr s \<Longrightarrow> s = Destroyed"
  using as_str_from_str [of "''Destroyed''" s] by (cases s) simp_all

lemma from_quarantined: "from_str_repr ''Quarantined'' = Inr s \<Longrightarrow> s = Quarantined"
  using as_str_from_str [of "''Quarantined''" s] by (cases s) simp_all

lemma as_str_destroyed: "as_str_repr t = ''Destroyed'' \<longleftrightarrow> t = Destroyed"
  by (cases t) simp_all

lemma cell_inv_worker:
  assumes "cell_inv c" and "c_worker c = Some w"
  obtains r g where "c_state c = Some r" "c_gen c = Some g" "state_check r" "worker_check w"
    "wk_phase w = PhaseCompleted \<longleftrightarrow> gen_state g = ''Destroyed''"
    "wk_phase w = PhaseCompleted \<longrightarrow> st_sealed r"
    "wk_phase w = PhaseQuarantined \<longrightarrow> st_revoked r \<and> gen_state g = ''Quarantined''"
  using assms unfolding cell_inv_def by blast

lemma cell_invI:
  assumes "\<And>r. c_state c = Some r \<Longrightarrow> state_check r \<and> c_gen c \<noteq> None"
    and "\<And>w. c_worker c = Some w \<Longrightarrow> worker_check w \<and>
          (\<exists>r g. c_state c = Some r \<and> c_gen c = Some g
             \<and> (wk_phase w = PhaseCompleted \<longleftrightarrow> gen_state g = ''Destroyed'')
             \<and> (wk_phase w = PhaseCompleted \<longrightarrow> st_sealed r)
             \<and> (wk_phase w = PhaseQuarantined \<longrightarrow> st_revoked r \<and> gen_state g = ''Quarantined''))"
  shows "cell_inv c"
  using assms unfolding cell_inv_def by blast

text \<open>Steps that keep the worker's phase, the seal, the revocation and the generation's state.\<close>

lemma cell_inv_state:
  assumes "cell_inv c" and "c_state c = Some r" and "state_check r'"
    and "st_sealed r \<longrightarrow> st_sealed r'" and "st_revoked r \<longrightarrow> st_revoked r'"
    and "c_worker c' = c_worker c \<or> (\<exists>w w'. c_worker c = Some w \<and> c_worker c' = Some w'
           \<and> wk_phase w' = wk_phase w \<and> worker_check w')"
    and "c_state c' = Some r'" and "c_gen c' = c_gen c"
  shows "cell_inv c'"
proof (rule cell_invI)
  fix s assume "c_state c' = Some s"
  with assms(1,2,3,7,8) show "state_check s \<and> c_gen c' \<noteq> None"
    unfolding cell_inv_def by simp
next
  fix w' assume w': "c_worker c' = Some w'"
  have "\<exists>w. c_worker c = Some w \<and> wk_phase w' = wk_phase w \<and> worker_check w'"
    using assms(6)
  proof
    assume "c_worker c' = c_worker c"
    with w' have "c_worker c = Some w'" by simp
    with cell_inv_worker [OF assms(1) this] show ?thesis by blast
  next
    assume "\<exists>w w'. c_worker c = Some w \<and> c_worker c' = Some w' \<and> wk_phase w' = wk_phase w \<and> worker_check w'"
    with w' show ?thesis by auto
  qed
  then obtain w where w: "c_worker c = Some w" "wk_phase w' = wk_phase w" and chk: "worker_check w'"
    by blast
  from cell_inv_worker [OF assms(1) w(1)] show "worker_check w' \<and>
          (\<exists>r g. c_state c' = Some r \<and> c_gen c' = Some g
             \<and> (wk_phase w' = PhaseCompleted \<longleftrightarrow> gen_state g = ''Destroyed'')
             \<and> (wk_phase w' = PhaseCompleted \<longrightarrow> st_sealed r)
             \<and> (wk_phase w' = PhaseQuarantined \<longrightarrow> st_revoked r \<and> gen_state g = ''Quarantined''))"
    using assms chk w(2) by (metis option.inject)
qed

text \<open>Steps of the worker alone, between phases that are neither terminal nor quarantined.\<close>

lemma cell_inv_phase:
  assumes "cell_inv c" and "c_worker c = Some w" and "worker_check w'"
    and "wk_phase w' = wk_phase w \<or> wk_phase w \<noteq> PhaseCompleted \<and> wk_phase w' \<noteq> PhaseCompleted \<and> wk_phase w' \<noteq> PhaseQuarantined"
  shows "cell_inv (c\<lparr>c_worker := Some w'\<rparr>)"
proof (rule cell_invI)
  fix s assume "c_state (c\<lparr>c_worker := Some w'\<rparr>) = Some s"
  then show "state_check s \<and> c_gen (c\<lparr>c_worker := Some w'\<rparr>) \<noteq> None"
    using assms(1) by (simp add: cell_inv_def)
next
  fix v assume "c_worker (c\<lparr>c_worker := Some w'\<rparr>) = Some v"
  then have v: "v = w'" by simp
  from cell_inv_worker [OF assms(1,2)] obtain r g where "c_state c = Some r" "c_gen c = Some g"
    "wk_phase w = PhaseCompleted \<longleftrightarrow> gen_state g = ''Destroyed''"
    "wk_phase w = PhaseCompleted \<longrightarrow> st_sealed r"
    "wk_phase w = PhaseQuarantined \<longrightarrow> st_revoked r \<and> gen_state g = ''Quarantined''" .
  with v assms(3,4) show "worker_check v \<and>
          (\<exists>r g. c_state (c\<lparr>c_worker := Some w'\<rparr>) = Some r \<and> c_gen (c\<lparr>c_worker := Some w'\<rparr>) = Some g
             \<and> (wk_phase v = PhaseCompleted \<longleftrightarrow> gen_state g = ''Destroyed'')
             \<and> (wk_phase v = PhaseCompleted \<longrightarrow> st_sealed r)
             \<and> (wk_phase v = PhaseQuarantined \<longrightarrow> st_revoked r \<and> gen_state g = ''Quarantined''))"
    by auto
qed

lemma cell_inv_all:
  assumes "state_check r" and "worker_check w" and "c_state c = Some r" and "c_worker c = Some w" and "c_gen c = Some g"
    and "wk_phase w = PhaseCompleted \<longleftrightarrow> gen_state g = ''Destroyed''"
    and "wk_phase w = PhaseCompleted \<longrightarrow> st_sealed r"
    and "wk_phase w = PhaseQuarantined \<longrightarrow> st_revoked r \<and> gen_state g = ''Quarantined''"
  shows "cell_inv c"
  using assms unfolding cell_inv_def by simp

lemma cell_step_inv:
  assumes "cell_step c c'" and "cell_inv c"
  shows "cell_inv c'"
  using assms
proof (induction rule: cell_step.induct)
  case (new_generation c g)
  then show ?case by (auto simp: cell_inv_def)
next
  case (new_state c r)
  then show ?case by (auto simp: cell_inv_def)
next
  case (admit c g r w)
  then show ?case by (intro cell_inv_all [where r = r and w = w and g = g]) auto
next
  case (store c r l n r' b w')
  then show ?case
    by (intro cell_inv_state [OF store.prems, where r = r and r' = r']) auto
next
  case (annotate c g g')
  then show ?case by (fastforce simp: cell_inv_def)
next
  case (advance_generation c g s t g')
  have "s \<noteq> Destroyed" using advance_generation(3) by (cases s) auto
  then have g: "gen_state g \<noteq> ''Destroyed''"
    using advance_generation(2) from_str_as_str [of Destroyed] by (auto dest: from_destroyed)
  show ?case
  proof (cases "c_worker c")
    case None
    with advance_generation show ?thesis by (auto simp: cell_inv_def)
  next
    case (Some w)
    from cell_inv_worker [OF advance_generation.prems Some] obtain r g0 where r: "c_state c = Some r" "c_gen c = Some g0"
      "state_check r" "worker_check w" "wk_phase w = PhaseCompleted \<longleftrightarrow> gen_state g0 = ''Destroyed''"
      "wk_phase w = PhaseQuarantined \<longrightarrow> st_revoked r \<and> gen_state g0 = ''Quarantined''" .
    have t: "t \<noteq> Destroyed" using advance_generation(5) Some by simp
    have nq: "gen_state g \<noteq> ''Quarantined''"
    proof
      assume "gen_state g = ''Quarantined''"
      with advance_generation(2,3) t show False by (auto dest: from_quarantined)
    qed
    from r advance_generation(1) have "g0 = g" by simp
    with r g nq have "wk_phase w \<noteq> PhaseCompleted" "wk_phase w \<noteq> PhaseQuarantined" by auto
    moreover have "gen_state g' \<noteq> ''Destroyed''" using t advance_generation(4) by (simp add: as_str_destroyed)
    ultimately show ?thesis
      using r Some by (intro cell_inv_all [where r = r and w = w and g = g']) auto
  qed
next
  case (effect c r w r' w' a)
  then show ?case
    by (intro cell_inv_state [OF effect.prems effect(1), where r' = r'])
      (auto simp: cell_inv_def)
next
  case (fence c r w w')
  from cell_inv_worker [OF fence.prems fence(3)] fence(1,2) have "wk_phase w \<noteq> PhaseQuarantined" by auto
  with fence show ?case by (intro cell_inv_phase) auto
next
  case (complete c r w g r' w' q t g')
  then show ?case by (intro cell_inv_all [where r = r' and w = w' and g = g']) auto
next
  case (quarantine c r w g r' w' g')
  then show ?case by (intro cell_inv_all [where r = r' and w = w' and g = g']) auto
next
  case (rotate c r w g r' a h w' ch cr g')
  from cell_inv_worker [OF rotate.prems rotate(3)] rotate(1,2,5) have nd: "gen_state g \<noteq> ''Destroyed''" by auto
  then have "gen_state g' \<noteq> ''Destroyed''" using rotate by auto
  with rotate show ?case by (intro cell_inv_all [where r = r' and w = w' and g = g']) auto
next
  case (finalize_worker c r w g r' w' q t g')
  then show ?case by (intro cell_inv_all [where r = r' and w = w' and g = g']) auto
next
  case (finalize_legacy c g s' g')
  then show ?case by (auto simp: cell_inv_def split: option.splits)
next
  case (lock c r r' i b)
  then show ?case by (intro cell_inv_state [OF lock.prems lock(1), where r' = r']) auto
next
  case (unlock c r r')
  then show ?case by (intro cell_inv_state [OF unlock.prems unlock(1), where r' = r']) auto
next
  case (revoke c r r')
  then show ?case by (intro cell_inv_state [OF revoke.prems revoke(1), where r' = r']) auto
next
  case (start_create c r r')
  then show ?case by (intro cell_inv_state [OF start_create.prems start_create(1), where r' = r']) auto
next
  case (seal_state c r r')
  then show ?case by (intro cell_inv_state [OF seal_state.prems seal_state(1), where r' = r']) auto
next
  case (launch c r w w')
  then show ?case by (intro cell_inv_phase [where w = w]) simp_all
next
  case (register c r w w' p)
  then show ?case by (intro cell_inv_phase [where w = w]) simp_all
next
  case (running c r w w')
  then show ?case by (intro cell_inv_phase [where w = w]) simp_all
next
  case (bootstrap c w w' a)
  then show ?case by (intro cell_inv_phase [where w = w]) simp_all
next
  case (release c w w')
  then show ?case by (intro cell_inv_phase [where w = w]) simp_all
next
  case (reap c w w')
  then show ?case by (intro cell_inv_phase [where w = w]) simp_all
qed

lemma cell_steps_inv: "cell_steps c c' \<Longrightarrow> cell_inv c \<Longrightarrow> cell_inv c'"
  by (induction rule: rtranclp_induct) (auto intro: cell_step_inv)

text \<open>A worker exists only under a canonical identifier.\<close>

definition cell_named :: "cell \<Rightarrow> bool" where
  "cell_named c \<longleftrightarrow> (c_worker c \<noteq> None \<longrightarrow> c_canonical c)"

lemma cell_step_canonical: "cell_step c c' \<Longrightarrow> c_canonical c' = c_canonical c"
  by (induction rule: cell_step.induct) simp_all

lemma cell_step_named: "cell_step c c' \<Longrightarrow> cell_named c \<Longrightarrow> cell_named c'"
  by (induction rule: cell_step.induct) (auto simp: cell_named_def)

lemma cell_steps_canonical: "cell_steps c c' \<Longrightarrow> c_canonical c' = c_canonical c"
  by (induction rule: rtranclp_induct) (auto dest: cell_step_canonical)

lemma cell_steps_named: "cell_steps c c' \<Longrightarrow> cell_named c \<Longrightarrow> cell_named c'"
  by (induction rule: rtranclp_induct) (auto intro: cell_step_named)

text \<open>No row of a worker is ever deleted.\<close>

lemma cell_steps_worker: "cell_steps c c' \<Longrightarrow> c_worker c \<noteq> None \<Longrightarrow> c_worker c' \<noteq> None"
proof (induction rule: rtranclp_induct)
  case (step c' c'')
  from step.hyps(2) have "c_worker c' \<noteq> None \<longrightarrow> c_worker c'' \<noteq> None"
    by (induction rule: cell_step.induct) auto
  with step show ?case by blast
qed

section \<open>Destroyed is final\<close>

definition destroyed :: "cell \<Rightarrow> bool" where
  "destroyed c \<longleftrightarrow> (\<exists>g. c_gen c = Some g \<and> gen_state g = ''Destroyed'')"

lemma destroyed_step:
  assumes "cell_step c c'" and "cell_inv c" and "destroyed c"
  shows "destroyed c'"
  using assms
proof (induction rule: cell_step.induct)
  case (advance_generation c g s t g')
  then have "s = Destroyed" by (auto simp: destroyed_def dest: from_destroyed)
  with advance_generation(3) show ?case by simp
next
  case (quarantine c r w g r' w' g')
  from cell_inv_worker [OF quarantine.prems(1) quarantine(3)] quarantine show ?case
    by (auto simp: destroyed_def)
qed (auto simp: destroyed_def create_states_def)

lemma destroyed_steps: "cell_steps c c' \<Longrightarrow> cell_inv c \<Longrightarrow> destroyed c \<Longrightarrow> destroyed c'"
  by (induction rule: rtranclp_induct) (auto intro: destroyed_step cell_steps_inv)

section \<open>A quarantined generation with an orphan lock\<close>

definition stuck :: "cell \<Rightarrow> bool" where
  "stuck c \<longleftrightarrow> (\<exists>r w g. c_state c = Some r \<and> c_worker c = Some w \<and> c_gen c = Some g
     \<and> wk_phase w = PhaseQuarantined \<and> st_revoked r \<and> st_lock_id r \<noteq> None \<and> gen_state g = ''Quarantined'')"

lemma sealed_check: "state_check r \<Longrightarrow> st_sealed r \<Longrightarrow> st_lock_id r = None"
  by (simp add: state_check_def)

lemma stuck_step:
  assumes "cell_step c c'" and "stuck c"
  shows "stuck c'"
  using assms
proof (induction rule: cell_step.induct)
  case (advance_generation c g s t g')
  from advance_generation.prems obtain w where "c_worker c = Some w" and g: "gen_state g = ''Quarantined''"
    using advance_generation(1) by (auto simp: stuck_def)
  with advance_generation(5) have "t \<noteq> Destroyed" by simp
  moreover have "s = Quarantined" using advance_generation(2) g by (auto dest: from_quarantined)
  ultimately show ?case using advance_generation(3) by simp
next
  case (finalize_worker c r w g r' w' q t g')
  then show ?case by (auto simp: stuck_def dest: sealed_check)
qed (auto simp: stuck_def)

lemma stuck_steps: "cell_steps c c' \<Longrightarrow> stuck c \<Longrightarrow> stuck c'"
  by (induction rule: rtranclp_induct) (auto intro: stuck_step)

end
