(* ===== verification/Template_Pool.thy ===== *)
theory Template_Pool
  imports Identity Json
begin

text \<open>
  Weighted template pools, \<open>crates/shaula-core/src/template_pool.rs\<close>: the pool specification and
  its validation, and the choice of a member from 128 bits of entropy.
\<close>

section \<open>Specification\<close>

datatype pool_failure_policy = Backpressure | Redistribute

record template_pool_member =
  member_key :: string
  member_profile_ref :: string
  weight :: nat
  member_inputs :: json_object
  member_max_runners :: "int option"

record template_pool_spec =
  members :: "template_pool_member list"
  failure_policy :: pool_failure_policy

text \<open>The loop body of \<open>TemplatePoolSpec::validate\<close>; \<open>keys\<close> is the hash set of the keys seen.\<close>

fun validate_members :: "string list \<Rightarrow> template_pool_member list \<Rightarrow> unit core_result" where
  "validate_members keys [] = Inr ()"
| "validate_members keys (m # ms) =
     (if \<not> is_stable_identifier (member_key m) \<or> length (member_key m) > 100 \<or> member_key m \<in> set keys
      then core_err SpecInvalid ''template pool member keys must be unique stable identifiers''
      else if weight m = 0 \<or> weight m > 10000
      then core_err SpecInvalid ''template pool member weight must be 1..=10000''
      else if (case member_max_runners m of None \<Rightarrow> False | Some v \<Rightarrow> v < 0)
      then core_err SpecInvalid ''template pool member max_runners must be non-negative''
      else if member_profile_ref m = []
      then core_err SpecInvalid ''template pool member template_profile_ref is required''
      else validate_members (member_key m # keys) ms)"

definition pool_validate :: "template_pool_spec \<Rightarrow> unit core_result" where
  "pool_validate spec =
     (if members spec = [] \<or> length (members spec) > 32
      then core_err SpecInvalid ''template pool must contain 1..=32 members''
      else validate_members [] (members spec))"

section \<open>Choice of a member\<close>

text \<open>\<open>weights.iter().position(..)\<close> with its running \<open>offset\<close>.\<close>

fun weight_position :: "nat \<Rightarrow> nat \<Rightarrow> nat list \<Rightarrow> nat option" where
  "weight_position draw offset [] = None"
| "weight_position draw offset (w # ws) =
     (if draw < offset + w then Some 0
      else map_option Suc (weight_position draw (offset + w) ws))"

definition weighted_member_index :: "nat list \<Rightarrow> nat \<Rightarrow> nat option" where
  "weighted_member_index weights entropy =
     (let total = sum_list weights in
      if total = 0 then None
      else let limit = u128_max - u128_max mod total in
        if entropy \<ge> limit then None
        else weight_position (entropy mod total) 0 weights)"

section \<open>Facts\<close>

lemma validate_members_Inr:
  "validate_members keys ms = Inr () \<longleftrightarrow>
     distinct (map member_key ms) \<and> set keys \<inter> set (map member_key ms) = {} \<and>
     (\<forall>m\<in>set ms. is_stable_identifier (member_key m) \<and> length (member_key m) \<le> 100
        \<and> 0 < weight m \<and> weight m \<le> 10000
        \<and> (\<forall>v. member_max_runners m = Some v \<longrightarrow> 0 \<le> v) \<and> member_profile_ref m \<noteq> [])"
proof (induction ms arbitrary: keys)
  case (Cons m ms)
  show ?case
    by (auto simp: Cons.IH not_less split: option.splits)
qed simp

lemma weight_position_Some:
  "weight_position draw offset ws = Some i \<and> offset \<le> draw \<longleftrightarrow>
     i < length ws \<and> offset + sum_list (take i ws) \<le> draw \<and> draw < offset + sum_list (take (Suc i) ws)"
proof (induction ws arbitrary: offset i)
  case (Cons w ws)
  show ?case
  proof (cases i)
    case 0
    then show ?thesis by auto
  next
    case (Suc j)
    then show ?thesis using Cons.IH [of "offset + w" j] by (auto simp: add.assoc)
  qed
qed simp

lemma weight_position_total:
  "offset \<le> draw \<Longrightarrow> draw < offset + sum_list ws \<Longrightarrow> weight_position draw offset ws \<noteq> None"
proof (induction ws arbitrary: offset)
  case (Cons w ws)
  then show ?case using Cons.IH [of "offset + w"] by (auto simp: add.assoc not_less)
qed simp

lemma limit_eq: "u128_max - u128_max mod t = t * (u128_max div t)"
  by (simp add: minus_mod_eq_mult_div)

lemma weighted_member_index_pos:
  assumes "sum_list ws = t" and "0 < t"
  shows "weighted_member_index ws e =
    (if t * (u128_max div t) \<le> e then None else weight_position (e mod t) 0 ws)"
  using assms(2) by (simp add: weighted_member_index_def Let_def assms(1) limit_eq)

lemma weighted_member_index_Some:
  assumes "sum_list ws = t" and "0 < t"
  shows "weighted_member_index ws e = Some i \<longleftrightarrow>
     e < t * (u128_max div t) \<and> i < length ws
     \<and> sum_list (take i ws) \<le> e mod t \<and> e mod t < sum_list (take (Suc i) ws)"
  using weight_position_Some [of "e mod t" 0 ws i]
  by (auto simp: weighted_member_index_pos [OF assms] not_less)

lemma card_residues:
  assumes "b \<le> t" and "0 < (t::nat)"
  shows "card {e. e < t * q \<and> a \<le> e mod t \<and> e mod t < b} = q * (b - a)"
proof -
  let ?f = "\<lambda>(k, r). k * t + r"
  have "{e. e < t * q \<and> a \<le> e mod t \<and> e mod t < b} = ?f ` ({..<q} \<times> {a..<b})"
  proof (intro set_eqI iffI)
    fix e assume "e \<in> {e. e < t * q \<and> a \<le> e mod t \<and> e mod t < b}"
    then have "e div t < q" and "e mod t \<in> {a..<b}"
      by (auto simp: less_mult_imp_div_less mult.commute)
    then show "e \<in> ?f ` ({..<q} \<times> {a..<b})"
      by (intro image_eqI [where x = "(e div t, e mod t)"]) auto
  next
    fix e assume "e \<in> ?f ` ({..<q} \<times> {a..<b})"
    then obtain k r where e: "e = k * t + r" and kr: "k < q" "a \<le> r" "r < b" by auto
    then have r: "r < t" using assms by simp
    have "k * t + r < Suc k * t" using r by simp
    also have "\<dots> \<le> q * t" using kr by (intro mult_le_mono1) simp
    finally show "e \<in> {e. e < t * q \<and> a \<le> e mod t \<and> e mod t < b}"
      using e kr r by (simp add: mult.commute)
  qed
  moreover have "inj_on ?f ({..<q} \<times> {a..<b})"
  proof (rule inj_onI, clarsimp)
    fix k r k' r'
    assume *: "r < b" "r' < b" "k * t + r = k' * t + r'"
    then have "r < t" "r' < t" using assms(1) by auto
    then have "(k * t + r) div t = k" "(k' * t + r') div t = k'" by simp_all
    with *(3) have "k = k'" by metis
    with *(3) show "k = k' \<and> r = r'" by simp
  qed
  ultimately show ?thesis by (simp add: card_image)
qed

lemma sum_list_take_le: "sum_list (take n ws) \<le> sum_list (ws :: nat list)"
  by (metis append_take_drop_id le_add1 sum_list_append)

lemma sum_list_take_Suc: "i < length ws \<Longrightarrow> sum_list (take (Suc i) ws) = sum_list (take i ws) + ws ! i"
  by (simp add: take_Suc_conv_app_nth)

section \<open>Properties\<close>

text \<open>C38. The selection is exactly proportional: over all entropy values of 128 bits, member \<open>i\<close> is
  chosen by \<open>weight i\<close> times the same number \<open>u128::MAX div total\<close> of values, so no member is
  favoured by the modulo reduction.\<close>

theorem weighted_selection_unbiased:
  assumes "i < length ws" and "0 < sum_list ws"
  shows "card {e. e \<le> u128_max \<and> weighted_member_index ws e = Some i} = ws ! i * (u128_max div sum_list ws)"
proof -
  obtain t where t: "sum_list ws = t" and pos: "0 < t" using assms(2) by blast
  have le: "t * (u128_max div t) \<le> u128_max" by simp
  have "{e. e \<le> u128_max \<and> weighted_member_index ws e = Some i} =
    {e. e < t * (u128_max div t) \<and> sum_list (take i ws) \<le> e mod t \<and> e mod t < sum_list (take (Suc i) ws)}"
    using assms(1) le by (auto simp: weighted_member_index_Some [OF t pos] simp del: times_div_less_eq_dividend)
  moreover have "sum_list (take (Suc i) ws) \<le> t"
    using sum_list_take_le [of "Suc i" ws] t by simp
  ultimately show ?thesis
    using card_residues [OF _ pos, of "sum_list (take (Suc i) ws)" "u128_max div t" "sum_list (take i ws)"] assms(1) t
    by (simp add: sum_list_take_Suc mult.commute)
qed

theorem weighted_selection_unbiased_witness:
  "card {e. e \<le> u128_max \<and> weighted_member_index [10, 20] e = Some 1} = 20 * (u128_max div 30)"
  using weighted_selection_unbiased [of 1 "[10, 20]"] by simp

text \<open>A draw is always valid and rarely repeated: a selected index is in range and has a positive
  weight, and when some weight is positive at most \<open>total\<close> of the \<open>2^128\<close> entropy values ask for
  a fresh sample.\<close>

theorem weighted_selection_total:
  assumes "0 < sum_list ws"
  shows "card {e. e \<le> u128_max \<and> weighted_member_index ws e = None} \<le> sum_list ws
    \<and> (\<forall>e i. weighted_member_index ws e = Some i \<longrightarrow> i < length ws \<and> 0 < ws ! i)"
proof -
  obtain t where t: "sum_list ws = t" and pos: "0 < t" using assms by blast
  let ?limit = "t * (u128_max div t)"
  have "weighted_member_index ws e \<noteq> None" if "e < ?limit" for e
    using that pos weight_position_total [of 0 "e mod t" ws]
    by (simp add: weighted_member_index_pos [OF t pos] t)
  then have "{e. e \<le> u128_max \<and> weighted_member_index ws e = None} \<subseteq> {?limit..u128_max}"
    by (force intro!: leI)
  then have "card {e. e \<le> u128_max \<and> weighted_member_index ws e = None} \<le> card {?limit..u128_max}"
    by (rule card_mono [OF finite_atLeastAtMost])
  also have "\<dots> = Suc (u128_max mod t)"
    by (simp add: Suc_diff_le modulo_nat_def mult.commute)
  also have "\<dots> \<le> t" using pos by (simp add: Suc_le_eq)
  finally show ?thesis
    using t by (auto simp: weighted_member_index_Some [OF t pos] sum_list_take_Suc)
qed

theorem weighted_selection_total_witness:
  "card {e. e \<le> u128_max \<and> weighted_member_index [0, 3] e = None} \<le> 3
   \<and> weighted_member_index [0, 3] 7 = Some 1"
proof -
  have "weighted_member_index [0, 3] 7 = Some 1"
    by (simp add: weighted_member_index_def u128_max_def)
  then show ?thesis using weighted_selection_total [of "[0, 3]"] by simp
qed


definition sample_pool :: template_pool_spec where
  "sample_pool = \<lparr>members = [\<lparr>member_key = ''a'', member_profile_ref = ''t'', weight = 3, member_inputs = [],
     member_max_runners = Some 2\<rparr>], failure_policy = Backpressure\<rparr>"


end
