(* ===== verification/Pool_Admission.thy ===== *)
theory Pool_Admission
  imports Worker_Ledger Template_Pool
begin

text \<open>
  Admission of a generation: \<open>registry_impl/pool_admission.rs\<close> (\<open>generation_admit_pool_impl\<close> and
  \<open>generation_insert_guarded_impl\<close>), \<open>lifecycle_pool_admit.rs\<close> (the routing source and replayed
  inputs), \<open>member_occupancy\<close> of \<open>generation_counts.rs\<close> and the conversions of \<open>mapping.rs\<close>.
  The diagnostics recorded on the way are not modelled.  Entropy is a list of draws: an exhausted
  list is the value \<open>None\<close>, the loop that samples again is still drawing.
\<close>

section \<open>Tables and conversions\<close>

record member_row =
  mr_key :: string
  mr_profile :: string
  mr_revision :: int
  mr_digest :: string
  mr_attestation :: string
  mr_inputs_json :: string
  mr_inputs_digest :: string
  mr_weight :: int
  mr_max_runners :: "int option"

text \<open>
  \<open>template_pool_ref\<close> and \<open>template_pool_revision\<close> of \<open>fleet_revisions\<close>, the inline members of a fleet
  revision, and the members and failure policy of a shared pool revision.
\<close>

record pool_tables =
  pool_refs :: "((string \<times> int) \<times> (string option \<times> int option)) list"
  inline_rows :: "((string \<times> int) \<times> member_row list) list"
  pool_rows :: "((string \<times> int) \<times> member_row list) list"
  pool_policies :: "((string \<times> int) \<times> string) list"

text \<open>
  The deserializers: of a fleet specification what admission reads (\<open>capacity.max_runners\<close> and the
  failure policy of an inline pool), and of the inputs of a member.
\<close>

record pool_codec =
  decode_capacity :: "string \<Rightarrow> (int \<times> pool_failure_policy option) option"
  decode_inputs :: "string \<Rightarrow> json_object option"

record admit_member =
  am_key :: string
  am_profile :: string
  am_revision :: int
  am_digest :: string
  am_attestation :: string
  am_inputs :: json_object
  am_inputs_digest :: string
  am_weight :: nat
  am_max_runners :: "int option"

record pool_routing =
  route_members :: "admit_member list"
  route_policy :: pool_failure_policy
  route_scope :: "(string \<times> int) option"

record fleet_guard =
  guard_incarnation :: string
  guard_revision :: int
  guard_fence :: int

record pool_admission =
  pa_generation :: generation_record
  pa_inputs :: json_object

record fresh_credentials =
  fresh_lineage :: string
  fresh_attempt :: string
  fresh_control :: string
  fresh_state_cap :: string

definition template_inputs_from_json :: "pool_codec \<Rightarrow> string \<Rightarrow> store_error + json_object" where
  "template_inputs_from_json C text =
     ok_or (StoreCorrupt ''template pool member inputs are invalid'') (decode_inputs C text)"

definition pool_member_weight :: "int \<Rightarrow> store_error + nat" where
  "pool_member_weight w =
     (if 0 \<le> w \<and> w \<le> int u32_max then Inr (nat w)
      else Inl (StoreCorrupt ''template pool member weight is out of range''))"

definition pool_failure_policy_parse :: "string \<Rightarrow> store_error + pool_failure_policy" where
  "pool_failure_policy_parse value0 =
     (if value0 = ''backpressure'' then Inr Backpressure
      else if value0 = ''redistribute'' then Inr Redistribute
      else Inl (StoreCorrupt ''template pool failure policy is invalid''))"

definition admit_member_of :: "pool_codec \<Rightarrow> member_row \<Rightarrow> core_error + admit_member" where
  "admit_member_of C m =
     and_then (map_err core_of_store (template_inputs_from_json C (mr_inputs_json m))) (\<lambda>inputs.
     and_then (map_err core_of_store (pool_member_weight (mr_weight m))) (\<lambda>w.
     Inr \<lparr>am_key = mr_key m, am_profile = mr_profile m, am_revision = mr_revision m, am_digest = mr_digest m,
          am_attestation = mr_attestation m, am_inputs = inputs, am_inputs_digest = mr_inputs_digest m,
          am_weight = w, am_max_runners = mr_max_runners m\<rparr>))"

text \<open>A table indexed by a pair, with no rows where nothing is stored.\<close>

definition rows_at :: "((string \<times> int) \<times> member_row list) list \<Rightarrow> string \<times> int \<Rightarrow> member_row list" where
  "rows_at table k = (case map_of table k of None \<Rightarrow> [] | Some rows \<Rightarrow> rows)"

definition pool_ref :: "pool_tables \<Rightarrow> string \<Rightarrow> int \<Rightarrow> (string \<times> int) option" where
  "pool_ref T fleet revision =
     (case map_of (pool_refs T) (fleet, revision) of Some (Some k, Some n) \<Rightarrow> Some (k, n) | _ \<Rightarrow> None)"

definition load_routing ::
  "pool_codec \<Rightarrow> pool_tables \<Rightarrow> string \<Rightarrow> int \<Rightarrow> admit_member list \<Rightarrow> pool_failure_policy \<Rightarrow> pool_routing core_result" where
  "load_routing C T fleet revision inline_members inline_policy =
     (case pool_ref T fleet revision of
        None \<Rightarrow> Inr \<lparr>route_members = inline_members, route_policy = inline_policy, route_scope = None\<rparr>
      | Some (k, n) \<Rightarrow>
          and_then (collect (admit_member_of C) (rows_at (pool_rows T) (k, n))) (\<lambda>ms.
          and_then (and_then (ok_or (core_of_store (StoreCorrupt ''shared template pool revision is missing''))
                                    (map_of (pool_policies T) (k, n)))
                      (\<lambda>text. map_err core_of_store (pool_failure_policy_parse text))) (\<lambda>policy.
          Inr \<lparr>route_members = ms, route_policy = policy, route_scope = Some (k, n)\<rparr>)))"

definition replay_member_inputs ::
  "pool_codec \<Rightarrow> pool_tables \<Rightarrow> string \<Rightarrow> int \<Rightarrow> string \<Rightarrow> json_object option \<Rightarrow> json_object core_result" where
  "replay_member_inputs C T fleet revision key inline_inputs =
     (case pool_ref T fleet revision of
        Some (k, n) \<Rightarrow>
          (case find (\<lambda>m. mr_key m = key) (rows_at (pool_rows T) (k, n)) of
             Some m \<Rightarrow> map_err core_of_store (template_inputs_from_json C (mr_inputs_json m))
           | None \<Rightarrow> Inl (core_of_store (StoreCorrupt ''shared template pool member is missing'')))
      | None \<Rightarrow> ok_or (core_of_store (StoreCorrupt ''inline template pool member is missing from fleet revision''))
                  inline_inputs)"

section \<open>Occupancy of a member\<close>

text \<open>The generations a pool scope counts: by fleet, or by the pool their fleet revision froze.\<close>

definition in_scope :: "pool_tables \<Rightarrow> string \<Rightarrow> (string \<times> int) option \<Rightarrow> generation_row \<Rightarrow> bool" where
  "in_scope T fleet scope g =
     (case scope of
        None \<Rightarrow> gen_fleet_key g = fleet
      | Some (k, _) \<Rightarrow>
          (case map_of (pool_refs T) (gen_fleet_key g, gen_fleet_revision g) of
             Some (Some k', _) \<Rightarrow> k' = k | _ \<Rightarrow> False))"

definition member_occupancy :: "pool_tables \<Rightarrow> string \<Rightarrow> (string \<times> int) option \<Rightarrow> ledger \<Rightarrow> string \<Rightarrow> int" where
  "member_occupancy T fleet scope db key =
     int (length (filter (\<lambda>g. gen_state g \<noteq> as_str_repr Destroyed \<and> gen_pool_member_key g = Some key
        \<and> in_scope T fleet scope g) (map snd (db_generations db))))"

section \<open>The choice of a member\<close>

definition fleet_guard_ok :: "fleet_guard \<Rightarrow> fleet_row \<Rightarrow> bool" where
  "fleet_guard_ok g fleet \<longleftrightarrow>
     fleet_incarnation fleet = guard_incarnation g \<and> fleet_desired_revision fleet = guard_revision g
     \<and> fleet_mutation_fence fleet = guard_fence g \<and> \<not> fleet_deletion_marker fleet \<and> \<not> fleet_tombstone fleet"

definition below_cap :: "(string \<Rightarrow> int) \<Rightarrow> admit_member \<Rightarrow> bool" where
  "below_cap usage m = (case am_max_runners m of None \<Rightarrow> True | Some cap \<Rightarrow> usage (am_key m) < cap)"

text \<open>The members a draw may choose, \<open>[]\<close> when admission is refused.\<close>

definition eligible_members :: "pool_routing \<Rightarrow> (string \<Rightarrow> int) \<Rightarrow> admit_member list" where
  "eligible_members routing usage =
     (let eligible = filter (below_cap usage) (route_members routing);
          member_at_capacity = list_ex (\<lambda>m. \<not> below_cap usage m) (route_members routing) in
      if route_scope routing = None \<and> member_at_capacity \<and> route_policy routing = Backpressure then []
      else eligible)"

text \<open>The part of \<open>generation_admit_pool_impl\<close> between the replay check and the draw.\<close>

definition admission_candidates ::
  "external \<Rightarrow> pool_codec \<Rightarrow> pool_tables \<Rightarrow> generation_record \<Rightarrow> ledger \<Rightarrow> admit_member list core_result" where
  "admission_candidates E C T record db =
     and_then (ok_or (core_of_store (StoreCorrupt ''fleet revision is missing''))
        (map_of (db_fleet_revisions db) (grec_fleet_key record, grec_fleet_revision record))) (\<lambda>(_, spec_json).
     and_then (ok_or (core_of_store (StoreCorrupt ''fleet revision has invalid spec''))
        (decode_capacity C spec_json)) (\<lambda>(max_runners0, pool).
     let inline_policy = (case pool of None \<Rightarrow> Backpressure | Some p \<Rightarrow> p) in
     and_then (collect (admit_member_of C)
        (rows_at (inline_rows T) (grec_fleet_key record, grec_fleet_revision record))) (\<lambda>inline_members.
     and_then (load_routing C T (grec_fleet_key record) (grec_fleet_revision record) inline_members inline_policy) (\<lambda>routing.
     if route_members routing = [] then Inr []
     else if cnt_occupancy (fleet_counts (grec_fleet_key record) db) \<ge> max_runners0 then Inr []
     else Inr (eligible_members routing (member_occupancy T (grec_fleet_key record) (route_scope routing) db))))))"

text \<open>The loop that samples until \<open>weighted_member_index\<close> accepts.\<close>

fun draw_index :: "nat list \<Rightarrow> nat list \<Rightarrow> nat option" where
  "draw_index weights [] = None"
| "draw_index weights (e # es) =
     (case weighted_member_index weights e of Some i \<Rightarrow> Some i | None \<Rightarrow> draw_index weights es)"

definition with_member :: "generation_record \<Rightarrow> admit_member \<Rightarrow> generation_record" where
  "with_member record m =
     record\<lparr>grec_pool_member_key := Some (am_key m), grec_template_profile_key := am_profile m,
            grec_template_revision := am_revision m, grec_template_artifact_digest := am_digest m,
            grec_attestation_id := am_attestation m, grec_inputs_digest := am_inputs_digest m\<rparr>"

section \<open>Admission\<close>

text \<open>\<open>SqliteControlPlane::admit_worker_on\<close> and \<open>publish_worker\<close>; no admissions is \<open>None\<close>.\<close>

definition control_plane_admit ::
  "external \<Rightarrow> nat option \<Rightarrow> fresh_credentials \<Rightarrow> string \<Rightarrow> ledger \<Rightarrow> core_error + worker_admission option \<times> ledger" where
  "control_plane_admit E admissions F i db =
     (case admissions of
        None \<Rightarrow> Inr (None, db)
      | Some create_limit \<Rightarrow>
          map_err (\<lambda>_. worker_core_error) (map_ok (\<lambda>(adm, db'). (Some adm, db'))
            (admit_on E create_limit (fresh_lineage F) (fresh_attempt F) (fresh_control F) (fresh_state_cap F) i db)))"

definition publish_worker :: "worker_admission option \<Rightarrow> ledger \<Rightarrow> core_error + ledger" where
  "publish_worker adm db =
     (case adm of None \<Rightarrow> Inr db | Some a \<Rightarrow> map_err (\<lambda>_. worker_core_error) (publish a db))"

text \<open>Insertion, worker admission, commit, and then the handoff of the credentials.\<close>

definition insert_admitted ::
  "external \<Rightarrow> nat option \<Rightarrow> fresh_credentials \<Rightarrow> generation_record \<Rightarrow> 'a \<Rightarrow> ledger \<Rightarrow> (core_error + 'a) \<times> ledger" where
  "insert_admitted E admissions F record result db =
     (case and_then (map_err core_of_store (generation_insert_on E record db))
              (control_plane_admit E admissions F (grec_id record)) of
        Inl e \<Rightarrow> (Inl e, db)
      | Inr (adm, db1) \<Rightarrow>
          (case publish_worker adm db1 of Inl e \<Rightarrow> (Inl e, db1) | Inr db2 \<Rightarrow> (Inr result, db2)))"

definition generation_admit_pool ::
  "external \<Rightarrow> pool_codec \<Rightarrow> pool_tables \<Rightarrow> nat option \<Rightarrow> fresh_credentials \<Rightarrow> nat list \<Rightarrow> generation_record
     \<Rightarrow> fleet_guard \<Rightarrow> ledger \<Rightarrow> ((core_error + pool_admission option) \<times> ledger) option" where
  "generation_admit_pool E C T admissions F draws record fg db =
     (case fleet_of db (grec_fleet_key record) of
        None \<Rightarrow> Some (Inr None, db)
      | Some fleet \<Rightarrow>
          if \<not> fleet_guard_ok fg fleet then Some (Inr None, db) else
          (case generation_of db (grec_id record) of
             Some existing \<Rightarrow>
               let saved = map_generation (grec_id record) existing in
               Some (map_ok (\<lambda>inputs. Some \<lparr>pa_generation = saved, pa_inputs = inputs\<rparr>)
                 (case grec_pool_member_key saved of
                    None \<Rightarrow> Inr []
                  | Some key \<Rightarrow>
                      and_then (case find (\<lambda>m. mr_key m = key)
                                  (rows_at (inline_rows T) (grec_fleet_key saved, grec_fleet_revision saved)) of
                                None \<Rightarrow> Inr None
                              | Some m \<Rightarrow> map_ok Some (map_err core_of_store
                                            (template_inputs_from_json C (mr_inputs_json m)))) (\<lambda>inline.
                      replay_member_inputs C T (grec_fleet_key saved) (grec_fleet_revision saved) key inline)), db)
           | None \<Rightarrow>
               (case admission_candidates E C T record db of
                  Inl e \<Rightarrow> Some (Inl e, db)
                | Inr eligible \<Rightarrow>
                    if eligible = [] then Some (Inr None, db) else
                    (case draw_index (map am_weight eligible) draws of
                       None \<Rightarrow> None
                     | Some index \<Rightarrow>
                         if index \<ge> length eligible
                         then Some (Inl (core_of_store (StoreCorrupt ''weighted pool selection index missing'')), db)
                         else let selected = eligible ! index; chosen = with_member record selected in
                           Some (insert_admitted E admissions F chosen
                             (Some \<lparr>pa_generation = chosen, pa_inputs = am_inputs selected\<rparr>) db)))))"

definition generation_insert_guarded ::
  "external \<Rightarrow> nat option \<Rightarrow> fresh_credentials \<Rightarrow> generation_record \<Rightarrow> fleet_guard \<Rightarrow> ledger
     \<Rightarrow> (core_error + bool) \<times> ledger" where
  "generation_insert_guarded E admissions F record fg db =
     (case fleet_of db (grec_fleet_key record) of
        None \<Rightarrow> (Inr False, db)
      | Some fleet \<Rightarrow>
          if \<not> fleet_guard_ok fg fleet then (Inr False, db)
          else insert_admitted E admissions F record True db)"

section \<open>What a successful admission did\<close>

lemma insert_admitted_Inr:
  assumes "insert_admitted E admissions F record result db = (Inr x, db')"
  shows "x = result" and "db_generations db' = (grec_id record, new_generation_row record) # db_generations db"
    and "generation_of db (grec_id record) = None"
proof -
  obtain db0 adm db1 where i: "generation_insert_on E record db = Inr db0"
    and c: "control_plane_admit E admissions F (grec_id record) db0 = Inr (adm, db1)"
    and p: "publish_worker adm db1 = Inr db'" and "x = result"
    using assms by (auto simp: insert_admitted_def and_then_Inr map_err_Inr split: sum.split_asm)
  show "x = result" by fact
  show "generation_of db (grec_id record) = None"
    using generation_insert_Inr(1) [OF i] .
  have "db_generations db0 = (grec_id record, new_generation_row record) # db_generations db"
    using i by (auto simp: generation_insert_on_def jobs_snapshot_generation_def split: if_splits option.splits prod.splits)
  moreover have "db_generations db1 = db_generations db0"
    using c by (auto simp: control_plane_admit_def admit_on_def admit_worker_on_def insert_state_def insert_worker_def
        Let_def and_then_Inr map_err_Inr map_ok_Inr ok_or_Inr split: option.splits if_splits)
  moreover have "db_generations db' = db_generations db1"
    using p by (auto simp: publish_worker_def publish_def Let_def map_err_Inr split: option.splits if_splits)
  ultimately show "db_generations db' = (grec_id record, new_generation_row record) # db_generations db"
    by simp
qed

lemma admit_on_fleet:
  "admit_on E limit lineage attempt control cap i db = Inr (adm, db') \<Longrightarrow> fleet_of db' = fleet_of db"
  by (auto simp: admit_on_def admit_worker_on_def insert_state_def insert_worker_def Let_def and_then_Inr map_ok_Inr
      ok_or_Inr fleet_of_def split: option.splits if_splits)

lemma insert_admitted_fleet:
  assumes "insert_admitted E admissions F record result db = (Inr x, db')"
  shows "fleet_of db' = fleet_of db"
proof -
  obtain db0 adm db1 where i: "generation_insert_on E record db = Inr db0"
    and c: "control_plane_admit E admissions F (grec_id record) db0 = Inr (adm, db1)"
    and p: "publish_worker adm db1 = Inr db'"
    using assms by (auto simp: insert_admitted_def and_then_Inr map_err_Inr split: sum.split_asm)
  have "fleet_of db0 = fleet_of db"
    using i by (auto simp: generation_insert_on_def jobs_snapshot_generation_def fleet_of_def
        split: if_splits option.splits prod.splits)
  moreover have "fleet_of db1 = fleet_of db0"
    using c by (auto simp: control_plane_admit_def map_err_Inr map_ok_Inr split: option.splits dest: admit_on_fleet)
  moreover have "fleet_of db' = fleet_of db1"
    using p by (auto simp: publish_worker_def publish_def Let_def map_err_Inr fleet_of_def split: option.splits if_splits)
  ultimately show ?thesis by simp
qed

lemma find_distinct_key:
  assumes "distinct (map f xs)" and "x \<in> set xs"
  shows "find (\<lambda>y. f y = f x) xs = Some x"
  using assms by (induction xs) (auto simp: rev_image_eqI)

lemma find_mem: "find P xs = Some x \<Longrightarrow> x \<in> set xs \<and> P x"
  by (induction xs) (auto split: if_splits)

lemma collect_each: "collect f xs = Inr ys \<Longrightarrow> x \<in> set xs \<Longrightarrow> \<exists>y. f x = Inr y"
  by (induction xs arbitrary: ys) (auto split: sum.splits)

text \<open>The members a fleet revision routes to.\<close>

definition routed_rows :: "pool_tables \<Rightarrow> string \<Rightarrow> int \<Rightarrow> member_row list" where
  "routed_rows T fleet revision =
     (case pool_ref T fleet revision of
        None \<Rightarrow> rows_at (inline_rows T) (fleet, revision)
      | Some k \<Rightarrow> rows_at (pool_rows T) k)"

lemma admit_member_of_Inr:
  assumes "admit_member_of C m = Inr a"
  shows "am_key a = mr_key m" "am_max_runners a = mr_max_runners m" "decode_inputs C (mr_inputs_json m) = Some (am_inputs a)"
  using assms
  by (auto simp: admit_member_of_def template_inputs_from_json_def and_then_Inr map_err_Inr ok_or_Inr)

lemma candidates_Inr:
  assumes "admission_candidates E C T record db = Inr eligible" and "m \<in> set eligible"
  obtains inc spec cap pool row where
    "map_of (db_fleet_revisions db) (grec_fleet_key record, grec_fleet_revision record) = Some (inc, spec)"
    "decode_capacity C spec = Some (cap, pool)"
    "cnt_occupancy (fleet_counts (grec_fleet_key record) db) < cap"
    "row \<in> set (routed_rows T (grec_fleet_key record) (grec_fleet_revision record))"
    "admit_member_of C row = Inr m"
    "below_cap (member_occupancy T (grec_fleet_key record)
       (pool_ref T (grec_fleet_key record) (grec_fleet_revision record)) db) m"
proof -
  let ?f = "grec_fleet_key record" and ?r = "grec_fleet_revision record"
  obtain inc spec cap pool inline routing where
    rev: "map_of (db_fleet_revisions db) (?f, ?r) = Some (inc, spec)" "decode_capacity C spec = Some (cap, pool)"
    and inline: "collect (admit_member_of C) (rows_at (inline_rows T) (?f, ?r)) = Inr inline"
    and routing: "load_routing C T ?f ?r inline (case pool of None \<Rightarrow> Backpressure | Some p \<Rightarrow> p) = Inr routing"
    and fits: "cnt_occupancy (fleet_counts ?f db) < cap"
    and eligible: "eligible = eligible_members routing (member_occupancy T ?f (route_scope routing) db)"
    using assms
    by (auto simp: admission_candidates_def Let_def and_then_Inr ok_or_Inr split: if_splits)
  have scope: "route_scope routing = pool_ref T ?f ?r"
    and rows: "collect (admit_member_of C) (routed_rows T ?f ?r) = Inr (route_members routing)"
    using routing inline
    by (auto simp: load_routing_def routed_rows_def and_then_Inr split: option.splits)
  have m: "m \<in> set (route_members routing)" "below_cap (member_occupancy T ?f (route_scope routing) db) m"
    using assms(2) eligible by (auto simp: eligible_members_def Let_def split: if_splits)
  from rows m(1) obtain row where "row \<in> set (routed_rows T ?f ?r)" "admit_member_of C row = Inr m"
    by (auto simp: collect_Inr map_eq_conv dest: arg_cong [where f = set])
      (metis (no_types, lifting) image_iff image_set set_map)
  with that rev fits m(2) scope show thesis by simp
qed

lemma candidates_inline:
  assumes "admission_candidates E C T record db = Inr eligible" and "eligible \<noteq> []"
  shows "\<exists>inline. collect (admit_member_of C) (rows_at (inline_rows T) (grec_fleet_key record, grec_fleet_revision record))
    = Inr inline"
  using assms by (auto simp: admission_candidates_def Let_def and_then_Inr split: if_splits)

lemma admit_pool_new:
  assumes "generation_admit_pool E C T admissions F draws record fg db = Some (Inr (Some a), db')"
    and "generation_of db (grec_id record) = None"
  obtains eligible m fleet where "fleet_of db (grec_fleet_key record) = Some fleet" "fleet_guard_ok fg fleet"
    "admission_candidates E C T record db = Inr eligible" "m \<in> set eligible"
    "a = \<lparr>pa_generation = with_member record m, pa_inputs = am_inputs m\<rparr>"
    "insert_admitted E admissions F (with_member record m) (Some a) db = (Inr (Some a), db')"
proof -
  from assms obtain fleet eligible i where 1: "fleet_of db (grec_fleet_key record) = Some fleet" "fleet_guard_ok fg fleet"
      "admission_candidates E C T record db = Inr eligible" "i < length eligible"
    and 2: "insert_admitted E admissions F (with_member record (eligible ! i))
       (Some \<lparr>pa_generation = with_member record (eligible ! i), pa_inputs = am_inputs (eligible ! i)\<rparr>) db
       = (Inr (Some a), db')"
    by (auto simp: generation_admit_pool_def Let_def not_le split: option.splits if_splits sum.splits)
  from insert_admitted_Inr(1) [OF 2]
  have "a = \<lparr>pa_generation = with_member record (eligible ! i), pa_inputs = am_inputs (eligible ! i)\<rparr>"
    by simp
  with 1 2 show thesis by (intro that [of fleet eligible "eligible ! i"]) auto
qed

lemma with_member_simps [simp]:
  "grec_id (with_member record m) = grec_id record" "grec_fleet_key (with_member record m) = grec_fleet_key record"
  "grec_fleet_revision (with_member record m) = grec_fleet_revision record"
  "grec_pool_member_key (with_member record m) = Some (am_key m)"
  by (simp_all add: with_member_def)

section \<open>Properties\<close>

text \<open>C30. A pool admission keeps both limits: afterwards the fleet holds one more occupying generation and no
  more than its \<open>max_runners\<close>, and the drawn member, in the scope its cap is counted in, no more than
  its own cap.\<close>

theorem pool_admission_within_limits:
  assumes "generation_admit_pool E C T admissions F draws record fg db = Some (Inr (Some a), db')"
    and "generation_of db (grec_id record) = None"
  shows "\<exists>inc spec cap pool row key.
      map_of (db_fleet_revisions db) (grec_fleet_key record, grec_fleet_revision record) = Some (inc, spec)
    \<and> decode_capacity C spec = Some (cap, pool)
    \<and> cnt_occupancy (fleet_counts (grec_fleet_key record) db') = cnt_occupancy (fleet_counts (grec_fleet_key record) db) + 1
    \<and> cnt_occupancy (fleet_counts (grec_fleet_key record) db') \<le> cap
    \<and> row \<in> set (routed_rows T (grec_fleet_key record) (grec_fleet_revision record))
    \<and> mr_key row = key \<and> grec_pool_member_key (pa_generation a) = Some key
    \<and> (case mr_max_runners row of None \<Rightarrow> True
       | Some n \<Rightarrow> member_occupancy T (grec_fleet_key record)
           (pool_ref T (grec_fleet_key record) (grec_fleet_revision record)) db' key \<le> n)"
  using assms
proof (rule admit_pool_new)
  let ?f = "grec_fleet_key record" and ?r = "grec_fleet_revision record"
  fix eligible m fleet
  assume c: "admission_candidates E C T record db = Inr eligible" "m \<in> set eligible"
    and a: "a = \<lparr>pa_generation = with_member record m, pa_inputs = am_inputs m\<rparr>"
    and ins: "insert_admitted E admissions F (with_member record m) (Some a) db = (Inr (Some a), db')"
  let ?row = "new_generation_row (with_member record m)"
  have db': "db_generations db' = (grec_id record, ?row) # db_generations db"
    using insert_admitted_Inr(2) [OF ins] by simp
  have row: "gen_state ?row = ''CreatePending''" "gen_fleet_key ?row = ?f" "gen_fleet_revision ?row = ?r"
      "gen_pool_member_key ?row = Some (am_key m)"
    by (simp_all add: new_generation_row_def)
  have fleet: "cnt_occupancy (fleet_counts ?f db') = cnt_occupancy (fleet_counts ?f db) + 1"
    using row by (simp add: fleet_counts_def Let_def db')
  have "in_scope T ?f (pool_ref T ?f ?r) ?row"
    using row by (auto simp: in_scope_def pool_ref_def split: option.splits)
  then have member: "member_occupancy T ?f (pool_ref T ?f ?r) db' (am_key m)
      = member_occupancy T ?f (pool_ref T ?f ?r) db (am_key m) + 1"
    using row by (simp add: member_occupancy_def db')
  from c show ?thesis
  proof (rule candidates_Inr)
    fix inc spec cap pool mrow
    assume "map_of (db_fleet_revisions db) (?f, ?r) = Some (inc, spec)" "decode_capacity C spec = Some (cap, pool)"
      "cnt_occupancy (fleet_counts ?f db) < cap" "mrow \<in> set (routed_rows T ?f ?r)"
      "admit_member_of C mrow = Inr m" "below_cap (member_occupancy T ?f (pool_ref T ?f ?r) db) m"
    then show ?thesis
      using fleet member admit_member_of_Inr [of C mrow m] a
      by (intro exI [of _ inc] exI [of _ spec] exI [of _ cap] exI [of _ pool] exI [of _ mrow] exI [of _ "am_key m"])
        (auto simp: below_cap_def split: option.splits)
  qed
qed

text \<open>C31. Admission is idempotent: asking again with the same record, under the same fleet head but with any
  other entropy and credentials, returns the admitted generation and its inputs again and changes
  nothing, as long as member keys are unique in a revision (their primary key) and the record is a
  fresh one.\<close>

theorem pool_admission_replays:
  assumes "generation_admit_pool E C T admissions F draws record fg db = Some (Inr (Some a), db')"
    and "generation_of db (grec_id record) = None"
    and "distinct (map mr_key (routed_rows T (grec_fleet_key record) (grec_fleet_revision record)))"
    and "grec_state record = CreatePending" and "grec_github_runner_id record = None"
    and "grec_updated_at record = grec_created_at record"
  shows "generation_admit_pool E C T admissions' F' draws' record fg db' = Some (Inr (Some a), db')"
  using assms(1,2)
proof (rule admit_pool_new)
  let ?f = "grec_fleet_key record" and ?r = "grec_fleet_revision record"
  fix eligible m fleet
  assume fleet: "fleet_of db ?f = Some fleet" "fleet_guard_ok fg fleet"
    and c: "admission_candidates E C T record db = Inr eligible" "m \<in> set eligible"
    and a: "a = \<lparr>pa_generation = with_member record m, pa_inputs = am_inputs m\<rparr>"
    and ins: "insert_admitted E admissions F (with_member record m) (Some a) db = (Inr (Some a), db')"
  have row: "generation_of db' (grec_id record) = Some (new_generation_row (with_member record m))"
    using insert_admitted_Inr(2) [OF ins] by (simp add: generation_of_def)
  have fleet': "fleet_of db' = fleet_of db" by (rule insert_admitted_fleet [OF ins])
  have saved: "map_generation (grec_id record) (new_generation_row (with_member record m)) = with_member record m"
    using assms(4-6) from_str_as_str [of CreatePending]
    by (cases "record") (simp add: map_generation_def new_generation_row_def with_member_def)
  from c show ?thesis
  proof (rule candidates_Inr)
    fix inc spec cap pool mrow
    assume mrow: "mrow \<in> set (routed_rows T ?f ?r)" "admit_member_of C mrow = Inr m"
    from admit_member_of_Inr [OF mrow(2)]
    have key: "mr_key mrow = am_key m" "decode_inputs C (mr_inputs_json mrow) = Some (am_inputs m)" by simp_all
    have found: "find (\<lambda>m'. mr_key m' = am_key m) (routed_rows T ?f ?r) = Some mrow"
      using find_distinct_key [OF assms(3) mrow(1)] key by simp
    have "eligible \<noteq> []" using c(2) by auto
    from candidates_inline [OF c(1) this] obtain inline where
      "collect (admit_member_of C) (rows_at (inline_rows T) (?f, ?r)) = Inr inline" ..
    then have inline: "decode_inputs C (mr_inputs_json m') \<noteq> None" if "m' \<in> set (rows_at (inline_rows T) (?f, ?r))" for m'
      using that by (auto dest!: collect_each admit_member_of_Inr(3))
    let ?inline = "find (\<lambda>m'. mr_key m' = am_key m) (rows_at (inline_rows T) (?f, ?r))"
    have replayed: "\<exists>x. (case ?inline of None \<Rightarrow> Inr None
          | Some m' \<Rightarrow> map_ok Some (map_err core_of_store (template_inputs_from_json C (mr_inputs_json m')))) = Inr x
        \<and> replay_member_inputs C T ?f ?r (am_key m) x = Inr (am_inputs m)"
    proof (cases "pool_ref T ?f ?r")
      case None
      then show ?thesis
        using found key by (simp add: routed_rows_def replay_member_inputs_def template_inputs_from_json_def ok_or_def map_ok_def map_err_def)
    next
      case (Some k)
      then have "replay_member_inputs C T ?f ?r (am_key m) x = Inr (am_inputs m)" for x
        using found key
        by (cases k) (simp add: routed_rows_def replay_member_inputs_def template_inputs_from_json_def ok_or_def map_ok_def map_err_def)
      moreover have "?inline = None \<or> (\<exists>m' y. ?inline = Some m' \<and> decode_inputs C (mr_inputs_json m') = Some y)"
        using inline find_mem by (cases ?inline) fastforce+
      ultimately show ?thesis by (auto simp: template_inputs_from_json_def ok_or_def map_ok_def map_err_def)
    qed
    then show ?thesis
      using fleet fleet' row saved a by (auto simp: generation_admit_pool_def Let_def map_ok_def)
  qed
qed

text \<open>One inline member with a cap of two, in a fleet of at most two runners.\<close>

definition sample_codec :: pool_codec where
  "sample_codec = \<lparr>decode_capacity = (\<lambda>s. Some (2, None)), decode_inputs = (\<lambda>s. Some [])\<rparr>"

definition sample_member :: member_row where
  "sample_member = \<lparr>mr_key = ''m'', mr_profile = ''t'', mr_revision = 1, mr_digest = ''d'', mr_attestation = ''a'',
     mr_inputs_json = ''{}'', mr_inputs_digest = ''i'', mr_weight = 3, mr_max_runners = Some 2\<rparr>"

definition sample_tables :: pool_tables where
  "sample_tables = \<lparr>pool_refs = [], inline_rows = [((''f'', 1), [sample_member])], pool_rows = [], pool_policies = []\<rparr>"

definition sample_pool_ledger :: ledger where
  "sample_pool_ledger = (sample_ledger (sample_generation ''Creating''))\<lparr>db_fleet_revisions := [((''f'', 1), (''x'', ''s''))]\<rparr>"

definition sample_request :: generation_record where
  "sample_request = (map_generation ''h'' (sample_generation ''CreatePending''))\<lparr>grec_runner_name := ''r2''\<rparr>"

definition sample_head :: fleet_guard where
  "sample_head = \<lparr>guard_incarnation = ''x'', guard_revision = 1, guard_fence = 1\<rparr>"

definition sample_credentials :: fresh_credentials where
  "sample_credentials = \<lparr>fresh_lineage = ''L'', fresh_attempt = ''a'', fresh_control = ''con'', fresh_state_cap = ''cap''\<rparr>"

definition sample_admit :: "ledger \<Rightarrow> ((core_error + pool_admission option) \<times> ledger) option" where
  "sample_admit = generation_admit_pool sample_external sample_codec sample_tables (Some 5) sample_credentials [7]
     sample_request sample_head"

lemma sample_admit_ok:
  obtains a db' where "sample_admit sample_pool_ledger = Some (Inr (Some a), db')"
proof -
  have "map_option (\<lambda>r. case fst r of Inl _ \<Rightarrow> None | Inr a \<Rightarrow> map_option pa_inputs a) (sample_admit sample_pool_ledger)
      = Some (Some [])"
    by code_simp
  then obtain r where r: "sample_admit sample_pool_ledger = Some r"
    and f: "(case fst r of Inl _ \<Rightarrow> None | Inr a \<Rightarrow> map_option pa_inputs a) = Some []"
    by auto
  from f obtain a where "fst r = Inr (Some a)" by (auto split: sum.split_asm)
  with r show thesis by (intro that [of a "snd r"]) (simp add: prod_eq_iff)
qed

lemma sample_request_facts:
  "generation_of sample_pool_ledger (grec_id sample_request) = None" "grec_fleet_key sample_request = ''f''"
  "grec_fleet_revision sample_request = 1" "grec_state sample_request = CreatePending"
  "grec_github_runner_id sample_request = None" "grec_updated_at sample_request = grec_created_at sample_request"
  by code_simp+

theorem pool_admission_within_limits_witness:
  "\<exists>a db'. sample_admit sample_pool_ledger = Some (Inr (Some a), db') \<and> cnt_occupancy (fleet_counts ''f'' db') \<le> 2"
proof -
  obtain a db' where r: "sample_admit sample_pool_ledger = Some (Inr (Some a), db')" by (rule sample_admit_ok)
  from pool_admission_within_limits [OF r [unfolded sample_admit_def] sample_request_facts(1)] r
  show ?thesis by (auto simp: sample_codec_def sample_request_facts)
qed

theorem pool_admission_replays_witness:
  "\<exists>a db'. sample_admit sample_pool_ledger = Some (Inr (Some a), db') \<and> sample_admit db' = Some (Inr (Some a), db')"
proof -
  obtain a db' where r: "sample_admit sample_pool_ledger = Some (Inr (Some a), db')" by (rule sample_admit_ok)
  have d: "distinct (map mr_key (routed_rows sample_tables (grec_fleet_key sample_request) (grec_fleet_revision sample_request)))"
    by code_simp
  from pool_admission_replays [OF r [unfolded sample_admit_def] sample_request_facts(1) d sample_request_facts(4-6)] r
  show ?thesis unfolding sample_admit_def by blast
qed

end
