(* ===== verification/Refinement.thy ===== *)
theory Refinement
  imports Recovery Protocol Pool_Admission
begin

text \<open>
  Every operation of the ledger refines the abstract protocol: seen through \<open>cell_of\<close>, which reads
  the three rows of one generation, a successful operation is a sequence of protocol steps for each
  generation (no step at all for the generations it is not about).
\<close>

definition cell_of :: "external \<Rightarrow> ledger \<Rightarrow> string \<Rightarrow> cell" where
  "cell_of E db i = \<lparr>c_state = state_of db i, c_worker = worker_of db i, c_gen = generation_of db i,
     c_canonical = (parse_uuid E i = Some i)\<rparr>"

definition refines :: "external \<Rightarrow> ledger \<Rightarrow> ledger \<Rightarrow> bool" where
  "refines E db db' \<longleftrightarrow> (\<forall>j. cell_steps (cell_of E db j) (cell_of E db' j))"

lemma cell_of_simps [simp]:
  "c_state (cell_of E db i) = state_of db i" "c_worker (cell_of E db i) = worker_of db i"
  "c_gen (cell_of E db i) = generation_of db i" "c_canonical (cell_of E db i) \<longleftrightarrow> parse_uuid E i = Some i"
  by (simp_all add: cell_of_def)

lemma cell_eqI: "c_state c = c_state d \<Longrightarrow> c_worker c = c_worker d \<Longrightarrow> c_gen c = c_gen d \<Longrightarrow>
    c_canonical c = c_canonical d \<Longrightarrow> c = (d :: cell)"
  by simp

lemma refines_refl [simp]: "refines E db db"
  by (simp add: refines_def)

lemma refines_trans: "refines E a b \<Longrightarrow> refines E b c \<Longrightarrow> refines E a c"
  unfolding refines_def using rtranclp_trans by metis

lemma refines_same:
  assumes "state_of db' = state_of db" "worker_of db' = worker_of db" "generation_of db' = generation_of db"
  shows "refines E db db'"
proof -
  have "cell_of E db' j = cell_of E db j" for j using assms by (simp add: cell_of_def)
  then show ?thesis by (simp add: refines_def)
qed

text \<open>One protocol step for one generation, given by the cell it leads to.\<close>

lemma refines_step:
  assumes "cell_step (cell_of E db i) c"
    and "c_state c = state_of db' i" "c_worker c = worker_of db' i" "c_gen c = generation_of db' i"
    and "\<And>j. j \<noteq> i \<Longrightarrow> state_of db' j = state_of db j \<and> worker_of db' j = worker_of db j
           \<and> generation_of db' j = generation_of db j"
  shows "refines E db db'"
  unfolding refines_def
proof
  fix j
  show "cell_steps (cell_of E db j) (cell_of E db' j)"
  proof (cases "j = i")
    case True
    have "c = cell_of E db' i" using assms(2-4) cell_step_canonical [OF assms(1)] by (intro cell_eqI) simp_all
    with assms(1) True show ?thesis by auto
  next
    case False
    then have "cell_of E db' j = cell_of E db j" using assms(5) by (simp add: cell_of_def)
    then show ?thesis by simp
  qed
qed

lemma refines_put_state:
  assumes "cell_step (cell_of E db i) ((cell_of E db i)\<lparr>c_state := Some r\<rparr>)"
  shows "refines E db (put_state i r db)"
  using assms by (rule refines_step) simp_all

lemma refines_put_worker:
  assumes "cell_step (cell_of E db i) ((cell_of E db i)\<lparr>c_worker := Some w\<rparr>)"
  shows "refines E db (put_worker i w db)"
  using assms by (rule refines_step) simp_all

lemma refines_update_generation:
  assumes "\<And>g. generation_of db i = Some g \<Longrightarrow> p g \<Longrightarrow> gen_state (f g) = gen_state g"
  shows "refines E db (update_generation i p f db)"
proof (cases "generation_of db i")
  case None
  then show ?thesis by (intro refines_same ext) simp_all
next
  case (Some g)
  show ?thesis
    by (rule refines_step [where i = i, OF annotate [where g = g and g' = "if p g then f g else g"]])
      (use Some assms in simp_all)
qed

lemma refines_annotate:
  assumes "\<And>g. generation_of db i = Some g \<Longrightarrow> gen_state (f g) = gen_state g"
  shows "refines E db (set_generation i f db)"
  unfolding set_generation_def using assms by (intro refines_update_generation)

section \<open>The HTTP state backend\<close>

lemma refines_lock:
  assumes "state_lock E access info db = Inr (u, db')"
  shows "refines E db db'"
  using assms
proof (rule lock_Inr)
  fix r
  assume r: "state_of db (sa_generation access) = Some r" "\<not> st_revoked r" "\<not> st_sealed r"
    and e: "row_lock E r = Inr (Some info) \<and> db' = db
     \<or> st_lock_id r = None \<and> state_check (r\<lparr>st_lock_id := Some (li_id info), st_lock_info := Some (lock_info_to_bytes E info)\<rparr>)
       \<and> db' = put_state (sa_generation access)
           (r\<lparr>st_lock_id := Some (li_id info), st_lock_info := Some (lock_info_to_bytes E info)\<rparr>) db"
  from e show ?thesis
  proof
    assume *: "st_lock_id r = None \<and> state_check (r\<lparr>st_lock_id := Some (li_id info), st_lock_info := Some (lock_info_to_bytes E info)\<rparr>)
       \<and> db' = put_state (sa_generation access)
           (r\<lparr>st_lock_id := Some (li_id info), st_lock_info := Some (lock_info_to_bytes E info)\<rparr>) db"
    then have "refines E db (put_state (sa_generation access)
           (r\<lparr>st_lock_id := Some (li_id info), st_lock_info := Some (lock_info_to_bytes E info)\<rparr>) db)"
      using r by (intro refines_put_state cell_step.lock [where r = r, OF _ _ _ _ refl]) simp_all
    with * show ?thesis by simp
  qed simp
qed

lemma refines_unlock:
  assumes "state_unlock E access lock_id db = Inr (u, db')"
  shows "refines E db db'"
  using assms
proof (rule unlock_Inr)
  fix r
  assume r: "state_of db (sa_generation access) = Some r" "\<not> st_revoked r" "\<not> st_sealed r"
    and e: "st_lock_id r = None \<and> db' = db
     \<or> st_lock_id r = Some lock_id \<and> state_check (r\<lparr>st_lock_id := None, st_lock_info := None\<rparr>)
       \<and> db' = put_state (sa_generation access) (r\<lparr>st_lock_id := None, st_lock_info := None\<rparr>) db"
  have "refines E db (put_state (sa_generation access) (r\<lparr>st_lock_id := None, st_lock_info := None\<rparr>) db)"
    if "state_check (r\<lparr>st_lock_id := None, st_lock_info := None\<rparr>)"
    using r that by (intro refines_put_state cell_step.unlock [where r = r, OF _ _ _ refl]) simp_all
  with e show ?thesis by auto
qed

lemma refines_write:
  assumes "state_write E access lock_id document db = Inr (v, db')"
  shows "refines E db db'"
  using assms
proof (rule write_Inr)
  fix r l
  assume r: "state_of db (sa_generation access) = Some r" "\<not> st_revoked r" "\<not> st_sealed r"
    and l: "row_lock E r = Inr (Some l)"
    and e: "db' = db \<and> v = st_revision r \<and> st_state_bytes r = Some (doc_bytes document)
     \<or> (\<exists>db1. in_i64 (st_revision r + 1) \<and> v = st_revision r + 1
         \<and> (snapshot E r = Inr None \<or> (\<exists>s. snapshot E r = Inr (Some s)
              \<and> doc_lineage (snap_document s) = doc_lineage document
              \<and> doc_serial (snap_document s) < doc_serial document))
         \<and> db1 = put_state (sa_generation access) (stored r document v) db
         \<and> state_check (stored r document v)
         \<and> (if doc_managed_empty document then db' = db1
            else set_worker (sa_generation access) (\<lambda>w. w\<lparr>wk_resource_state_seen := True\<rparr>) db1 = Inr db'))"
  from e show ?thesis
  proof
    assume "\<exists>db1. in_i64 (st_revision r + 1) \<and> v = st_revision r + 1
         \<and> (snapshot E r = Inr None \<or> (\<exists>s. snapshot E r = Inr (Some s)
              \<and> doc_lineage (snap_document s) = doc_lineage document
              \<and> doc_serial (snap_document s) < doc_serial document))
         \<and> db1 = put_state (sa_generation access) (stored r document v) db
         \<and> state_check (stored r document v)
         \<and> (if doc_managed_empty document then db' = db1
            else set_worker (sa_generation access) (\<lambda>w. w\<lparr>wk_resource_state_seen := True\<rparr>) db1 = Inr db')"
    then obtain db1 where v: "v = st_revision r + 1"
      and prev: "snapshot E r = Inr None \<or> (\<exists>s. snapshot E r = Inr (Some s)
              \<and> doc_lineage (snap_document s) = doc_lineage document
              \<and> doc_serial (snap_document s) < doc_serial document)"
      and db1: "db1 = put_state (sa_generation access) (stored r document v) db"
      and check: "state_check (stored r document v)"
      and last: "if doc_managed_empty document then db' = db1
            else set_worker (sa_generation access) (\<lambda>w. w\<lparr>wk_resource_state_seen := True\<rparr>) db1 = Inr db'"
      by blast
    let ?i = "sa_generation access"
    have same: "state_of db' = state_of db1" "generation_of db' = generation_of db1"
      using last by (auto split: if_splits dest: set_worker_other)
    have ser: "st_lineage r = None \<and> st_serial r = None
       \<or> st_lineage r = Some (doc_lineage document) \<and> (\<exists>m. st_serial r = Some m \<and> m < doc_serial document)"
      using prev by (auto simp: snapshot_None snapshot_Some)
    have held: "st_lock_id r \<noteq> None" using l by (auto simp: row_lock_Some)
    have wk: "worker_of db' ?i = worker_of db ?i
        \<or> (\<exists>w. worker_of db ?i = Some w \<and> worker_of db' ?i = Some (w\<lparr>wk_resource_state_seen := True\<rparr>)
             \<and> worker_check (w\<lparr>wk_resource_state_seen := True\<rparr>))"
      and others: "\<And>j. j \<noteq> ?i \<Longrightarrow> worker_of db' j = worker_of db j"
      using last db1 by (auto simp: set_worker_Inr split: if_splits option.splits)
    have "cell_step (cell_of E db ?i)
        ((cell_of E db ?i)\<lparr>c_state := Some (stored r document v), c_worker := worker_of db' ?i\<rparr>)"
      by (rule cell_step.store [where r = r and l = "doc_lineage document" and n = "doc_serial document"
            and b = "doc_bytes document"])
        (use r ser held v check wk in \<open>auto simp: stored_def\<close>)
    then show ?thesis
      by (rule refines_step) (use same db1 others in simp_all)
  qed simp
qed

lemma refines_revoke:
  assumes "revoke claim db = Inr (u, db')"
  shows "refines E db db'"
  using assms by (auto simp: revoke_Inr intro!: refines_put_state cell_step.revoke [OF _ refl])

lemma refines_note_create_starting:
  assumes "note_create_starting E claim db = Inr (u, db')"
  shows "refines E db db'"
  using assms by (rule note_create_starting_Inr)
    (auto intro!: refines_put_state cell_step.start_create [OF _ _ _ _ refl])

lemma refines_seal:
  assumes "seal E claim expected db = Inr (u, db')"
  shows "refines E db db'"
  using assms by (rule seal_Inr) (auto intro!: refines_put_state cell_step.seal_state [OF _ _ _ _ refl])

lemma refines_generation_insert:
  assumes "generation_insert_on E record db = Inr db'"
  shows "refines E db db'"
proof (rule refines_step [OF new_generation [where c = "cell_of E db (grec_id record)" and g = "new_generation_row record"]])
  show "gen_state (new_generation_row record) = ''CreatePending''" by (simp add: new_generation_row_def)
qed (use generation_insert_Inr [OF assms] in \<open>simp_all add: fun_eq_iff\<close>)

lemma refines_insert_state:
  assumes "insert_state i r db = Inr db'" and "\<not> st_sealed r"
  shows "refines E db db'"
  by (rule refines_step [OF new_state [where c = "cell_of E db i" and r = r]])
    (use assms in \<open>auto simp: insert_state_Inr map_of_states\<close>)

lemma refines_insert_generation:
  assumes "insert_generation E record attempt capability db = Inr (x, db')"
  shows "refines E db db'"
  using assms
proof (rule insert_generation_Inr)
  fix db1 claim
  assume "generation_insert_on E record db = Inr db1"
    and "insert_state (grec_id record) (fresh_state_row claim (state_capability_verifier E capability)) db1 = Inr db'"
  then show ?thesis
    by (intro refines_trans [OF refines_generation_insert refines_insert_state]) (auto simp: fresh_state_row_def)
qed

section \<open>Generation rows\<close>

lemma refines_advance:
  assumes "store_generation_advance i nxt subphase now db = Inr (u, db')"
    and "nxt = Destroyed \<Longrightarrow> worker_of db i = None"
  shows "refines E db db'"
proof -
  let ?f = "\<lambda>g. g\<lparr>gen_state := as_str_repr nxt, gen_subphase := subphase, gen_updated_at := now\<rparr>"
  obtain g s where g: "generation_of db i = Some g" "from_str_repr (gen_state g) = Inr s" "transition_allowed s nxt"
    and db': "db' = set_generation i ?f db"
    using assms(1) by (auto simp: advance_row)
  show ?thesis
    by (rule refines_step [where i = i, OF advance_generation [where g = g and s = s and t = nxt and g' = "?f g"]])
      (use g db' assms(2) in auto)
qed

lemma refines_jit:
  assumes "generation_set_jit i phase runner now db = Inr (u, db')"
  shows "refines E db db'"
proof -
  have reg: "refines E d (jobs_register_runner_on i r d)" for r d
    by (rule refines_same) (auto simp: jobs_register_runner_on_def fun_eq_iff split: option.splits)
  let ?db = "set_generation i (\<lambda>g. g\<lparr>gen_jit_phase := Some phase,
      gen_github_runner_id := (case runner of None \<Rightarrow> gen_github_runner_id g | Some r \<Rightarrow> Some r),
      gen_updated_at := now\<rparr>) db"
  have "db' = (case runner of None \<Rightarrow> ?db | Some r \<Rightarrow> jobs_register_runner_on i r ?db)"
    using assms by (auto simp: generation_set_jit_def Let_def result_simps split: if_splits)
  moreover have "refines E db ?db" by (rule refines_annotate) simp
  ultimately show ?thesis using reg refines_trans by (cases runner) auto
qed

lemma refines_result:
  "generation_set_result i json digest now db = Inr (u, db') \<Longrightarrow> refines E db db'"
  by (auto simp: generation_set_result_def result_simps intro!: refines_annotate)

lemma refines_forgejo:
  "generation_set_forgejo_runner E i runner uuid db = Inr (u, db') \<Longrightarrow> refines E db db'"
  by (auto simp: generation_set_forgejo_runner_def result_simps fun_eq_iff
      split: if_splits option.splits prod.splits intro!: refines_same)

lemma refines_expiry:
  "generation_request_expiry i now db = Inr (b, db') \<Longrightarrow> refines E db db'"
  by (auto simp: request_expiry_Inr split: if_splits intro!: refines_annotate)

lemma refines_resources_destroyed:
  "generation_resources_destroyed i now db = Inr (u, db') \<Longrightarrow> refines E db db'"
  by (auto simp: generation_resources_destroyed_def result_simps split: if_splits intro!: refines_annotate)

lemma refines_operations: "refines E db (db\<lparr>db_operations := os\<rparr>)"
  by (intro refines_same ext) simp_all

lemma refines_operation_insert: "operation_insert_on ins db = Inr db' \<Longrightarrow> refines E db db'"
  by (auto simp: operation_insert_on_def split: if_splits intro: refines_operations)

lemma refines_operation_update: "operation_update_state i st now db = Inr (u, db') \<Longrightarrow> refines E db db'"
  by (auto simp: operation_update_state_def result_simps intro: refines_operations)

lemma refines_apply_starting: "operation_apply_starting_tx ins db = Inr (Inr db') \<Longrightarrow> refines E db db'"
  by (auto simp: operation_apply_starting_tx_def map_ok_Inr split: option.splits if_splits
      intro: refines_operation_insert)

section \<open>The lifecycle worker\<close>

lemma case_sum_Inr: "(case x of Inl e \<Rightarrow> Inl (f e) | Inr y \<Rightarrow> g y) = Inr z \<longleftrightarrow> (\<exists>y. x = Inr y \<and> g y = Inr z)"
  by (cases x) simp_all

lemmas step_simps = case_sum_Inr and_then_Inr map_ok_Inr map_err_Inr ok_or_Inr case_option_Inr if_error_Inr load_Inr

lemma worker_load_Inr:
  assumes "worker_load E access db = Inr w"
  obtains r where "state_of db (claim_generation (ca_claim access)) = Some r" "\<not> st_revoked r"
    "generation_of db (claim_generation (ca_claim access)) \<noteq> None"
    "worker_of db (claim_generation (ca_claim access)) = Some w"
    "control_capability_matches E (ca_capability access) (wk_control_hash w)"
    "st_worker_epoch r = claim_epoch (ca_claim access)" "st_worker_attempt r = claim_attempt (ca_claim access)"
  using assms by (auto simp: worker_load_def Let_def result_simps)

lemma refines_set_worker:
  assumes "set_worker i f db = Inr db'"
    and "\<And>w. worker_of db i = Some w \<Longrightarrow> worker_check (f w) \<Longrightarrow>
      cell_step (cell_of E db i) ((cell_of E db i)\<lparr>c_worker := Some (f w)\<rparr>)"
  shows "refines E db db'"
  using assms by (auto simp: set_worker_Inr intro!: refines_put_worker split: option.splits)

lemma refines_admissions: "refines E db (db\<lparr>mem_pending := ps\<rparr>)"
  by (intro refines_same ext) simp_all

lemma refines_take: "admissions_take i db = Inr (adm, db') \<Longrightarrow> refines E db db'"
  by (auto simp: admissions_take_def result_simps intro: refines_admissions)

lemma refines_discard: "refines E db (admissions_discard E i db)"
  by (auto simp: admissions_discard_def intro: refines_admissions split: option.splits)

lemma refines_publish: "publish adm db = Inr db' \<Longrightarrow> refines E db db'"
  by (auto simp: publish_def Let_def split: if_splits intro: refines_admissions)

lemma refines_admit_worker:
  assumes "admit_worker_on E lineage adm db = Inr db'"
    and "parse_uuid E (claim_generation (adm_claim adm)) = Some (claim_generation (adm_claim adm))"
  shows "refines E db db'"
proof -
  let ?i = "claim_generation (adm_claim adm)"
  obtain g doc where g: "generation_of db ?i = Some g" "gen_state g = ''CreatePending''"
    and s: "state_of db ?i = None" "state_check (admitted_state_row E adm doc)"
    and w: "worker_of db ?i = None" "worker_check (admitted_worker_row E adm)"
    and db': "db' = db\<lparr>db_states := (?i, admitted_state_row E adm doc) # db_states db,
        db_workers := (?i, admitted_worker_row E adm) # db_workers db\<rparr>"
    using assms(1) by (auto simp: admit_worker_on_def Let_def result_simps map_of_states split: if_splits)
  show ?thesis
    by (rule refines_step [where i = ?i, OF admit [where g = g and r = "admitted_state_row E adm doc"
            and w = "admitted_worker_row E adm"]])
      (use g s w db' assms(2) in \<open>simp_all add: admitted_state_row_def admitted_worker_row_def map_of_states map_of_workers\<close>)
qed

lemma refines_admit_on:
  assumes "codec_ok E" and "admit_on E limit lineage attempt control cap i db = Inr (adm, db')"
  shows "refines E db db'"
proof -
  obtain u where "parse_uuid E i = Some u"
    and "admit_worker_on E lineage (worker_admission_new u attempt control cap) db = Inr db'"
    using assms(2) by (auto simp: admit_on_def Let_def step_simps split: if_splits option.splits)
  then show ?thesis
    using codec_okD(2) [OF assms(1)] by (intro refines_admit_worker) (auto simp: worker_admission_new_def)
qed

lemma refines_launch:
  assumes "worker_launch_pending E access db = Inr (u, db')"
  shows "refines E db db'"
proof -
  let ?i = "claim_generation (ca_claim access)"
  obtain w where w: "worker_load E access db = Inr w" "wk_phase w = Admitted"
    and u: "update_one_worker ?i (\<lambda>x. wk_phase x = Admitted) (\<lambda>x. x\<lparr>wk_phase := LaunchPending\<rparr>) db = Inr db'"
    using assms by (auto simp: worker_launch_pending_def result_simps)
  from w(1) show ?thesis
    using u w(2) by (rule_tac worker_load_Inr)
      (auto simp: update_one_worker_Inr intro!: refines_put_worker cell_step.launch [OF _ _ _ _ refl])
qed

lemma refines_register:
  assumes "worker_register E access identity db = Inr (u, db')"
  shows "refines E db db'"
proof -
  let ?i = "claim_generation (ca_claim access)"
  let ?f = "\<lambda>x. x\<lparr>wk_phase := Running, wk_process_identity := Some (encode_process E identity)\<rparr>"
  obtain w where w: "worker_load E access db = Inr w"
    and u: "db' = db \<or> wk_phase w = LaunchPending \<and> wk_process_identity w = None \<and> set_worker ?i ?f db = Inr db'"
    using assms by (auto simp: worker_register_def Let_def step_simps split: if_splits)
  from w show ?thesis
  proof (rule worker_load_Inr)
    fix r
    assume "state_of db ?i = Some r" "\<not> st_revoked r" "worker_of db ?i = Some w"
    then show ?thesis
      using u by (auto elim!: refines_set_worker intro!: cell_step.register [OF _ _ _ _ _ refl])
  qed
qed

text \<open>The journal changes neither the phase, the identity nor the cleanup mode of a running worker.\<close>

lemma refines_running:
  assumes "worker_load E access db = Inr w" and "wk_phase w = Running"
    and "set_worker (claim_generation (ca_claim access)) f db = Inr db'"
    and "wk_phase (f w) = wk_phase w \<and> wk_process_identity (f w) = wk_process_identity w
      \<and> wk_cleanup_only (f w) = wk_cleanup_only w"
  shows "refines E db db'"
  using assms(1)
proof (rule worker_load_Inr)
  fix r
  assume "state_of db (claim_generation (ca_claim access)) = Some r" "\<not> st_revoked r"
    "worker_of db (claim_generation (ca_claim access)) = Some w"
  then show ?thesis
    using assms by (auto elim!: refines_set_worker intro!: cell_step.running [where w = w])
qed

lemma refines_retain:
  assumes "retain_input E access input db = Inr (u, db')"
  shows "refines E db db'"
proof -
  obtain w where w: "worker_load E access db = Inr w" "wk_phase w = Running"
    and u: "db' = db \<or> set_worker (claim_generation (ca_claim access)) (\<lambda>x. x\<lparr>wk_protected_input := Some input\<rparr>) db = Inr db'"
    using assms by (auto simp: retain_input_def Let_def step_simps split: option.splits if_splits)
  then show ?thesis by (auto elim: refines_running)
qed

lemma refines_spawn_ack:
  "spawn_ack E access attempt db = Inr (u, db') \<Longrightarrow> refines E db db'"
  by (auto simp: spawn_ack_def step_simps split: if_splits elim: refines_running)

lemma refines_command_ended:
  "command_ended E access attempt db = Inr (u, db') \<Longrightarrow> refines E db db'"
  by (auto simp: command_ended_def step_simps split: if_splits elim: refines_running)

lemma refines_fenced:
  assumes "worker_fenced E access identity db = Inr (u, db')"
  shows "refines E db db'"
proof -
  let ?i = "claim_generation (ca_claim access)"
  obtain w where w: "worker_load E access db = Inr w" "wk_process_identity w \<noteq> None" "wk_phase w \<noteq> PhaseCompleted"
    and u: "set_worker ?i (\<lambda>x. x\<lparr>wk_phase := PhaseFenced, wk_handover := None, wk_active_command := None\<rparr>) db = Inr db'"
    using assms by (auto simp: worker_fenced_def step_simps split: if_splits)
  from w(1) show ?thesis
  proof (rule worker_load_Inr)
    fix r
    assume "state_of db ?i = Some r" "\<not> st_revoked r" "worker_of db ?i = Some w"
    then show ?thesis
      using w u by (auto elim!: refines_set_worker intro!: cell_step.fence [OF _ _ _ _ _ refl])
  qed
qed

lemma refines_anchor:
  assumes "anchor E i state db = (ok, db')"
  shows "refines E db db'"
  using assms
  by (auto simp: anchor_def split: option.splits if_splits intro!: refines_update_generation)

lemma refines_verified:
  assumes "verified E i state anchorable db = Inr (ok, db')"
  shows "refines E db db'"
  using assms
  by (auto simp: verified_def step_simps split: if_splits intro: refines_anchor)

lemma verified_read_only:
  "verified E i state False db = Inr (ok, db') \<Longrightarrow> db' = db"
  by (auto simp: verified_def step_simps split: if_splits)

lemma verified_other:
  assumes "verified E i state anchorable db = Inr (ok, db')"
  shows "state_of db' = state_of db" "worker_of db' = worker_of db" "fence_of db' = fence_of db"
    "map_option gen_state (generation_of db' j) = map_option gen_state (generation_of db j)"
  using assms
  by (auto simp: verified_def anchor_def step_simps fun_eq_iff option.map_comp comp_def
      split: if_splits option.splits)

lemma refines_anchor_failed_create:
  assumes "anchor_failed_create E i db = Inr (ok, db')"
  shows "refines E db db'"
  using assms
  by (auto simp: anchor_failed_create_def Let_def step_simps split: if_splits option.splits intro: refines_verified)

lemma refines_verify_cleanup:
  assumes "verify_cleanup E access db = Inr (u, db')"
  shows "refines E db db'"
proof -
  let ?i = "claim_generation (ca_claim access)"
  obtain w rv where w: "worker_load E access db = Inr w" "wk_phase w = Running"
    and u: "set_worker ?i (\<lambda>x. x\<lparr>wk_cleanup_revision := Some rv\<rparr>) db = Inr db'"
    using assms
    by (auto simp: verify_cleanup_def Let_def step_simps split: if_splits dest!: verified_read_only)
  then show ?thesis by (auto elim: refines_running)
qed

lemma refines_bootstrap:
  assumes "worker_bootstrap_on proof0 db = Inr db'"
  shows "refines E db db'"
  using assms
  by (auto simp: worker_bootstrap_on_def split: option.splits if_splits
      elim!: refines_set_worker intro!: cell_step.bootstrap [OF _ _ _ _ _ refl])

text \<open>A mutating effect starts the Create at most once, and never for a cleanup worker.\<close>

lemma refines_effect:
  assumes "worker_effect_on E proof0 db = Inr db'"
  shows "refines E db db'"
proof (cases "worker_of db (prov_generation_id proof0)")
  case None
  with assms show ?thesis by (simp add: worker_effect_on_def)
next
  case (Some w)
  let ?i = "prov_generation_id proof0"
  let ?f = "\<lambda>x. x\<lparr>wk_handover := Some (prov_attempt_id proof0), wk_active_command := Some (prov_attempt_id proof0),
      wk_cleanup_revision := None\<rparr>"
  obtain r db3 where w: "wk_phase w = Running" "wk_handover w = None" "wk_active_command w = None"
    and r: "state_of db ?i = Some r" "\<not> st_sealed r" "\<not> st_revoked r"
    and db3: "db3 = db \<or> \<not> st_create_started r \<and> \<not> wk_cleanup_only w
        \<and> set_state ?i (\<lambda>x. x\<lparr>st_create_started := True\<rparr>) db = Inr db3"
    and last: "set_worker ?i ?f db3 = Inr db'"
    using assms Some
    by (auto simp: worker_effect_on_def Let_def step_simps writable_Inr split: if_splits dest!: verified_read_only)
  obtain r' where r': "r' = r \<or> r' = r\<lparr>st_create_started := True\<rparr> \<and> \<not> st_create_started r \<and> \<not> wk_cleanup_only w
      \<and> state_check r'" and "state_of db3 ?i = Some r'"
      and same: "worker_of db3 = worker_of db" "generation_of db3 = generation_of db"
      "\<And>j. j \<noteq> ?i \<Longrightarrow> state_of db3 j = state_of db j"
    by (rule disjE [OF db3]; rule that [of r] that [of "r\<lparr>st_create_started := True\<rparr>"])
      (use r(1) in \<open>simp_all add: set_state_Inr fun_eq_iff\<close>)
  moreover have "worker_check (?f w)" "db' = put_worker ?i (?f w) db3"
    using last same Some by (auto simp: set_worker_Inr)
  moreover have "cell_step (cell_of E db ?i) ((cell_of E db ?i)\<lparr>c_state := Some r', c_worker := Some (?f w)\<rparr>)"
    by (rule cell_step.effect [where r = r and w = w]) (use r w r' Some \<open>worker_check (?f w)\<close> in simp_all)
  ultimately show ?thesis
    by (elim refines_step) (use Some in simp_all)
qed

lemma apply_starting_others:
  assumes "operation_apply_starting_tx ins db = Inr (Inr db')"
  shows "state_of db' = state_of db" "worker_of db' = worker_of db" "generation_of db' = generation_of db"
  using assms
  by (auto simp: operation_apply_starting_tx_def operation_insert_on_def map_ok_Inr fun_eq_iff
      split: option.splits if_splits)

lemma record_apply_Inr:
  assumes "record_apply_starting E p path now db = Inr (u, db')"
  obtains db1 where "worker_effect_on E p db1 = Inr db'" "state_of db1 = state_of db"
    "worker_of db1 = worker_of db"
proof -
  obtain ins db1 where "operation_apply_starting_tx ins db = Inr (Inr db1)" "worker_effect_on E p db1 = Inr db'"
    using assms by (auto simp: record_apply_starting_def Let_def step_simps)
  with that apply_starting_others show thesis by blast
qed

lemma create_effect_started:
  assumes "record_apply_starting E p path now db = Inr (u, db')" and "prov_intent p = CreateIntent"
    and "worker_of db (prov_generation_id p) \<noteq> None"
  obtains r where "state_of db' (prov_generation_id p) = Some r" "st_create_started r"
    "worker_of db' (prov_generation_id p) \<noteq> None"
proof -
  obtain db1 w where "worker_of db1 (prov_generation_id p) = Some w" and "worker_effect_on E p db1 = Inr db'"
    using record_apply_Inr [OF assms(1)] assms(3) by (metis not_None_eq)
  then show thesis
    using assms(2) that
    by (auto simp: worker_effect_on_def Let_def step_simps set_state_Inr set_worker_Inr split: if_splits)
qed

lemma create_effect_blocked:
  assumes "record_apply_starting E p path now db = Inr (u, db2)" and "prov_intent p = CreateIntent"
    and "worker_of db (prov_generation_id p) \<noteq> None" and "state_of db (prov_generation_id p) = Some r"
  shows "\<not> st_create_started r"
proof -
  obtain db1 w where "worker_of db1 (prov_generation_id p) = Some w" "worker_effect_on E p db1 = Inr db2"
      "state_of db1 = state_of db"
    using record_apply_Inr [OF assms(1)] assms(3) by (metis not_None_eq)
  then show ?thesis
    using assms(2,4)
    by (auto simp: worker_effect_on_def Let_def step_simps split: if_splits)
qed

lemma refines_record_apply_starting:
  "record_apply_starting E proof0 path now db = Inr (u, db') \<Longrightarrow> refines E db db'"
  by (auto simp: record_apply_starting_def Let_def step_simps
      elim!: refines_trans [OF refines_apply_starting refines_effect])

lemma refines_operation_bootstrap:
  "operation_bootstrap_starting E proof0 now db = Inr (b, db') \<Longrightarrow> refines E db db'"
  by (auto simp: operation_bootstrap_starting_def Let_def step_simps split: if_splits option.splits
      intro: refines_trans [OF refines_operations refines_bootstrap])

section \<open>Completion\<close>

lemma refines_complete_on:
  assumes "complete_on E claim w request expected kind now db = Inr (receipt, db')"
    and "worker_of db (claim_generation claim) = Some w"
  shows "refines E db db'"
proof (cases "wk_completion_receipt w")
  case (Some saved)
  with assms(1) have "db' = db"
    by (auto simp: complete_on_def Let_def step_simps split: if_splits)
  then show ?thesis by simp
next
  case None
  let ?i = "claim_generation claim"
  let ?f = "\<lambda>x. x\<lparr>wk_phase := PhaseCompleted, wk_completion_request := Some request,
      wk_completion_receipt := Some (encode_receipt E receipt)\<rparr>"
  let ?g = "\<lambda>x. x\<lparr>gen_state := ''Destroyed'', gen_updated_at := now\<rparr>"
  obtain r g db1 db2 where w: "wk_handover w = None" "wk_active_command w = None"
      "wk_phase w = Running \<or> wk_phase w = PhaseFenced \<or> wk_phase w = Admitted"
    and r: "state_of db ?i = Some r" "\<not> st_sealed r" "st_lock_id r = None"
    and g: "generation_of db ?i = Some g" "gen_state g = ''Destroying''"
    and kind: "case kind of NeverStarted \<Rightarrow> \<not> st_create_started r
        | ProviderCleanup \<Rightarrow> st_create_started r \<and> wk_cleanup_revision w = Some (st_revision r)
        | OperatorAttested \<Rightarrow> False"
    and db1: "set_state ?i (\<lambda>x. x\<lparr>st_sealed := True\<rparr>) db = Inr db1"
    and db2: "set_worker ?i ?f db1 = Inr db2" and db': "db' = set_generation ?i ?g db2"
    using assms(1) None
    by (cases kind) (auto simp: complete_on_def Let_def step_simps writable_Inr row_lock_None split: if_splits)
  have d1: "state_check (r\<lparr>st_sealed := True\<rparr>)" "db1 = put_state ?i (r\<lparr>st_sealed := True\<rparr>) db"
    using db1 r(1) by (simp_all add: set_state_Inr)
  then have d2: "worker_check (?f w)" "db2 = put_worker ?i (?f w) db1"
    using db2 assms(2) by (simp_all add: set_worker_Inr)
  have "cell_step (cell_of E db ?i) ((cell_of E db ?i)\<lparr>c_state := Some (r\<lparr>st_sealed := True\<rparr>),
      c_worker := Some (?f w), c_gen := Some (?g g)\<rparr>)"
    by (rule cell_step.complete [where r = r and w = w and g = g and g' = "?g g", OF _ _ _ _ _ _ _ _ _ _ refl _ refl])
      (use r w g kind assms(2) d1 d2 in \<open>auto split: completion_kind.splits\<close>)
  then show ?thesis
    by (rule refines_step) (use d1 d2 db' g in simp_all)
qed

lemma refines_complete_worker:
  "complete_worker E access request expected kind now db = Inr (receipt, db') \<Longrightarrow> refines E db db'"
  by (auto simp: complete_worker_def step_simps elim!: worker_load_Inr intro: refines_complete_on)

lemma complete_generation_Inr:
  assumes "complete_generation E request i now db = Inr (b, db')" and "cell_named (cell_of E db i)"
  shows "refines E db db'" and "\<not> b \<Longrightarrow> worker_of db i = None \<and> db' = db"
  using assms
  by (auto simp: complete_generation_def cell_named_def Let_def step_simps split: option.splits if_splits
      intro: refines_complete_on)

lemma refines_generation_advance:
  assumes "generation_advance E request i nxt now db = Inr (u, db')" and "cell_named (cell_of E db i)"
  shows "refines E db db'"
proof (cases "nxt = Destroyed")
  case False
  with assms show ?thesis
    by (auto simp: generation_advance_def Let_def step_simps intro: refines_advance)
next
  case True
  with assms obtain b db1 where b: "complete_generation E request i now db = Inr (b, db1)"
    and "if b then db' = admissions_discard E i db1
      else map_err core_of_store (store_generation_advance i nxt None now db) = Inr (u, db')"
    by (auto simp: generation_advance_def Let_def step_simps split: if_splits)
  then show ?thesis
    using complete_generation_Inr [OF b assms(2)] refines_trans [OF _ refines_discard]
    by (auto simp: step_simps split: if_splits intro: refines_advance)
qed

lemma refines_reaped: "workspace_reaped receipt db = Inr (u, db') \<Longrightarrow> refines E db db'"
  by (auto simp: workspace_reaped_def step_simps update_one_worker_Inr
      intro!: refines_put_worker cell_step.reap [OF _ _ refl])

section \<open>Recovery and finalisation\<close>

lemma refines_fences: "refines E db (db\<lparr>db_fences := fs\<rparr>)"
  by (intro refines_same ext) simp_all

lemma refines_confirm_fence: "refines E db (confirm_fence record db)"
  by (auto simp: confirm_fence_def split: option.splits intro: refines_fences)

lemma confirm_fence_other [simp]:
  "worker_of (confirm_fence record db) = worker_of db" "state_of (confirm_fence record db) = state_of db"
  "generation_of (confirm_fence record db) = generation_of db"
  by (auto simp: confirm_fence_def fun_eq_iff split: option.splits)

lemma refines_release:
  assumes "release_command i db = Inr db'" and "worker_of db i = Some w" and "wk_phase w = PhaseQuarantined"
  shows "refines E db db'"
  using assms unfolding release_command_def
  by (elim refines_set_worker) (auto intro!: cell_step.release [OF _ _ refl])

lemma refines_quarantine:
  assumes "quarantine i fenced db = Inr db'"
    and "state_of db i = Some r" "\<not> st_sealed r" "worker_of db i = Some w" "wk_phase w \<noteq> PhaseQuarantined"
    and "generation_of db i = Some g"
  shows "refines E db db'"
proof -
  let ?r = "r\<lparr>st_revoked := True\<rparr>" and ?w = "w\<lparr>wk_phase := PhaseQuarantined\<rparr>"
    and ?g = "g\<lparr>gen_state := ''Quarantined''\<rparr>"
  let ?v = "if fenced then ?w\<lparr>wk_handover := None, wk_active_command := None\<rparr> else ?w"
  have q: "state_check ?r" "worker_check ?v" "state_of db' i = Some ?r" "worker_of db' i = Some ?v"
      "generation_of db' i = Some ?g"
    and same: "\<And>j. j \<noteq> i \<Longrightarrow> state_of db' j = state_of db j \<and> worker_of db' j = worker_of db j
        \<and> generation_of db' j = generation_of db j"
    using assms(1,2,4,6)
    by (auto simp: quarantine_def release_command_def Let_def step_simps set_state_Inr set_worker_Inr split: if_splits)
  have "cell_step (cell_of E db i) ((cell_of E db i)\<lparr>c_state := Some ?r, c_worker := Some ?v, c_gen := Some ?g\<rparr>)"
    by (rule cell_step.quarantine [where r = r and w = w and g = g]) (use assms q in simp_all)
  then show ?thesis by (rule refines_step) (use q same in simp_all)
qed

lemma refines_rotate:
  assumes "rotate E i adm cleanup_revision db = Inr db'"
    and "state_of db i = Some r" "\<not> st_sealed r" "worker_of db i = Some w" "wk_phase w \<noteq> PhaseQuarantined"
    and "generation_of db i = Some g" "claim_epoch (adm_claim adm) = st_worker_epoch r + 1"
  shows "refines E db db'"
proof -
  let ?r = "r\<lparr>st_worker_epoch := st_worker_epoch r + 1, st_worker_attempt := claim_attempt (adm_claim adm),
      st_capability_hash := state_capability_verifier E (adm_state adm), st_revoked := False,
      st_lock_id := None, st_lock_info := None\<rparr>"
    and ?w = "w\<lparr>wk_control_hash := control_capability_verifier E (adm_control adm),
      wk_phase := Admitted, wk_process_identity := None, wk_cleanup_only := True, wk_handover := None,
      wk_active_command := None, wk_cleanup_revision := cleanup_revision\<rparr>"
    and ?g = "if gen_state g \<in> set create_states then g\<lparr>gen_state := ''CleanupRequired''\<rparr> else g"
  have q: "state_check ?r" "worker_check ?w" "state_of db' i = Some ?r" "worker_of db' i = Some ?w"
      "generation_of db' i = Some ?g"
    and same: "\<And>j. j \<noteq> i \<Longrightarrow> state_of db' j = state_of db j \<and> worker_of db' j = worker_of db j
        \<and> generation_of db' j = generation_of db j"
    using assms(1,2,4,6,7)
    by (auto simp: rotate_def step_simps set_state_Inr set_worker_Inr create_states_def)
  have "cell_step (cell_of E db i) ((cell_of E db i)\<lparr>c_state := Some ?r, c_worker := Some ?w, c_gen := Some ?g\<rparr>)"
    by (rule cell_step.rotate [where r = r and w = w and g = g, OF _ _ _ _ _ refl _ refl])
      (use assms q in simp_all)
  then show ?thesis by (rule refines_step) (use q same in simp_all)
qed

lemma evidence_Inr:
  "recovery_evidence E i r a db = Inr (c, db') \<Longrightarrow> db' = db \<or> (\<exists>d a c. verified E i d a db = Inr (c, db'))"
  by (auto simp: recovery_evidence_def split: sum.splits option.splits if_splits)

lemma recover_tx_Inr:
  assumes "recover_worker_tx E record outcome preserve attempt control cap db = Inr (adm, db')"
  obtains r w where "state_of db (rec_generation record) = Some r" "\<not> st_sealed r"
    "generation_of db (rec_generation record) \<noteq> None" "worker_of db (rec_generation record) = Some w"
    "wk_phase w = rec_phase record"
    "if wk_phase w = PhaseQuarantined
     then (if outcome = Fenced then release_command (rec_generation record) (confirm_fence record db) else Inr db) = Inr db'
     else \<exists>f db1 db2. insert_fence (rec_attempt record) f db = Inr db1
       \<and> (db2 = db1 \<or> (\<exists>d a c. verified E (rec_generation record) d a db1 = Inr (c, db2)))
       \<and> (quarantine (rec_generation record) (outcome = Fenced) db2 = Inr db'
          \<or> (\<exists>claim. rotate E (rec_generation record) (recovered_admission claim (st_worker_epoch r + 1) attempt control cap)
                 (keep_cleanup_revision w r) db2 = Inr db'))"
proof -
  let ?i = "rec_generation record"
  obtain r w where r: "state_of db ?i = Some r" "\<not> st_sealed r" "generation_of db ?i \<noteq> None"
    and w: "worker_of db ?i = Some w" "wk_phase w = rec_phase record"
    using assms by (auto simp: recover_worker_tx_def Let_def step_simps split: if_splits)
  show thesis
  proof (rule that [OF r w])
    show "if wk_phase w = PhaseQuarantined
     then (if outcome = Fenced then release_command ?i (confirm_fence record db) else Inr db) = Inr db'
     else \<exists>f db1 db2. insert_fence (rec_attempt record) f db = Inr db1
       \<and> (db2 = db1 \<or> (\<exists>d a c. verified E ?i d a db1 = Inr (c, db2)))
       \<and> (quarantine ?i (outcome = Fenced) db2 = Inr db'
          \<or> (\<exists>claim. rotate E ?i (recovered_admission claim (st_worker_epoch r + 1) attempt control cap)
                 (keep_cleanup_revision w r) db2 = Inr db'))"
    proof (cases "wk_phase w = PhaseQuarantined")
      case True
      with assms r w show ?thesis
        by (auto simp: recover_worker_tx_def Let_def step_simps split: if_splits)
    next
      case False
      obtain f db1 db2 a c where f: "insert_fence (rec_attempt record) f db = Inr db1"
        and l: "recovery_evidence E ?i r a db1 = Inr (c, db2)"
        and q: "quarantine ?i (outcome = Fenced) db2 = Inr db'
          \<or> (\<exists>claim. rotate E ?i (recovered_admission claim (st_worker_epoch r + 1) attempt control cap)
                 (keep_cleanup_revision w r) db2 = Inr db')"
        using assms False r w
        by (auto simp: recover_worker_tx_def Let_def step_simps checked_add_Some split: if_splits) blast+
      show ?thesis
        unfolding if_not_P [OF False] using f q evidence_Inr [OF l] by (intro exI conjI)
    qed
  qed
qed

lemma refines_recover_tx:
  assumes "recover_worker_tx E record outcome preserve attempt control cap db = Inr (adm, db')"
  shows "refines E db db'"
  using assms
proof (rule recover_tx_Inr)
  fix r w
  let ?i = "rec_generation record"
  assume r: "state_of db ?i = Some r" "\<not> st_sealed r" and g: "generation_of db ?i \<noteq> None"
    and w: "worker_of db ?i = Some w"
    and rest: "if wk_phase w = PhaseQuarantined
     then (if outcome = Fenced then release_command ?i (confirm_fence record db) else Inr db) = Inr db'
     else \<exists>f db1 db2. insert_fence (rec_attempt record) f db = Inr db1
       \<and> (db2 = db1 \<or> (\<exists>d a c. verified E ?i d a db1 = Inr (c, db2)))
       \<and> (quarantine ?i (outcome = Fenced) db2 = Inr db'
          \<or> (\<exists>claim. rotate E ?i (recovered_admission claim (st_worker_epoch r + 1) attempt control cap)
                 (keep_cleanup_revision w r) db2 = Inr db'))"
  show ?thesis
  proof (cases "wk_phase w = PhaseQuarantined")
    case True
    with rest w show ?thesis
      by (auto split: if_splits intro!: refines_trans [OF refines_confirm_fence refines_release])
  next
    case False
    from rest [unfolded if_not_P [OF False]] obtain f db1 db2 where f: "insert_fence (rec_attempt record) f db = Inr db1"
      and v: "db2 = db1 \<or> (\<exists>d a c. verified E ?i d a db1 = Inr (c, db2))"
      and q: "quarantine ?i (outcome = Fenced) db2 = Inr db'
          \<or> (\<exists>claim. rotate E ?i (recovered_admission claim (st_worker_epoch r + 1) attempt control cap)
                 (keep_cleanup_revision w r) db2 = Inr db')"
      by blast
    have 1: "refines E db db1" using f by (auto simp: insert_fence_Inr intro: refines_fences)
    have 2: "refines E db1 db2" using v by (auto intro: refines_verified)
    have same: "state_of db2 = state_of db" "worker_of db2 = worker_of db"
        "map_option gen_state (generation_of db2 ?i) = map_option gen_state (generation_of db ?i)"
      using v f verified_other by (auto simp: insert_fence_Inr fun_eq_iff)
    from same(3) g obtain g2 where "generation_of db2 ?i = Some g2" by auto
    then have "refines E db2 db'"
      using q r w False same(1,2) by (auto simp: recovered_admission_def intro: refines_quarantine refines_rotate)
    with refines_trans [OF 1 2] show ?thesis by (rule refines_trans)
  qed
qed

lemma refines_recover_worker:
  "recover_worker E record outcome preserve attempt control cap db = (res, db') \<Longrightarrow> refines E db db'"
  by (auto simp: recover_worker_def split: sum.splits option.splits prod.splits
      intro: refines_recover_tx refines_trans [OF refines_recover_tx refines_publish])

lemma refines_replace_fenced:
  "replace_fenced E access attempt control cap db = (res, db') \<Longrightarrow> refines E db db'"
  by (auto simp: replace_fenced_def split: sum.splits option.splits if_splits intro: refines_recover_worker)

lemma refines_finalize:
  assumes "generation_finalize E i operation provenance now db = Inr (u, db')"
  shows "refines E db db'"
proof -
  let ?g = "\<lambda>g. g\<lparr>gen_state := as_str_repr Destroyed, gen_updated_at := now\<rparr>"
  let ?db1 = "set_generation i ?g db"
  obtain g db2 where g: "generation_of db i = Some g" "gen_state g = ''Quarantined''"
    and s: "operator_seal_on E i operation now ?db1 = Inr db2" and o: "refines E db2 db'"
    using assms by (auto simp: generation_finalize_def Let_def step_simps split: if_splits intro: refines_operation_insert)
  have "refines E db db2"
  proof (cases "worker_of db i")
    case None
    with s have s': "operator_seal i ?db1 = Inr db2" by (simp add: operator_seal_on_def)
    have "cell_step (cell_of E db i) ((cell_of E db i)\<lparr>c_state := state_of db2 i, c_gen := Some (?g g)\<rparr>)"
      by (rule cell_step.finalize_legacy [where g = g])
        (use None g s' in \<open>auto simp: operator_seal_def set_state_Inr split: option.splits\<close>)
    then show ?thesis
      by (rule refines_step)
        (use None g s' in \<open>auto simp: operator_seal_def set_state_Inr split: option.splits\<close>)
  next
    case (Some w)
    let ?f = "\<lambda>t. w\<lparr>wk_phase := PhaseCompleted, wk_completion_request := Some operation, wk_completion_receipt := Some t\<rparr>"
    obtain r t db3 where r: "state_of db i = Some r"
      and w: "wk_phase w \<in> {Admitted, PhaseFenced, PhaseQuarantined}" "wk_handover w = None" "wk_active_command w = None"
      and s1: "operator_seal i ?db1 = Inr db3" and s2: "set_worker i (\<lambda>x. x\<lparr>wk_phase := PhaseCompleted,
          wk_completion_request := Some operation, wk_completion_receipt := Some t\<rparr>) db3 = Inr db2"
      using s Some by (auto simp: operator_seal_on_def Let_def step_simps quarantined_fenced_def split: if_splits)
    let ?r = "r\<lparr>st_sealed := True, st_revoked := True\<rparr>"
    have d3: "state_check ?r" "db3 = put_state i ?r ?db1"
      using s1 r by (simp_all add: operator_seal_def set_state_Inr)
    then have d2: "worker_check (?f t)" "db2 = put_worker i (?f t) db3"
      using s2 Some by (simp_all add: set_worker_Inr)
    have "cell_step (cell_of E db i) ((cell_of E db i)\<lparr>c_state := Some ?r, c_worker := Some (?f t), c_gen := Some (?g g)\<rparr>)"
      by (rule cell_step.finalize_worker [where r = r and w = w and g = g, OF _ _ _ _ _ _ _ refl _ refl])
        (use r w g Some d2 d3 in simp_all)
    then show ?thesis
      by (rule refines_step) (use d2 d3 g in simp_all)
  qed
  from this o show ?thesis by (rule refines_trans)
qed

section \<open>Admission\<close>

lemma refines_insert_admitted:
  assumes "codec_ok E" and "insert_admitted E admissions F record result db = (res, db')"
  shows "refines E db db'"
proof (cases "and_then (map_err core_of_store (generation_insert_on E record db))
    (control_plane_admit E admissions F (grec_id record))")
  case (Inl e)
  with assms(2) show ?thesis by (simp add: insert_admitted_def)
next
  case (Inr x)
  then obtain db0 where i: "generation_insert_on E record db = Inr db0"
    and c: "control_plane_admit E admissions F (grec_id record) db0 = Inr x"
    by (auto simp: step_simps)
  obtain adm db1 where x: "x = (adm, db1)" by (cases x)
  have a: "refines E db0 db1"
    using c x by (auto simp: control_plane_admit_def step_simps split: option.splits
        intro: refines_admit_on [OF assms(1)])
  have p: "refines E db1 db'"
    using assms(2) Inr x
    by (auto simp: insert_admitted_def publish_worker_def step_simps split: sum.splits option.splits
        intro: refines_publish)
  from refines_trans [OF refines_trans [OF refines_generation_insert [OF i] a] p] show ?thesis .
qed

lemma refines_insert_guarded:
  assumes "codec_ok E" and "generation_insert_guarded E admissions F record fg db = (res, db')"
  shows "refines E db db'"
  using assms(2)
  by (auto simp: generation_insert_guarded_def split: option.splits if_splits intro: refines_insert_admitted [OF assms(1)])

lemma refines_admit_pool:
  assumes "codec_ok E" and "generation_admit_pool E C T admissions F draws record fg db = Some (res, db')"
  shows "refines E db db'"
  using assms(2)
  by (auto simp: generation_admit_pool_def Let_def split: option.splits if_splits sum.splits
      intro: refines_insert_admitted [OF assms(1)])

end
