(* ===== verification/Ledger_Run.thy ===== *)
theory Ledger_Run
  imports Refinement
begin

text \<open>
  Runs of the whole ledger: any interleaving of the operations of the daemon, the workers, the
  operator and the Terraform processes, with restarts (the in-memory handoff is lost) and with any
  change of the tables this ledger only reads.  Every operation is one transaction (SQLite's single
  writer), so a run is a list of events; an operation that fails leaves the ledger as it was.
\<close>

section \<open>Events\<close>

datatype event =
    EvLock state_access lock_info
  | EvUnlock state_access string
  | EvWrite state_access string state_document
  | EvInsertGeneration generation_record string string
  | EvInsertGuarded "nat option" fresh_credentials generation_record fleet_guard
  | EvAdmitPool pool_codec pool_tables "nat option" fresh_credentials "nat list" generation_record fleet_guard
  | EvRevoke state_claim
  | EvCreateStarting state_claim
  | EvSeal state_claim int
  | EvJit string string "int option" int
  | EvResult string string string int
  | EvForgejo string int string
  | EvExpiry string int
  | EvResourcesDestroyed string int
  | EvOperation operation_insert
  | EvOperationState string string int
  | EvApplyStarting plan_provenance string int
  | EvBootstrap plan_provenance int
  | EvTake string
  | EvLaunch control_access
  | EvRegister control_access process_identity
  | EvRetain control_access string
  | EvSpawnAck control_access string
  | EvCommandEnded control_access string
  | EvFenced control_access process_identity
  | EvVerifyCleanup control_access
  | EvAnchor string
  | EvComplete control_access string int completion_kind int
  | EvAdvance string string generation_state int
  | EvReaped completion_receipt
  | EvRecover recovery_record fence_outcome bool string string string
  | EvReplaceFenced control_access string string string
  | EvFinalize string string string int
  | EvRestart
  | EvEnvironment ledger

definition after :: "ledger \<Rightarrow> 'e + 'a \<times> ledger \<Rightarrow> ledger" where
  "after db r = (case r of Inl _ \<Rightarrow> db | Inr (_, db') \<Rightarrow> db')"

definition after_insert :: "ledger \<Rightarrow> 'e + ledger \<Rightarrow> ledger" where
  "after_insert db r = (case r of Inl _ \<Rightarrow> db | Inr db' \<Rightarrow> db')"

text \<open>The tables this ledger only reads, taken from another one.\<close>

definition environment :: "ledger \<Rightarrow> ledger \<Rightarrow> ledger" where
  "environment t db = db\<lparr>db_fleets := db_fleets t, db_fleet_revisions := db_fleet_revisions t,
     db_template_revisions := db_template_revisions t, db_scale_sets := db_scale_sets t,
     db_auth_contexts := db_auth_contexts t, db_deployment := db_deployment t\<rparr>"

fun step :: "external \<Rightarrow> event \<Rightarrow> ledger \<Rightarrow> ledger" where
  "step E (EvLock a info) db = after db (state_lock E a info db)"
| "step E (EvUnlock a l) db = after db (state_unlock E a l db)"
| "step E (EvWrite a l d) db = after db (state_write E a l d db)"
| "step E (EvInsertGeneration g a c) db = after db (insert_generation E g a c db)"
| "step E (EvInsertGuarded n F g fg) db = snd (generation_insert_guarded E n F g fg db)"
| "step E (EvAdmitPool C T n F ds g fg) db =
     (case generation_admit_pool E C T n F ds g fg db of None \<Rightarrow> db | Some (_, db') \<Rightarrow> db')"
| "step E (EvRevoke c) db = after db (revoke c db)"
| "step E (EvCreateStarting c) db = after db (note_create_starting E c db)"
| "step E (EvSeal c n) db = after db (seal E c n db)"
| "step E (EvJit i p r now) db = after db (generation_set_jit i p r now db)"
| "step E (EvResult i j d now) db = after db (generation_set_result i j d now db)"
| "step E (EvForgejo i r u) db = after db (generation_set_forgejo_runner E i r u db)"
| "step E (EvExpiry i now) db = after db (generation_request_expiry i now db)"
| "step E (EvResourcesDestroyed i now) db = after db (generation_resources_destroyed i now db)"
| "step E (EvOperation ins) db = after_insert db (operation_insert_on ins db)"
| "step E (EvOperationState i s now) db = after db (operation_update_state i s now db)"
| "step E (EvApplyStarting p path now) db = after db (record_apply_starting E p path now db)"
| "step E (EvBootstrap p now) db = after db (operation_bootstrap_starting E p now db)"
| "step E (EvTake i) db = after db (admissions_take i db)"
| "step E (EvLaunch a) db = after db (worker_launch_pending E a db)"
| "step E (EvRegister a p) db = after db (worker_register E a p db)"
| "step E (EvRetain a s) db = after db (retain_input E a s db)"
| "step E (EvSpawnAck a s) db = after db (spawn_ack E a s db)"
| "step E (EvCommandEnded a s) db = after db (command_ended E a s db)"
| "step E (EvFenced a p) db = after db (worker_fenced E a p db)"
| "step E (EvVerifyCleanup a) db = after db (verify_cleanup E a db)"
| "step E (EvAnchor i) db = after db (anchor_failed_create E i db)"
| "step E (EvComplete a q n k now) db = after db (complete_worker E a q n k now db)"
| "step E (EvAdvance q i s now) db = after db (generation_advance E q i s now db)"
| "step E (EvReaped r) db = after db (workspace_reaped r db)"
| "step E (EvRecover r f e a c s) db = snd (recover_worker E r f e a c s db)"
| "step E (EvReplaceFenced x a c s) db = snd (replace_fenced E x a c s db)"
| "step E (EvFinalize i q p now) db = after db (generation_finalize E i q p now db)"
| "step E EvRestart db = db\<lparr>mem_pending := []\<rparr>"
| "step E (EvEnvironment t) db = environment t db"

definition run_events :: "external \<Rightarrow> event list \<Rightarrow> ledger \<Rightarrow> ledger" where
  "run_events E evs db = fold (step E) evs db"

section \<open>Simulation of a protocol\<close>

text \<open>
  A system whose events, seen through a view per key, take steps of an abstract protocol.
\<close>

locale simulation =
  fixes exec :: "'ev \<Rightarrow> 's \<Rightarrow> 's"
    and view :: "'s \<Rightarrow> 'k \<Rightarrow> 'c"
    and protocol :: "'c \<Rightarrow> 'c \<Rightarrow> bool"
    and good :: "'s \<Rightarrow> bool"
  assumes simulates: "good s \<Longrightarrow> protocol\<^sup>*\<^sup>* (view s k) (view (exec e s) k)"
    and stays_good: "good s \<Longrightarrow> good (exec e s)"
begin

lemma run_good: "good s \<Longrightarrow> good (fold exec es s)"
  by (induction es arbitrary: s) (auto intro: stays_good)

lemma run_simulates: "good s \<Longrightarrow> protocol\<^sup>*\<^sup>* (view s k) (view (fold exec es s) k)"
proof (induction es arbitrary: s)
  case (Cons e es)
  have "protocol\<^sup>*\<^sup>* (view s k) (view (exec e s) k)" by (rule simulates [OF Cons.prems])
  also have "protocol\<^sup>*\<^sup>* (view (exec e s) k) (view (fold exec es (exec e s)) k)"
    by (rule Cons.IH [OF stays_good [OF Cons.prems]])
  finally show ?case by simp
qed simp

lemma run_invariant:
  assumes "good s" and "I (view s k)" and "\<And>c c'. protocol\<^sup>*\<^sup>* c c' \<Longrightarrow> I c \<Longrightarrow> I c'"
  shows "I (view (fold exec es s) k)"
  using assms(3) [OF run_simulates [OF assms(1)] assms(2)] .

end

section \<open>The ledger simulates the protocol\<close>

definition ledger_ok :: "external \<Rightarrow> ledger \<Rightarrow> bool" where
  "ledger_ok E db \<longleftrightarrow> codec_ok E \<and> (\<forall>i. cell_named (cell_of E db i))"

lemma refines_after:
  "(\<And>x db'. r = Inr (x, db') \<Longrightarrow> refines E db db') \<Longrightarrow> refines E db (after db r)"
  by (auto simp: after_def split: sum.splits prod.splits)

lemma refines_after_insert:
  "(\<And>db'. r = Inr db' \<Longrightarrow> refines E db db') \<Longrightarrow> refines E db (after_insert db r)"
  by (auto simp: after_insert_def split: sum.splits)

lemma refines_environment: "refines E db (environment t db)"
  by (intro refines_same ext)
    (simp_all add: environment_def state_of_def worker_of_def generation_of_def)

lemmas refines_events = refines_lock refines_unlock refines_write refines_insert_generation
  refines_revoke refines_note_create_starting refines_seal refines_jit refines_result refines_forgejo
  refines_expiry refines_resources_destroyed refines_operation_insert refines_operation_update
  refines_record_apply_starting refines_operation_bootstrap refines_take refines_launch refines_register
  refines_retain refines_spawn_ack refines_command_ended refines_fenced refines_verify_cleanup
  refines_anchor_failed_create refines_complete_worker refines_reaped refines_finalize

lemma refines_step_event:
  assumes "ledger_ok E db"
  shows "refines E db (step E ev db)"
proof (cases ev)
  case (EvInsertGuarded n F g fg)
  then show ?thesis
    using assms by (cases "generation_insert_guarded E n F g fg db")
      (auto simp: ledger_ok_def intro: refines_insert_guarded)
next
  case (EvAdmitPool C T n F ds g fg)
  then show ?thesis
    using assms by (auto simp: ledger_ok_def split: option.splits intro: refines_admit_pool)
next
  case (EvAdvance q i s now)
  then show ?thesis
    using assms by (auto simp: ledger_ok_def intro!: refines_after intro: refines_generation_advance)
next
  case (EvRecover r f e a c s)
  then show ?thesis
    by (cases "recover_worker E r f e a c s db") (auto intro: refines_recover_worker)
next
  case (EvReplaceFenced x a c s)
  then show ?thesis
    by (cases "replace_fenced E x a c s db") (auto intro: refines_replace_fenced)
next
  case EvRestart
  then show ?thesis by (simp add: refines_admissions)
next
  case (EvEnvironment t)
  then show ?thesis by (simp add: refines_environment)
qed (auto intro!: refines_after refines_after_insert intro: refines_events)

interpretation ledger: simulation "step E" "cell_of E" cell_step "ledger_ok E" for E
proof unfold_locales
  fix db :: ledger and i :: string and ev :: event
  assume ok: "ledger_ok E db"
  from refines_step_event [OF ok] show "cell_steps (cell_of E db i) (cell_of E (step E ev db) i)"
    by (simp add: refines_def)
next
  fix db :: ledger and ev :: event
  assume ok: "ledger_ok E db"
  show "ledger_ok E (step E ev db)"
    using ok refines_step_event [OF ok, of ev]
    by (auto simp: ledger_ok_def refines_def intro: cell_steps_named)
qed

section \<open>Facts about runs\<close>

lemma run_events_ok: "ledger_ok E db \<Longrightarrow> ledger_ok E (run_events E evs db)"
  unfolding run_events_def by (rule ledger.run_good)

lemma run_cell: "ledger_ok E db \<Longrightarrow> cell_steps (cell_of E db i) (cell_of E (run_events E evs db) i)"
  unfolding run_events_def by (rule ledger.run_simulates)

lemma run_inv:
  "ledger_ok E db \<Longrightarrow> cell_inv (cell_of E db i) \<Longrightarrow> cell_inv (cell_of E (run_events E evs db) i)"
  using cell_steps_inv [OF run_cell] by blast

lemma run_row:
  assumes "ledger_ok E db" and "state_of db i = Some r"
  obtains r' where "state_of (run_events E evs db) i = Some r'" "row_progress r r'"
  using cell_steps_progress [OF run_cell [OF assms(1), where i = i and evs = evs]] assms(2)
  by (auto simp: cell_progress_def)

lemma run_worker:
  assumes "ledger_ok E db" and "worker_of db i \<noteq> None"
  shows "worker_of (run_events E evs db) i \<noteq> None"
  using cell_steps_worker [OF run_cell [OF assms(1), where i = i and evs = evs]] assms(2) by simp

text \<open>A control operation whose claim does not authenticate changes nothing.\<close>

fun control_of :: "event \<Rightarrow> control_access option" where
  "control_of (EvLaunch a) = Some a"
| "control_of (EvRegister a _) = Some a"
| "control_of (EvRetain a _) = Some a"
| "control_of (EvSpawnAck a _) = Some a"
| "control_of (EvCommandEnded a _) = Some a"
| "control_of (EvFenced a _) = Some a"
| "control_of (EvVerifyCleanup a) = Some a"
| "control_of (EvComplete a _ _ _ _) = Some a"
| "control_of (EvReplaceFenced a _ _ _) = Some a"
| "control_of _ = None"

lemma after_Inl [simp]: "after db (Inl e) = db"
  by (simp add: after_def)

lemma rejected_control:
  assumes "worker_load E a db = Inl e" and "control_of ev = Some a"
  shows "step E ev db = db"
  using assms(2)
proof (cases ev)
  case (EvRegister b p)
  then show ?thesis
    using assms by (cases "process_identity_validate p") (simp_all add: worker_register_def Let_def)
qed (use assms in \<open>auto simp: worker_launch_pending_def retain_input_def spawn_ack_def command_ended_def
  worker_fenced_def verify_cleanup_def complete_worker_def replace_fenced_def Let_def\<close>)

section \<open>A concrete run\<close>

definition sample_start :: ledger where
  "sample_start = (sample_ledger (sample_generation ''Creating''))\<lparr>db_generations := []\<rparr>"

definition sample_record :: generation_record where
  "sample_record = map_generation ''g'' (sample_generation ''CreatePending'')"

definition sample_fresh :: fresh_credentials where
  "sample_fresh = \<lparr>fresh_lineage = ''L'', fresh_attempt = ''a'', fresh_control = ''con'', fresh_state_cap = ''cap''\<rparr>"

definition sample_guard :: fleet_guard where
  "sample_guard = \<lparr>guard_incarnation = ''x'', guard_revision = 1, guard_fence = 1\<rparr>"

definition sample_admission :: event where
  "sample_admission = EvInsertGuarded (Some 5) sample_fresh sample_record sample_guard"

definition sample_control :: control_access where
  "sample_control = \<lparr>ca_claim = \<lparr>claim_generation = ''g'', claim_epoch = 1, claim_attempt = ''a''\<rparr>, ca_capability = ''con''\<rparr>"

definition sample_recovery :: "worker_phase \<Rightarrow> recovery_record" where
  "sample_recovery phase = \<lparr>rec_generation = ''g'', rec_epoch = 1, rec_attempt = ''a'', rec_phase = phase,
     rec_process = None, rec_workspace = ''w'', rec_create_started = False, rec_has_input = False\<rparr>"

text \<open>A worker that was replaced, and one whose generation is quarantined under a lock.\<close>

definition sample_replaced :: ledger where
  "sample_replaced = run_events sample_external
     [sample_admission, EvRestart, EvRecover (sample_recovery Admitted) Fenced False ''b'' ''con2'' ''cap2''] sample_start"

definition sample_orphan :: ledger where
  "sample_orphan = run_events sample_external
     [sample_admission, EvLock sample_access sample_lock,
      EvRecover (sample_recovery Admitted) FenceUnknown False ''b'' ''con2'' ''cap2'',
      EvRecover (sample_recovery PhaseQuarantined) Fenced False ''b'' ''con2'' ''cap2''] sample_start"

lemma sample_start_ok: "ledger_ok sample_external sample_start"
  using sample_codec_ok
  by (simp add: ledger_ok_def cell_named_def sample_start_def worker_of_def sample_ledger_def)

lemma sample_start_empty: "db_workers sample_start = []" "db_states sample_start = []"
  by (simp_all add: sample_start_def sample_ledger_def)

lemma sample_replaced_ok: "ledger_ok sample_external sample_replaced"
  unfolding sample_replaced_def by (rule run_events_ok [OF sample_start_ok])

lemma sample_replaced_epoch: "map_option st_worker_epoch (state_of sample_replaced ''g'') = Some 2"
  by code_simp

lemma sample_orphan_ok: "ledger_ok sample_external sample_orphan"
  unfolding sample_orphan_def by (rule run_events_ok [OF sample_start_ok])

lemma sample_orphan_lock:
  "map_option (\<lambda>r. (st_revoked r, st_lock_id r)) (state_of sample_orphan ''g'') = Some (True, Some ''l'')"
  by code_simp

section \<open>Properties\<close>


text \<open>C4. State history only moves forward, over any run: the worker epoch and the revision never decrease,
  equal revisions mean the same bytes, a later revision has a strictly larger serial, the lineage
  never changes, and neither the started Create nor the seal is taken back (a sealed state is never
  written again).\<close>

theorem state_history_forward:
  assumes "ledger_ok E db" and "state_of db i = Some r"
  shows "\<exists>r'. state_of (run_events E evs db) i = Some r'
    \<and> st_worker_epoch r \<le> st_worker_epoch r' \<and> st_revision r \<le> st_revision r'
    \<and> (st_revision r' = st_revision r \<longrightarrow> st_state_bytes r' = st_state_bytes r)
    \<and> (st_lineage r \<noteq> None \<longrightarrow> st_lineage r' = st_lineage r)
    \<and> (\<forall>n. st_serial r = Some n \<and> st_revision r < st_revision r' \<longrightarrow> (\<exists>m. st_serial r' = Some m \<and> n < m))
    \<and> (st_create_started r \<longrightarrow> st_create_started r')
    \<and> (st_sealed r \<longrightarrow> st_sealed r' \<and> st_state_bytes r' = st_state_bytes r)"
  using assms
proof (rule run_row [where evs = evs])
  fix r' assume "state_of (run_events E evs db) i = Some r'" and "row_progress r r'"
  then show ?thesis unfolding row_progress_def by (intro exI [of _ r']) blast
qed

text \<open>C3. A superseded worker is locked out for ever: once recovery has moved a generation to a later epoch,
  no control operation under a claim of an earlier epoch changes the ledger again, in any
  continuation of the run and whatever its capability.\<close>

theorem superseded_claim_is_dead:
  assumes "ledger_ok E db" and "state_of db (claim_generation (ca_claim a)) = Some r"
    and "claim_epoch (ca_claim a) < st_worker_epoch r" and "control_of ev = Some a"
  shows "step E ev (run_events E evs db) = run_events E evs db"
  using assms(1,2)
proof (rule run_row [where evs = evs])
  fix r' assume r': "state_of (run_events E evs db) (claim_generation (ca_claim a)) = Some r'" "row_progress r r'"
  then have "st_worker_epoch r' \<noteq> claim_epoch (ca_claim a)"
    using assms(3) unfolding row_progress_def by linarith
  with r'(1) have "worker_load E a (run_events E evs db) \<noteq> Inr w" for w
    by (auto elim!: worker_load_Inr)
  then obtain e where "worker_load E a (run_events E evs db) = Inl e"
    by (cases "worker_load E a (run_events E evs db)") auto
  from rejected_control [OF this assms(4)] show ?thesis .
qed


text \<open>Destroyed is final: once a generation is destroyed it stays destroyed in every continuation of the
  run, whatever is asked of it.\<close>

theorem destroyed_is_final:
  assumes "ledger_ok E db" and "cell_inv (cell_of E db i)"
    and "generation_of db i = Some g" and "gen_state g = ''Destroyed''"
  shows "\<exists>g'. generation_of (run_events E evs db) i = Some g' \<and> gen_state g' = ''Destroyed''"
  using destroyed_steps [OF run_cell [OF assms(1)] assms(2), of evs] assms(3,4)
  by (simp add: destroyed_def)

text \<open>C2. At most one Create effect is ever permitted for a generation with a worker: after one permission no
  later request for a Create of the same generation is recorded, over any run with any recovery.\<close>

theorem create_permitted_once:
  assumes "ledger_ok E db" and "record_apply_starting E p path now db = Inr (u, db1)"
    and "prov_intent p = CreateIntent" and "worker_of db (prov_generation_id p) \<noteq> None"
    and "prov_intent q = CreateIntent" and "prov_generation_id q = prov_generation_id p"
  shows "\<not> is_ok (record_apply_starting E q path' now' (run_events E evs db1))"
proof
  let ?i = "prov_generation_id p" and ?db = "run_events E evs db1"
  assume "is_ok (record_apply_starting E q path' now' ?db)"
  then obtain v db2 where q: "record_apply_starting E q path' now' ?db = Inr (v, db2)" by (auto simp: is_ok_iff)
  have "step E (EvApplyStarting p path now) db = db1" using assms(2) by (simp add: after_def)
  then have ok: "ledger_ok E db1" using ledger.stays_good [OF assms(1)] by metis
  obtain r1 where r1: "state_of db1 ?i = Some r1" "st_create_started r1" and "worker_of db1 ?i \<noteq> None"
    using assms(2-4) by (rule create_effect_started)
  then have w: "worker_of ?db ?i \<noteq> None" using run_worker [OF ok] by blast
  from ok r1(1) obtain r where r: "state_of ?db ?i = Some r" "row_progress r1 r" by (rule run_row)
  then have "st_create_started r" using r1(2) unfolding row_progress_def by blast
  with create_effect_blocked [OF q] w r(1) assms(5,6) show False by simp
qed

lemma finalize_destroys:
  assumes "generation_finalize E i q p now db = Inr (u, db')"
  shows "\<exists>g. generation_of db' i = Some g \<and> gen_state g = ''Destroyed''"
proof -
  let ?db1 = "set_generation i (\<lambda>g. g\<lparr>gen_state := as_str_repr Destroyed, gen_updated_at := now\<rparr>) db"
  obtain db2 where g: "generation_of db i \<noteq> None" and s: "operator_seal_on E i q now ?db1 = Inr db2"
    and o: "generation_of db' = generation_of db2"
    using assms by (auto simp: generation_finalize_def Let_def step_simps operation_insert_on_def fun_eq_iff split: if_splits)
  have "generation_of db2 = generation_of ?db1"
    using s by (auto simp: operator_seal_on_def operator_seal_def Let_def step_simps set_state_Inr set_worker_Inr
        fun_eq_iff split: option.splits if_splits)
  with g o show ?thesis by auto
qed


text \<open>C7. When the operator can finalise a quarantined generation that has a worker: exactly when the worker
  never ran, or its executor is known to be dead, no command is outstanding, and a state is stored
  and not locked.\<close>

theorem finalize_succeeds_iff:
  assumes "cell_inv (cell_of E db i)" and "generation_of db i = Some g" and "gen_state g = ''Quarantined''"
    and "worker_of db i = Some w" and "state_of db i = Some r" and "map_of (db_operations db) q = None"
    and "parse_uuid E i \<noteq> None" and "parse_uuid E (st_worker_attempt r) \<noteq> None" and "parse_uuid E q \<noteq> None"
  shows "is_ok (generation_finalize E i q p now db) \<longleftrightarrow>
     (wk_phase w = Admitted \<or> wk_phase w = PhaseFenced \<or> quarantined_fenced i w r db)
     \<and> wk_handover w = None \<and> wk_active_command w = None \<and> 0 < st_revision r \<and> st_lock_id r = None"
proof -
  let ?db1 = "set_generation i (\<lambda>g. g\<lparr>gen_state := as_str_repr Destroyed, gen_updated_at := now\<rparr>) db"
  have c: "state_check r" "worker_check w"
    using assms(1,4,5) by (auto simp: cell_inv_def)
  have qf: "quarantined_fenced i w r (set_generation i h db) = quarantined_fenced i w r db" for h
    by (simp add: quarantined_fenced_def)
  have seal: "state_check (r\<lparr>st_sealed := True, st_revoked := True\<rparr>) \<longleftrightarrow> 0 < st_revision r \<and> st_lock_id r = None"
    using c(1) by (auto simp: state_check_def)
  have "is_ok (generation_finalize E i q p now db) \<longleftrightarrow> is_ok (operator_seal_on E i q now ?db1)"
    using assms(2,3,6)
    by (auto simp: is_ok_iff generation_finalize_def Let_def step_simps operation_insert_on_def ok_or_def
        operator_seal_on_def operator_seal_def set_state_Inr set_worker_Inr split: option.splits if_splits)
  also have "\<dots> \<longleftrightarrow> (wk_phase w = Admitted \<or> wk_phase w = PhaseFenced \<or> quarantined_fenced i w r db)
     \<and> wk_handover w = None \<and> wk_active_command w = None \<and> 0 < st_revision r \<and> st_lock_id r = None"
    using assms(2,4,5,7-9) c(2) seal
    by (auto simp: is_ok_iff operator_seal_on_def operator_seal_def Let_def step_simps set_state_Inr set_worker_Inr
        qf worker_check_def)
  finally show ?thesis .
qed

text \<open>C6. When the control plane can complete a generation that has a worker: exactly when no command is
  outstanding, the worker is admitted, running or fenced, the generation is being destroyed, the
  stored state is readable, unlocked, unsealed and holds no managed resource, and either the worker
  attested the cleanup of this very revision or no Create ever started.\<close>

theorem completion_succeeds_iff:
  assumes "cell_inv (cell_of E db i)" and "generation_of db i = Some g" and "worker_of db i = Some w"
    and "state_of db i = Some r" and "wk_completion_receipt w = None"
    and "parse_uuid E i = Some i" and "parse_uuid E (st_worker_attempt r) = Some a"
  shows "is_ok (complete_generation E q i now db) \<longleftrightarrow>
     wk_handover w = None \<and> wk_active_command w = None \<and> wk_phase w \<in> {Admitted, Running, PhaseFenced}
     \<and> gen_state g = ''Destroying'' \<and> \<not> st_sealed r \<and> st_lock_id r = None
     \<and> (\<exists>s. snapshot E r = Inr (Some s) \<and> doc_managed_empty (snap_document s))
     \<and> (if st_create_started r then wk_cleanup_revision w = Some (st_revision r)
        else \<not> list_ex (\<lambda>(_, o1). op_generation_id o1 = i \<and> op_kind o1 = ''Create'') (db_operations db))"
proof -
  have c: "state_check r" "worker_check w"
    using assms(1,3,4) by (auto simp: cell_inv_def)
  have seal: "state_check (r\<lparr>st_sealed := True\<rparr>)" if "snapshot E r = Inr (Some s)" "st_lock_id r = None" for s
    using c(1) that by (auto simp: state_check_def snapshot_Some)
  have lk: "row_lock E r = Inr None \<longleftrightarrow> st_lock_id r = None"
    using c(1) by (auto simp: row_lock_None state_check_def)
  show ?thesis
    using assms(2-) c(2) seal
    by (cases "st_create_started r")
      (auto simp: is_ok_iff complete_generation_def complete_on_def Let_def step_simps writable_Inr lk
        current_snapshot_Inr set_state_Inr set_worker_Inr worker_check_def)
qed

section \<open>Witnesses\<close>


theorem state_history_forward_witness:
  "\<exists>r. state_of (run_events sample_external [EvRestart] sample_replaced) ''g'' = Some r \<and> 2 \<le> st_worker_epoch r"
proof -
  obtain r where r: "state_of sample_replaced ''g'' = Some r" "st_worker_epoch r = 2"
    using sample_replaced_epoch by auto
  from state_history_forward [OF sample_replaced_ok r(1), of "[EvRestart]"] r(2) show ?thesis by auto
qed

theorem superseded_claim_is_dead_witness:
  "step sample_external (EvLaunch sample_control) (run_events sample_external [EvRestart] sample_replaced)
   = run_events sample_external [EvRestart] sample_replaced"
proof -
  obtain r where r: "state_of sample_replaced ''g'' = Some r" "st_worker_epoch r = 2"
    using sample_replaced_epoch by auto
  show ?thesis
    by (rule superseded_claim_is_dead [OF sample_replaced_ok, where a = sample_control and r = r])
      (use r in \<open>simp_all add: sample_control_def\<close>)
qed

definition sample_admitted :: ledger where
  "sample_admitted = run_events sample_external [sample_admission] sample_start"

lemma sample_admitted_ok: "ledger_ok sample_external sample_admitted"
  unfolding sample_admitted_def by (rule run_events_ok [OF sample_start_ok])

lemma sample_start_inv: "cell_inv (cell_of sample_external sample_start i)"
  using sample_start_empty by (simp add: cell_inv_def state_of_def worker_of_def)


theorem destroyed_is_final_witness:
  "\<exists>g. generation_of (run_events sample_external [EvExpiry ''g'' 5] (sample_ledger (sample_generation ''Destroyed''))) ''g''
     = Some g \<and> gen_state g = ''Destroyed''"
proof -
  let ?db = "sample_ledger (sample_generation ''Destroyed'')"
  have ok: "ledger_ok sample_external ?db"
    using sample_codec_ok by (simp add: ledger_ok_def cell_named_def)
  have inv: "cell_inv (cell_of sample_external ?db ''g'')" by (simp add: cell_inv_def)
  show ?thesis
    by (rule destroyed_is_final [OF ok inv, where g = "sample_generation ''Destroyed''"])
      (simp_all add: sample_generation_def)
qed

definition sample_provenance :: plan_provenance where
  "sample_provenance = \<lparr>prov_intent = CreateIntent, prov_saved_plan_digest = ''d'', prov_engine_kind = [],
     prov_engine_version = [], prov_engine_binary_digest = [], prov_artifact_digest = [],
     prov_template_material_digest = [],
     prov_protected_input_digest = ''sha256:'' @ hex_encode sample_external (sha256 sample_external ''input''),
     prov_state_lineage = EmptyLineage, prov_generation_id = ''g'', prov_attempt_id = ''c1''\<rparr>"

definition sample_process :: process_identity where
  "sample_process = \<lparr>host_boot = ''b'', process_id = 7, started = ''t'', containment = ''c'', root_id = None\<rparr>"

definition sample_running :: ledger where
  "sample_running = run_events sample_external
     [sample_admission, EvLaunch sample_control, EvRegister sample_control sample_process,
      EvRetain sample_control ''input'', EvAdvance ''q'' ''g'' Creating 2] sample_start"

lemma sample_running_ok: "ledger_ok sample_external sample_running"
  unfolding sample_running_def by (rule run_events_ok [OF sample_start_ok])

lemma sample_running_worker: "map_option wk_phase (worker_of sample_running ''g'') = Some Running"
  by code_simp

lemma sample_running_create:
  "is_ok (record_apply_starting sample_external sample_provenance ''plan'' 3 sample_running)"
  by code_simp

theorem create_permitted_once_witness:
  "\<exists>db1. record_apply_starting sample_external sample_provenance ''plan'' 3 sample_running = Inr ((), db1)
     \<and> \<not> is_ok (record_apply_starting sample_external (sample_provenance\<lparr>prov_attempt_id := ''c2''\<rparr>) ''plan'' 4
          (run_events sample_external [EvRestart] db1))"
proof -
  obtain db1 where c: "record_apply_starting sample_external sample_provenance ''plan'' 3 sample_running = Inr ((), db1)"
    using sample_running_create by (auto simp: is_ok_iff)
  have p: "prov_intent sample_provenance = CreateIntent" "prov_generation_id sample_provenance = ''g''"
    by (simp_all add: sample_provenance_def)
  have w: "worker_of sample_running (prov_generation_id sample_provenance) \<noteq> None"
    using sample_running_worker p by auto
  from create_permitted_once [OF sample_running_ok c p(1) w, of "sample_provenance\<lparr>prov_attempt_id := ''c2''\<rparr>"
      "''plan''" 4 "[EvRestart]"] c p show ?thesis by simp
qed


text \<open>The same quarantine without the lock is finalised by the operator.\<close>

definition sample_quarantined :: ledger where
  "sample_quarantined = run_events sample_external
     [sample_admission, EvRecover (sample_recovery Admitted) FenceUnknown False ''b'' ''con2'' ''cap2'',
      EvRecover (sample_recovery PhaseQuarantined) Fenced False ''b'' ''con2'' ''cap2''] sample_start"

theorem finalize_succeeds_iff_witness:
  "is_ok (generation_finalize sample_external ''g'' ''f'' ''p'' 9 sample_quarantined)"
proof -
  let ?db = sample_quarantined
  have inv: "cell_inv (cell_of sample_external ?db ''g'')"
    unfolding sample_quarantined_def by (rule run_inv [OF sample_start_ok sample_start_inv])
  have "map_option gen_state (generation_of ?db ''g'') = Some ''Quarantined''" by code_simp
  then obtain g where g: "generation_of ?db ''g'' = Some g" "gen_state g = ''Quarantined''" by auto
  have "map_option (\<lambda>w. (wk_phase w, wk_handover w, wk_active_command w)) (worker_of ?db ''g'')
      = Some (PhaseQuarantined, None, None)"
    by code_simp
  then obtain w where w: "worker_of ?db ''g'' = Some w" "wk_phase w = PhaseQuarantined" "wk_handover w = None"
      "wk_active_command w = None" by auto
  have "map_option (\<lambda>r. (st_worker_epoch r, st_worker_attempt r, st_revision r, st_lock_id r)) (state_of ?db ''g'')
      = Some (1, ''a'', 1, None)"
    by code_simp
  then obtain r where r: "state_of ?db ''g'' = Some r" "st_worker_epoch r = 1" "st_worker_attempt r = ''a''"
      "st_revision r = 1" "st_lock_id r = None" by auto
  have f: "map_option (\<lambda>f. (fence_generation_id f, fence_worker_epoch f, fence_confirmed f)) (fence_of ?db ''a'')
      = Some (''g'', 1, True)"
    and o: "map_of (db_operations ?db) ''f'' = None"
    by code_simp+
  have "quarantined_fenced ''g'' w r ?db"
    using f w(2) r by (auto simp: quarantined_fenced_def)
  then show ?thesis
    using finalize_succeeds_iff [OF inv g w(1) r(1) o, of "''p''" 9] w r by (simp add: sample_external_def)
qed

text \<open>A worker that was replaced before its Create started is completed when its generation is destroyed.\<close>

definition sample_destroying :: ledger where
  "sample_destroying = run_events sample_external
     [EvAdvance ''q'' ''g'' Retiring 4, EvAdvance ''q'' ''g'' DestroyPending 5, EvAdvance ''q'' ''g'' Destroying 6]
     sample_replaced"

theorem completion_succeeds_iff_witness:
  "is_ok (complete_generation sample_external ''q'' ''g'' 7 sample_destroying)"
proof -
  let ?db = sample_destroying
  have inv: "cell_inv (cell_of sample_external ?db ''g'')"
    unfolding sample_destroying_def sample_replaced_def
    by (intro run_inv run_events_ok sample_start_ok sample_start_inv)
  have "map_option gen_state (generation_of ?db ''g'') = Some ''Destroying''" by code_simp
  then obtain g where g: "generation_of ?db ''g'' = Some g" "gen_state g = ''Destroying''" by auto
  have "map_option (\<lambda>w. (wk_phase w, wk_handover w, wk_active_command w, wk_completion_receipt w)) (worker_of ?db ''g'')
      = Some (Admitted, None, None, None)"
    by code_simp
  then obtain w where w: "worker_of ?db ''g'' = Some w" "wk_phase w = Admitted" "wk_handover w = None"
      "wk_active_command w = None" "wk_completion_receipt w = None" by auto
  have "map_option (\<lambda>r. (st_sealed r, st_create_started r, st_lock_id r,
      case snapshot sample_external r of Inr (Some s) \<Rightarrow> Some (doc_managed_empty (snap_document s)) | _ \<Rightarrow> None))
      (state_of ?db ''g'') = Some (False, False, None, Some True)"
    by code_simp
  then obtain r where r: "state_of ?db ''g'' = Some r" "\<not> st_sealed r" "\<not> st_create_started r" "st_lock_id r = None"
    and e: "(case snapshot sample_external r of Inr (Some s) \<Rightarrow> Some (doc_managed_empty (snap_document s)) | _ \<Rightarrow> None)
      = Some True"
    by auto
  from e have e: "\<exists>s. snapshot sample_external r = Inr (Some s) \<and> doc_managed_empty (snap_document s)"
    by (cases "snapshot sample_external r") (auto split: option.split_asm)
  have o: "db_operations ?db = []" by code_simp
  have u: "parse_uuid sample_external s = Some s" for s by (simp add: sample_external_def)
  show ?thesis
    using completion_succeeds_iff [OF inv g(1) w(1) r(1) w(5) u u, of "''q''" 7] g w r e o by simp
qed

end
