(* ===== verification/Listener.thy ===== *)
theory Listener
  imports Generations Jobs
begin

text \<open>
  The listener of a GitHub fleet: its session, the messages of the queue, their acknowledgement and the
  acquisition of jobs.  \<open>lifecycle_sessions.rs\<close>, \<open>runtime_guards.rs\<close>, \<open>listener_messages.rs\<close>,
  \<open>listener_digest.rs\<close>, \<open>listener_acquisitions.rs\<close>, \<open>listener_observations.rs\<close>, \<open>listener_activity.rs\<close> and
  the rows that \<open>jobs/ingest.rs\<close> retains, all of \<open>shaula-store\<close>; the tables are those of
  \<open>entities/listener.rs\<close> and \<open>m0011_listener_messages.rs\<close>.

  As in the lifecycle ledger a table is the list of its rows by primary key and an error rolls the
  transaction back.  A workflow job is identified by its scope and protocol identifier, which are unique
  together; the summaries and associations derived from the retained rows are not modelled.
\<close>

section \<open>Messages and contexts\<close>

record job_message =
  jm_request :: int
  jm_job :: string
  jm_metadata :: job_metadata

record started_message =
  sm_request :: int
  sm_job :: string
  sm_runner_id :: int
  sm_runner_name :: string
  sm_metadata :: job_metadata

record completed_message =
  cm_request :: int
  cm_job :: string
  cm_runner_id :: int
  cm_runner_name :: string
  cm_metadata :: job_metadata
  cm_result :: "string option"

record statistics_snapshot =
  total_assigned_jobs0 :: int
  total_registered_runners :: int
  total_busy_runners :: int
  total_idle_runners :: int

record poll_message =
  pm_id :: int
  pm_statistics :: statistics_snapshot
  pm_available :: "job_message list"
  pm_assigned :: "job_message list"
  pm_started :: "started_message list"
  pm_completed :: "completed_message list"

record runtime_guard =
  fg_incarnation :: string
  fg_desired_revision :: int
  fg_mutation_fence :: int

record session_handle =
  sh_session_id :: string
  sh_queue_url :: string
  sh_queue_token :: string
  sh_initial :: statistics_snapshot

record session_effect_context =
  se_guard :: runtime_guard
  se_auth :: resolved_auth_context
  se_epoch :: int

record session_install_request =
  in_guard :: runtime_guard
  in_expected_epoch :: "int option"
  in_auth :: resolved_auth_context
  in_scale_set :: int
  in_handle :: session_handle

record ingested_message =
  im_id :: int
  im_acked :: bool
  im_pending :: "int list"

text \<open>Serde of messages and contexts, beside the decoders of \<open>external\<close>.\<close>

record listener_codec =
  lc_message :: "poll_message \<Rightarrow> string option"
  lc_context :: "resolved_auth_context \<Rightarrow> string option"

section \<open>Tables\<close>

record session_row =
  sr_session_id :: string
  sr_epoch :: int
  sr_scale_set_id :: int
  sr_queue_url :: "string option"
  sr_queue_token :: "string option"
  sr_last_message_id :: int
  sr_created_at :: int

record message_row =
  mr_digest :: string
  mr_digest_version :: int
  mr_incarnation :: string
  mr_fleet_revision :: int
  mr_mutation_fence :: int
  mr_profile_key :: string
  mr_auth_revision :: int
  mr_context :: string
  mr_acked :: int
  mr_created_at :: int
  mr_updated_at :: int

record acquisition_row =
  ar_message_id :: int
  ar_state :: string
  ar_updated_at :: int

record handoff_row =
  ho_desired_profile_key :: string
  ho_desired_revision :: int
  ho_observed_profile_key :: "string option"
  ho_observed_revision :: "int option"
  ho_state :: string
  ho_cleanup_only :: bool
  ho_attempts :: int
  ho_next_retry_at :: "int option"
  ho_reason :: "string option"

record context_row =
  xr_desired_profile_key :: "string option"
  xr_desired_revision :: "int option"
  xr_desired_fence :: "int option"
  xr_desired_context :: "string option"
  xr_observed_profile_key :: "string option"
  xr_observed_revision :: "int option"
  xr_observed_context :: "string option"
  xr_state :: string
  xr_reason :: "string option"
  xr_attempts :: int
  xr_next_retry_at :: "int option"
  xr_updated_at :: int

text \<open>A retained fact of \<open>workflow_job_observations\<close>: the job it belongs to is a protocol identifier.\<close>

record fact_row =
  fr_scope :: string
  fr_job :: "string option"
  fr_protocol_job :: string
  fr_request :: int
  fr_runner :: "int option"
  fr_observation :: job_observation

type_synonym message_key = "string \<times> int \<times> int"

record listener_db =
  ld_ledger :: ledger
  ld_handoffs :: "(string \<times> handoff_row) list"
  ld_contexts :: "(string \<times> context_row) list"
  ld_auth_revisions :: "((string \<times> int) \<times> (int \<times> string)) list"
  ld_retained :: "((string \<times> string \<times> int) \<times> string) list"
  ld_session_auth :: "(string \<times> (string \<times> int)) list"
  ld_sessions :: "(string \<times> session_row) list"
  ld_messages :: "(message_key \<times> message_row) list"
  ld_acquisitions :: "(message_key \<times> acquisition_row) list"
  ld_observations :: "((string \<times> int \<times> int \<times> string \<times> int) \<times> (string \<times> string option \<times> int)) list"
  ld_demand :: "(string \<times> (int \<times> int)) list"
  ld_jobs :: "((string \<times> string) \<times> int) list"
  ld_facts :: "fact_row list"
  ld_outbox :: "(string \<times> int \<times> int) list"

text \<open>\<open>UPDATE ... WHERE\<close> over the rows of a table, and \<open>INSERT ... ON CONFLICT DO NOTHING\<close>.\<close>

definition update_rows :: "('k \<Rightarrow> 'r \<Rightarrow> bool) \<Rightarrow> ('r \<Rightarrow> 'r) \<Rightarrow> ('k \<times> 'r) list \<Rightarrow> ('k \<times> 'r) list" where
  "update_rows p f rows = map (\<lambda>(k, r). (k, if p k r then f r else r)) rows"

definition insert_new :: "'k \<Rightarrow> 'r \<Rightarrow> ('k \<times> 'r) list \<Rightarrow> ('k \<times> 'r) list" where
  "insert_new k r rows = (if map_of rows k = None then (k, r) # rows else rows)"

text \<open>A transaction that returned an error is rolled back.\<close>

definition commit :: "(listener_db \<Rightarrow> store_error + 'a \<times> listener_db) \<Rightarrow> listener_db \<Rightarrow> (store_error + 'a) \<times> listener_db" where
  "commit tx db = (case tx db of Inl e \<Rightarrow> (Inl e, db) | Inr (x, db') \<Rightarrow> (Inr x, db'))"
section \<open>Authority\<close>

definition guard_matches :: "fleet_row \<Rightarrow> runtime_guard \<Rightarrow> bool" where
  "guard_matches f g \<longleftrightarrow> fleet_incarnation f = fg_incarnation g \<and> fleet_desired_revision f = fg_desired_revision g
     \<and> fleet_mutation_fence f = fg_mutation_fence g"

definition session_close_authorize :: "string \<Rightarrow> runtime_guard \<Rightarrow> listener_db \<Rightarrow> bool" where
  "session_close_authorize key g db =
     (case fleet_of (ld_ledger db) key of None \<Rightarrow> False | Some f \<Rightarrow> guard_matches f g \<and> \<not> fleet_tombstone f)"

definition fleet_runtime_guard :: "string \<Rightarrow> runtime_guard \<Rightarrow> listener_db \<Rightarrow> bool" where
  "fleet_runtime_guard key g db =
     (case fleet_of (ld_ledger db) key of
        None \<Rightarrow> False
      | Some f \<Rightarrow> guard_matches f g \<and> \<not> fleet_deletion_marker f \<and> \<not> fleet_tombstone f)"

definition decode_context :: "external \<Rightarrow> string option \<Rightarrow> store_error + resolved_auth_context option" where
  "decode_context E text =
     (case text of
        None \<Rightarrow> Inr None
      | Some t \<Rightarrow> map_ok Some (ok_or (StoreCorrupt ''session auth context unreadable'') (decode_auth_context E t)))"

definition auth_execution_context :: "external \<Rightarrow> string \<Rightarrow> string \<Rightarrow> int \<Rightarrow> listener_db
    \<Rightarrow> store_error + resolved_auth_context option" where
  "auth_execution_context E fleet key revision db =
     (case map_of (ld_retained db) (fleet, key, revision) of
        None \<Rightarrow> Inr None
      | Some text \<Rightarrow>
          and_then (ok_or (StoreCorrupt ''retained auth context corrupt'') (decode_auth_context E text)) (\<lambda>c.
          if ctx_profile_key c \<noteq> key \<or> ctx_revision c \<noteq> revision \<or> \<not> has_complete_identity c
          then Inl (StoreCorrupt ''retained auth context does not match its reference'') else Inr (Some c)))"

definition handoff_observed :: "handoff_row \<Rightarrow> resolved_auth_context \<Rightarrow> bool" where
  "handoff_observed h c \<longleftrightarrow>
     ho_state h = ''Observed'' \<and> \<not> ho_cleanup_only h \<and> ho_desired_profile_key h = ctx_profile_key c
     \<and> ho_desired_revision h = ctx_revision c \<and> ho_observed_profile_key h = Some (ctx_profile_key c)
     \<and> ho_observed_revision h = Some (ctx_revision c)"

definition context_row_observed :: "context_row \<Rightarrow> runtime_guard \<Rightarrow> resolved_auth_context \<Rightarrow> bool" where
  "context_row_observed x g c \<longleftrightarrow>
     xr_state x = ''Observed'' \<and> xr_desired_profile_key x = Some (ctx_profile_key c)
     \<and> xr_desired_revision x = Some (ctx_revision c) \<and> xr_desired_fence x = Some (fg_mutation_fence g)
     \<and> xr_observed_profile_key x = Some (ctx_profile_key c) \<and> xr_observed_revision x = Some (ctx_revision c)"

definition runtime_auth_guard :: "external \<Rightarrow> string \<Rightarrow> runtime_guard \<Rightarrow> resolved_auth_context \<Rightarrow> listener_db
    \<Rightarrow> store_error + bool" where
  "runtime_auth_guard E key g expected db =
     (if \<not> fleet_runtime_guard key g db \<or> \<not> has_complete_identity expected then Inr False else
      case map_of (ld_handoffs db) key of
        None \<Rightarrow> Inr False
      | Some handoff \<Rightarrow>
      if \<not> handoff_observed handoff expected then Inr False else
      case map_of (ld_auth_revisions db) (ctx_profile_key expected, ctx_revision expected) of
        None \<Rightarrow> Inr False
      | Some (schema_version, auth_kind) \<Rightarrow>
      if schema_version \<noteq> 2 \<or> auth_kind \<noteq> ''github_app'' then Inl (StorePolicyDenied ''UnsupportedAuthFormat'') else
      case map_of (ld_contexts db) key of
        None \<Rightarrow> Inr False
      | Some row \<Rightarrow>
      if \<not> context_row_observed row g expected then Inr False else
      and_then (decode_context E (xr_desired_context row)) (\<lambda>desired.
      case desired of None \<Rightarrow> Inr False | Some desired_context \<Rightarrow>
      and_then (decode_context E (xr_observed_context row)) (\<lambda>observed.
      and_then (auth_execution_context E key (ctx_profile_key expected) (ctx_revision expected) db) (\<lambda>retained.
      Inr (completes expected desired_context \<and> observed = Some expected \<and> retained = Some expected)))))"

definition session_active :: "session_row \<Rightarrow> bool" where
  "session_active s \<longleftrightarrow> sr_session_id s \<noteq> []
     \<and> (case sr_queue_url s of None \<Rightarrow> False | Some v \<Rightarrow> v \<noteq> [])
     \<and> (case sr_queue_token s of None \<Rightarrow> False | Some v \<Rightarrow> v \<noteq> [])"

definition session_auth_context :: "external \<Rightarrow> string \<Rightarrow> listener_db \<Rightarrow> store_error + resolved_auth_context option" where
  "session_auth_context E key db =
     (case map_of (ld_session_auth db) key of
        None \<Rightarrow> Inr None
      | Some (profile_key, revision) \<Rightarrow> auth_execution_context E key profile_key revision db)"

definition scale_set_adopted :: "string \<Rightarrow> int \<Rightarrow> listener_db \<Rightarrow> bool" where
  "scale_set_adopted key i db =
     (case map_of (db_scale_sets (ld_ledger db)) key of
        None \<Rightarrow> False | Some (scale_set, st) \<Rightarrow> scale_set = Some i \<and> st = ''Adopted'')"

definition session_guard :: "external \<Rightarrow> string \<Rightarrow> runtime_guard \<Rightarrow> resolved_auth_context \<Rightarrow> int \<Rightarrow> listener_db
    \<Rightarrow> store_error + bool" where
  "session_guard E key g c epoch db =
     and_then (runtime_auth_guard E key g c db) (\<lambda>ok.
     if \<not> ok then Inr False else
     case map_of (ld_sessions db) key of
       None \<Rightarrow> Inr False
     | Some session \<Rightarrow>
     if sr_epoch session \<noteq> epoch \<or> \<not> session_active session then Inr False else
     if \<not> scale_set_adopted key (sr_scale_set_id session) db then Inr False else
     map_ok (\<lambda>retained. retained = Some c) (session_auth_context E key db))"

definition listener_context_current :: "external \<Rightarrow> string \<Rightarrow> session_effect_context \<Rightarrow> listener_db \<Rightarrow> store_error + bool" where
  "listener_context_current E fleet context db =
     session_guard E fleet (se_guard context) (se_auth context) (se_epoch context) db"

lemma context_current_True:
  assumes "listener_context_current E fleet context db = Inr True"
  shows "\<exists>s. map_of (ld_sessions db) fleet = Some s \<and> sr_epoch s = se_epoch context \<and> session_active s"
  using assms
  by (auto simp: listener_context_current_def session_guard_def and_then_Inr split: option.splits if_splits)

section \<open>Digests\<close>

definition no_metadata :: job_metadata where
  "no_metadata = \<lparr>owner_name = None, repository_name = None, job_display_name = None, job_workflow_ref = None,
     workflow_run_id = None, event_name = None, queue_time = None, scale_set_assign_time = None,
     runner_assign_time = None, finish_time = None\<rparr>"

definition digest_current :: "external \<Rightarrow> listener_codec \<Rightarrow> poll_message \<Rightarrow> store_error + string" where
  "digest_current E C m =
     map_ok (\<lambda>payload. hex_encode E (sha256 E payload))
       (ok_or (StoreCorrupt ''listener message cannot be encoded'') (lc_message C m))"

definition digest_legacy :: "external \<Rightarrow> listener_codec \<Rightarrow> poll_message \<Rightarrow> store_error + string" where
  "digest_legacy E C m =
     digest_current E C
       (m\<lparr>pm_available := map (\<lambda>j. j\<lparr>jm_metadata := no_metadata\<rparr>) (pm_available m),
          pm_assigned := map (\<lambda>j. j\<lparr>jm_metadata := no_metadata\<rparr>) (pm_assigned m),
          pm_started := map (\<lambda>j. j\<lparr>sm_metadata := no_metadata\<rparr>) (pm_started m),
          pm_completed := map (\<lambda>j. j\<lparr>cm_metadata := no_metadata, cm_result := None\<rparr>) (pm_completed m)\<rparr>)"

section \<open>What a message leaves behind\<close>

fun insert_acquisitions :: "string \<Rightarrow> int \<Rightarrow> int \<Rightarrow> int \<Rightarrow> job_message list
    \<Rightarrow> (message_key \<times> acquisition_row) list \<Rightarrow> store_error + (message_key \<times> acquisition_row) list" where
  "insert_acquisitions fleet epoch message now [] rows = Inr rows"
| "insert_acquisitions fleet epoch message now (j # js) rows =
     (if jm_request j \<le> 0 then Inl (StoreCorrupt ''invalid runner request ID'')
      else insert_acquisitions fleet epoch message now js
             (insert_new (fleet, epoch, jm_request j)
                \<lparr>ar_message_id = message, ar_state = ''Pending'', ar_updated_at = now\<rparr> rows))"

definition observed_jobs :: "poll_message \<Rightarrow> (string \<times> int \<times> string \<times> string option) list" where
  "observed_jobs m =
     map (\<lambda>j. (''Assigned'', jm_request j, jm_job j, None)) (pm_assigned m)
     @ map (\<lambda>j. (''Started'', sm_request j, sm_job j, Some (sm_runner_name j))) (pm_started m)
     @ map (\<lambda>j. (''Completed'', cm_request j, cm_job j, Some (cm_runner_name j))) (pm_completed m)"

fun insert_observations :: "string \<Rightarrow> int \<Rightarrow> int \<Rightarrow> int \<Rightarrow> (string \<times> int \<times> string \<times> string option) list
    \<Rightarrow> ((string \<times> int \<times> int \<times> string \<times> int) \<times> (string \<times> string option \<times> int)) list
    \<Rightarrow> store_error + ((string \<times> int \<times> int \<times> string \<times> int) \<times> (string \<times> string option \<times> int)) list" where
  "insert_observations fleet epoch message now [] rows = Inr rows"
| "insert_observations fleet epoch message now ((obs_kind, request, job, runner_name) # js) rows =
     (if request < 0 then Inl (StoreCorrupt ''invalid observed runner request ID'')
      else insert_observations fleet epoch message now js
        (if request = 0 then rows
         else insert_new (fleet, epoch, message, obs_kind, request) (job, runner_name, now) rows))"

definition listener_observations :: "string \<Rightarrow> int \<Rightarrow> poll_message \<Rightarrow> int \<Rightarrow> listener_db \<Rightarrow> store_error + listener_db" where
  "listener_observations fleet epoch m now db =
     and_then (insert_acquisitions fleet epoch (pm_id m) now (pm_available m) (ld_acquisitions db)) (\<lambda>acquisitions.
     and_then (insert_observations fleet epoch (pm_id m) now (observed_jobs m) (ld_observations db)) (\<lambda>observations.
     Inr (db\<lparr>ld_acquisitions := acquisitions, ld_observations := observations\<rparr>)))"

text \<open>Runner activity: only legal edges of the lifecycle, and only the exact runner.\<close>

definition activity_step :: "string \<Rightarrow> int \<Rightarrow> int \<times> string \<times> string \<times> string list \<Rightarrow> ledger \<Rightarrow> ledger" where
  "activity_step fleet now step l =
     (case step of (runner, runner_name, next_state, from_states) \<Rightarrow>
        if runner \<le> 0 then l
        else l\<lparr>db_generations := update_rows
          (\<lambda>_ g. gen_fleet_key g = fleet \<and> gen_github_runner_id g = Some runner \<and> gen_runner_name g = runner_name
             \<and> gen_state g \<in> set from_states)
          (\<lambda>g. g\<lparr>gen_state := next_state, gen_subphase := None, gen_updated_at := now\<rparr>) (db_generations l)\<rparr>)"

definition activity_steps :: "poll_message \<Rightarrow> (int \<times> string \<times> string \<times> string list) list" where
  "activity_steps m =
     map (\<lambda>j. (sm_runner_id j, sm_runner_name j, ''Busy'', [''WaitingOnline'', ''Idle''])) (pm_started m)
     @ map (\<lambda>j. (cm_runner_id j, cm_runner_name j, ''Retiring'', [''Idle'', ''Busy''])) (pm_completed m)"

definition listener_activity :: "string \<Rightarrow> poll_message \<Rightarrow> int \<Rightarrow> listener_db \<Rightarrow> listener_db" where
  "listener_activity fleet m now db =
     db\<lparr>ld_ledger := fold (activity_step fleet now) (activity_steps m) (ld_ledger db)\<rparr>"

section \<open>Retained job facts\<close>

record job_fact =
  jf_kind :: observation_kind
  jf_request :: int
  jf_job :: string
  jf_runner :: "int option"
  jf_name :: "string option"
  jf_metadata :: job_metadata
  jf_result :: "string option"

definition waiting_fact :: "observation_kind \<Rightarrow> job_message \<Rightarrow> job_fact" where
  "waiting_fact k j = \<lparr>jf_kind = k, jf_request = jm_request j, jf_job = jm_job j, jf_runner = None, jf_name = None,
     jf_metadata = jm_metadata j, jf_result = None\<rparr>"

definition positive_id :: "int \<Rightarrow> int option" where
  "positive_id i = (if i > 0 then Some i else None)"

definition nonempty_name :: "string \<Rightarrow> string option" where
  "nonempty_name s = (if s = [] then None else Some s)"

definition facts :: "poll_message \<Rightarrow> job_fact list" where
  "facts m =
     map (waiting_fact Available) (pm_available m) @ map (waiting_fact Assigned) (pm_assigned m)
     @ map (\<lambda>j. \<lparr>jf_kind = Started, jf_request = sm_request j, jf_job = sm_job j, jf_runner = positive_id (sm_runner_id j),
          jf_name = nonempty_name (sm_runner_name j), jf_metadata = sm_metadata j, jf_result = None\<rparr>) (pm_started m)
     @ map (\<lambda>j. \<lparr>jf_kind = Completed, jf_request = cm_request j, jf_job = cm_job j, jf_runner = positive_id (cm_runner_id j),
          jf_name = nonempty_name (cm_runner_name j), jf_metadata = cm_metadata j, jf_result = cm_result j\<rparr>)
          (pm_completed m)"

definition invalid_fact :: "job_fact \<Rightarrow> bool" where
  "invalid_fact f \<longleftrightarrow> jf_request f < 0 \<or> (jf_request f = 0 \<and> jf_kind f = Available) \<or> length (jf_job f) > 4096
     \<or> (case jf_name f of None \<Rightarrow> False | Some n \<Rightarrow> length n > 1024)"

text \<open>One fact of the loop of \<open>jobs_ingest_tx\<close>; \<open>uuid\<close> is the fresh identifier of its row.\<close>

definition ingest_fact :: "string \<Rightarrow> int \<Rightarrow> int \<Rightarrow> int \<Rightarrow> string \<Rightarrow> job_fact \<Rightarrow> listener_db \<Rightarrow> store_error + listener_db" where
  "ingest_fact scope epoch message now uuid f db =
     (if invalid_fact f then Inl (StoreCorrupt ''invalid job observation identity'') else
      let blank = (trim (jf_job f) = []);
          row = \<lparr>fr_scope = scope, fr_job = (if blank then None else Some (jf_job f)),
            fr_protocol_job = (if blank then [] else jf_job f), fr_request = jf_request f, fr_runner = jf_runner f,
            fr_observation = \<lparr>obs_id = uuid, kind = jf_kind f, runner_request_id = jf_request f, runner_id = jf_runner f,
              obs_runner_name = jf_name f, metadata = jf_metadata f, reported_result = jf_result f, obs_epoch = epoch,
              obs_message_id = message, observed_at = now, generation_id = None, association = Unverified\<rparr>\<rparr>
      in Inr (db\<lparr>ld_jobs := (if blank then ld_jobs db else insert_new (scope, jf_job f) now (ld_jobs db)),
                 ld_facts := row # ld_facts db\<rparr>))"

fun ingest_facts :: "string \<Rightarrow> int \<Rightarrow> int \<Rightarrow> int \<Rightarrow> (string \<times> job_fact) list \<Rightarrow> listener_db \<Rightarrow> store_error + listener_db" where
  "ingest_facts scope epoch message now [] db = Inr db"
| "ingest_facts scope epoch message now ((uuid, f) # fs) db =
     and_then (ingest_fact scope epoch message now uuid f db) (ingest_facts scope epoch message now fs)"

text \<open>A fact without a job joins the job that all facts of its request agree on.\<close>

definition job_candidates :: "string \<Rightarrow> int \<Rightarrow> fact_row list \<Rightarrow> string list" where
  "job_candidates scope request rows =
     remdups (List.map_filter (\<lambda>r. if fr_scope r = scope \<and> fr_request r = request \<and> fr_protocol_job r \<noteq> []
       then fr_job r else None) rows)"

definition job_candidate :: "string \<Rightarrow> int \<Rightarrow> fact_row list \<Rightarrow> string option" where
  "job_candidate scope request rows = (case job_candidates scope request rows of [c] \<Rightarrow> Some c | _ \<Rightarrow> None)"

definition link_request :: "string \<Rightarrow> int \<Rightarrow> fact_row list \<Rightarrow> fact_row list" where
  "link_request scope request rows =
     (let candidate = job_candidate scope request rows in
      map (\<lambda>r. if fr_scope r = scope \<and> fr_request r = request \<and> fr_protocol_job r = [] then r\<lparr>fr_job := candidate\<rparr> else r) rows)"

definition observed_scope :: "external \<Rightarrow> string \<Rightarrow> session_effect_context \<Rightarrow> listener_db \<Rightarrow> string option" where
  "observed_scope E fleet context db =
     (case map_of (ld_sessions db) fleet of
        None \<Rightarrow> None
      | Some s \<Rightarrow> if sr_epoch s = se_epoch context
                  then Some (scope_key E fleet (fg_incarnation (se_guard context)) (sr_scale_set_id s) (se_auth context))
                  else None)"

definition fact_requests :: "job_fact list \<Rightarrow> int list" where
  "fact_requests fs = sort (remdups (filter (\<lambda>i. i > 0) (map jf_request fs)))"

definition jobs_ingest :: "external \<Rightarrow> (nat \<Rightarrow> string) \<Rightarrow> string \<Rightarrow> session_effect_context \<Rightarrow> poll_message \<Rightarrow> int
    \<Rightarrow> listener_db \<Rightarrow> store_error + listener_db" where
  "jobs_ingest E uuids fleet context m now db =
     (case observed_scope E fleet context db of
        None \<Rightarrow> Inl (StoreCorrupt ''job observation lacks session identity'')
      | Some scope \<Rightarrow>
          let fs = facts m in
          map_ok (\<lambda>db'. db'\<lparr>ld_facts := fold (link_request scope) (fact_requests fs) (ld_facts db')\<rparr>)
            (ingest_facts scope (se_epoch context) (pm_id m) now (zip (map uuids [0..<length fs]) fs) db))"

section \<open>Messages\<close>

text \<open>The stored row of a message, whose authority must be the one of the caller.\<close>

definition message_authority_matches :: "session_effect_context \<Rightarrow> message_row \<Rightarrow> resolved_auth_context \<Rightarrow> bool" where
  "message_authority_matches context row saved \<longleftrightarrow>
     mr_incarnation row = fg_incarnation (se_guard context) \<and> mr_fleet_revision row = fg_desired_revision (se_guard context)
     \<and> mr_mutation_fence row = fg_mutation_fence (se_guard context) \<and> saved = se_auth context"

definition listener_message :: "external \<Rightarrow> string \<Rightarrow> session_effect_context \<Rightarrow> int \<Rightarrow> listener_db
    \<Rightarrow> store_error + message_row option" where
  "listener_message E fleet context message db =
     (case map_of (ld_messages db) (fleet, se_epoch context, message) of
        None \<Rightarrow> Inr None
      | Some row \<Rightarrow>
          and_then (ok_or (StoreCorrupt ''listener context corrupt'') (decode_auth_context E (mr_context row))) (\<lambda>saved.
          if message_authority_matches context row saved then Inr (Some row)
          else Inl (StoreCorrupt ''listener message authority mismatch'')))"

definition pending_requests :: "string \<Rightarrow> int \<Rightarrow> int \<Rightarrow> listener_db \<Rightarrow> int list" where
  "pending_requests fleet epoch message db =
     sort (List.map_filter (\<lambda>((f, e, request), r).
       if f = fleet \<and> e = epoch \<and> ar_message_id r = message \<and> ar_state r = ''Pending'' then Some request else None)
       (ld_acquisitions db))"

definition listener_message_view :: "string \<Rightarrow> int \<Rightarrow> int \<Rightarrow> message_row \<Rightarrow> listener_db \<Rightarrow> ingested_message" where
  "listener_message_view fleet epoch message row db =
     \<lparr>im_id = message, im_acked = (mr_acked row \<noteq> 0), im_pending = pending_requests fleet epoch message db\<rparr>"

definition message_ids :: "string \<Rightarrow> int \<Rightarrow> listener_db \<Rightarrow> int list" where
  "message_ids fleet epoch db =
     List.map_filter (\<lambda>((f, e, i), _). if f = fleet \<and> e = epoch then Some i else None) (ld_messages db)"

definition new_message_row :: "session_effect_context \<Rightarrow> string \<Rightarrow> string \<Rightarrow> int \<Rightarrow> message_row" where
  "new_message_row context digest text now =
     \<lparr>mr_digest = digest, mr_digest_version = 2, mr_incarnation = fg_incarnation (se_guard context),
      mr_fleet_revision = fg_desired_revision (se_guard context), mr_mutation_fence = fg_mutation_fence (se_guard context),
      mr_profile_key = ctx_profile_key (se_auth context), mr_auth_revision = ctx_revision (se_auth context),
      mr_context = text, mr_acked = 0, mr_created_at = now, mr_updated_at = now\<rparr>"

text \<open>A redelivery: the same contents, and the metadata an old adapter left out, once.\<close>

definition redelivered :: "external \<Rightarrow> listener_codec \<Rightarrow> (nat \<Rightarrow> string) \<Rightarrow> string \<Rightarrow> session_effect_context \<Rightarrow> poll_message
    \<Rightarrow> int \<Rightarrow> string \<Rightarrow> message_row \<Rightarrow> listener_db \<Rightarrow> store_error + ingested_message option \<times> listener_db" where
  "redelivered E C uuids fleet context m now digest row db =
     and_then (if mr_digest_version row = 1 then digest_legacy E C m
               else if mr_digest_version row = 2 then Inr digest
               else Inl (StoreCorrupt ''unsupported listener digest version'')) (\<lambda>expected.
     if mr_digest row \<noteq> expected then Inl (StoreCorrupt ''redelivered listener message changed contents'') else
     and_then (if mr_digest_version row = 1
               then map_ok (\<lambda>db'. db'\<lparr>ld_messages := update_rows
                      (\<lambda>k r. k = (fleet, se_epoch context, pm_id m) \<and> mr_digest_version r = 1)
                      (\<lambda>r. r\<lparr>mr_digest := digest, mr_digest_version := 2\<rparr>) (ld_messages db')\<rparr>)
                    (jobs_ingest E uuids fleet context m now db)
               else Inr db) (\<lambda>db'.
     Inr (Some (listener_message_view fleet (se_epoch context) (pm_id m) row db'), db')))"

definition first_delivery :: "external \<Rightarrow> listener_codec \<Rightarrow> (nat \<Rightarrow> string) \<Rightarrow> string \<Rightarrow> session_effect_context \<Rightarrow> poll_message
    \<Rightarrow> int \<Rightarrow> string \<Rightarrow> listener_db \<Rightarrow> store_error + ingested_message option \<times> listener_db" where
  "first_delivery E C uuids fleet context m now digest db =
     (if list_ex (\<lambda>i. i \<ge> pm_id m) (message_ids fleet (se_epoch context) db)
      then Inl (StoreCorrupt ''listener message order regressed'') else
      and_then (ok_or (StoreCorrupt ''listener context cannot be encoded'') (lc_context C (se_auth context))) (\<lambda>text.
      let db1 = db\<lparr>ld_messages := ((fleet, se_epoch context, pm_id m), new_message_row context digest text now) # ld_messages db,
                   ld_demand := AList.update fleet (total_assigned_jobs0 (pm_statistics m), now) (ld_demand db)\<rparr> in
      and_then (listener_observations fleet (se_epoch context) m now db1) (\<lambda>db2.
      and_then (jobs_ingest E uuids fleet context m now (listener_activity fleet m now db2)) (\<lambda>db3.
      let db4 = db3\<lparr>ld_outbox := (fleet, se_epoch context, now) # ld_outbox db3\<rparr> in
      and_then (listener_message E fleet context (pm_id m) db4) (\<lambda>found.
      and_then (ok_or (StoreCorrupt ''listener message insert missing'') found) (\<lambda>row.
      Inr (Some (listener_message_view fleet (se_epoch context) (pm_id m) row db4), db4)))))))"

definition listener_ingest_tx :: "external \<Rightarrow> listener_codec \<Rightarrow> (nat \<Rightarrow> string) \<Rightarrow> string \<Rightarrow> session_effect_context \<Rightarrow> poll_message
    \<Rightarrow> int \<Rightarrow> listener_db \<Rightarrow> store_error + ingested_message option \<times> listener_db" where
  "listener_ingest_tx E C uuids fleet context m now db =
     and_then (listener_context_current E fleet context db) (\<lambda>current.
     if \<not> current then Inr (None, db)
     else if pm_id m \<le> 0 \<or> total_assigned_jobs0 (pm_statistics m) < 0
     then Inl (StoreCorrupt ''invalid listener message statistics or ID'') else
     and_then (digest_current E C m) (\<lambda>digest.
     and_then (listener_message E fleet context (pm_id m) db) (\<lambda>found.
     case found of
       Some row \<Rightarrow> redelivered E C uuids fleet context m now digest row db
     | None \<Rightarrow> first_delivery E C uuids fleet context m now digest db)))"

definition listener_ingest where
  "listener_ingest E C uuids fleet context m now = commit (listener_ingest_tx E C uuids fleet context m now)"
definition listener_demand_confirmed_tx :: "external \<Rightarrow> string \<Rightarrow> session_effect_context \<Rightarrow> int \<Rightarrow> listener_db
    \<Rightarrow> store_error + bool \<times> listener_db" where
  "listener_demand_confirmed_tx E fleet context now db =
     and_then (listener_context_current E fleet context db) (\<lambda>current.
     if \<not> current then Inr (False, db)
     else let older = (\<lambda>k (r :: int \<times> int). k = fleet \<and> snd r < now) in
       Inr (list_ex (\<lambda>(k, r). older k r) (ld_demand db),
            db\<lparr>ld_demand := update_rows older (\<lambda>(amount, _). (amount, now)) (ld_demand db)\<rparr>))"

definition listener_demand_confirmed where
  "listener_demand_confirmed E fleet context now = commit (listener_demand_confirmed_tx E fleet context now)"

definition unfinished :: "string \<Rightarrow> int \<Rightarrow> listener_db \<Rightarrow> (int \<times> message_row) list" where
  "unfinished fleet epoch db =
     sort_key fst (List.map_filter (\<lambda>((f, e, i), r).
       if f = fleet \<and> e = epoch \<and> (mr_acked r = 0 \<or> pending_requests fleet epoch i db \<noteq> []) then Some (i, r) else None)
       (ld_messages db))"

definition listener_pending :: "external \<Rightarrow> string \<Rightarrow> session_effect_context \<Rightarrow> listener_db
    \<Rightarrow> store_error + ingested_message list" where
  "listener_pending E fleet context db =
     and_then (listener_context_current E fleet context db) (\<lambda>current.
     if \<not> current then Inr []
     else collect (\<lambda>(i, row). map_ok (\<lambda>_. listener_message_view fleet (se_epoch context) i row db)
                                (listener_message E fleet context i db))
            (unfinished fleet (se_epoch context) db))"

section \<open>Acknowledgement\<close>

definition listener_acknowledge_tx :: "external \<Rightarrow> string \<Rightarrow> session_effect_context \<Rightarrow> int \<Rightarrow> int \<Rightarrow> listener_db
    \<Rightarrow> store_error + bool \<times> listener_db" where
  "listener_acknowledge_tx E fleet context message now db =
     and_then (listener_context_current E fleet context db) (\<lambda>current.
     if \<not> current then Inr (False, db) else
     and_then (listener_message E fleet context message db) (\<lambda>found.
     if found = None then Inr (False, db)
     else if list_ex (\<lambda>((f, e, i), r). f = fleet \<and> e = se_epoch context \<and> i < message \<and> mr_acked r = 0) (ld_messages db)
     then Inl (StoreCorrupt ''listener ACK would skip an unacknowledged message'')
     else Inr (True,
       db\<lparr>ld_messages := update_rows (\<lambda>k _. k = (fleet, se_epoch context, message))
            (\<lambda>r. r\<lparr>mr_acked := 1, mr_updated_at := now\<rparr>) (ld_messages db),
          ld_sessions := update_rows (\<lambda>k s. k = fleet \<and> sr_epoch s = se_epoch context)
            (\<lambda>s. s\<lparr>sr_last_message_id := max (sr_last_message_id s) message\<rparr>) (ld_sessions db)\<rparr>)))"

definition listener_acknowledge where
  "listener_acknowledge E fleet context message now = commit (listener_acknowledge_tx E fleet context message now)"

section \<open>Acquisition\<close>

definition listener_acquire_start_tx :: "external \<Rightarrow> string \<Rightarrow> session_effect_context \<Rightarrow> int \<Rightarrow> int \<Rightarrow> listener_db
    \<Rightarrow> store_error + int list option \<times> listener_db" where
  "listener_acquire_start_tx E fleet context message now db =
     and_then (listener_context_current E fleet context db) (\<lambda>current.
     if \<not> current then Inr (None, db) else
     and_then (listener_message E fleet context message db) (\<lambda>found.
     and_then (ok_or (StoreCorrupt ''acquisition message not persisted'') found) (\<lambda>row.
     if mr_acked row = 0 then Inl (StoreCorrupt ''acquisition before message ACK'')
     else Inr (Some (pending_requests fleet (se_epoch context) message db),
       db\<lparr>ld_acquisitions := update_rows
            (\<lambda>(f, e, _) r. f = fleet \<and> e = se_epoch context \<and> ar_message_id r = message \<and> ar_state r = ''Pending'')
            (\<lambda>r. r\<lparr>ar_state := ''AcquireStarting'', ar_updated_at := now\<rparr>) (ld_acquisitions db)\<rparr>))))"

definition listener_acquire_start where
  "listener_acquire_start E fleet context message now = commit (listener_acquire_start_tx E fleet context message now)"

definition acquisition_outcome :: "int list option \<Rightarrow> int \<Rightarrow> string" where
  "acquisition_outcome accepted request =
     (case accepted of None \<Rightarrow> ''Uncertain''
      | Some ids \<Rightarrow> if request \<in> set ids then ''Acquired'' else ''Rejected'')"

text \<open>The rows of one message, in the order the loop settles them.\<close>

definition acquisitions_of :: "string \<Rightarrow> int \<Rightarrow> int \<Rightarrow> listener_db \<Rightarrow> (int \<times> string) list" where
  "acquisitions_of fleet epoch message db =
     List.map_filter (\<lambda>((f, e, request), r).
       if f = fleet \<and> e = epoch \<and> ar_message_id r = message then Some (request, ar_state r) else None)
       (ld_acquisitions db)"

definition settle_acquisition :: "string \<Rightarrow> int \<Rightarrow> int list option \<Rightarrow> int \<Rightarrow> int \<times> string
    \<Rightarrow> (message_key \<times> acquisition_row) list \<Rightarrow> (message_key \<times> acquisition_row) list" where
  "settle_acquisition fleet epoch accepted now entry rows =
     (case entry of (request, previous) \<Rightarrow>
        if previous \<noteq> ''AcquireStarting'' \<and> previous \<noteq> ''Uncertain'' then rows
        else update_rows (\<lambda>k _. k = (fleet, epoch, request))
               (\<lambda>r. r\<lparr>ar_state := acquisition_outcome accepted request, ar_updated_at := now\<rparr>) rows)"

text \<open>
  The outcome of an effect that already left is committed before the authority is read, so an error
  there is returned over a changed ledger.
\<close>

definition listener_acquire_complete :: "external \<Rightarrow> string \<Rightarrow> session_effect_context \<Rightarrow> int \<Rightarrow> int list option \<Rightarrow> int
    \<Rightarrow> listener_db \<Rightarrow> (store_error + bool) \<times> listener_db" where
  "listener_acquire_complete E fleet context message accepted now db =
     (let rows = acquisitions_of fleet (se_epoch context) message db in
      case and_then (listener_message E fleet context message db)
             (ok_or (StoreCorrupt ''acquisition completion message missing'')) of
        Inl e \<Rightarrow> (Inl e, db)
      | Inr _ \<Rightarrow>
          if (case accepted of None \<Rightarrow> False | Some ids \<Rightarrow> list_ex (\<lambda>i. i \<notin> set (map fst rows)) ids)
          then (Inl (StoreCorrupt ''acquisition result includes an unrequested job''), db)
          else let db' = db\<lparr>ld_acquisitions :=
                  fold (settle_acquisition fleet (se_epoch context) accepted now) rows (ld_acquisitions db)\<rparr>
               in (listener_context_current E fleet context db', db'))"

text \<open>The end of a session, and the outcomes its replacement releases.\<close>

definition listener_session_end :: "string \<Rightarrow> int \<Rightarrow> listener_db \<Rightarrow> listener_db" where
  "listener_session_end fleet epoch db =
     db\<lparr>ld_acquisitions := update_rows
       (\<lambda>(f, e, _) r. f = fleet \<and> e = epoch \<and> ar_state r \<in> {''Pending'', ''AcquireStarting''})
       (\<lambda>r. r\<lparr>ar_state := (if ar_state r = ''Pending'' then ''Cancelled'' else ''Uncertain'')\<rparr>) (ld_acquisitions db)\<rparr>"

definition listener_reconcile_old :: "string \<Rightarrow> int \<Rightarrow> int \<Rightarrow> listener_db \<Rightarrow> listener_db" where
  "listener_reconcile_old fleet epoch now db =
     db\<lparr>ld_acquisitions := update_rows
       (\<lambda>(f, e, _) r. f = fleet \<and> e < epoch \<and> ar_state r = ''Uncertain'')
       (\<lambda>r. r\<lparr>ar_state := ''ReconciledUncertain'', ar_updated_at := now\<rparr>) (ld_acquisitions db)\<rparr>"

section \<open>Sessions\<close>

definition demand_snapshot :: "string \<Rightarrow> int \<Rightarrow> int \<Rightarrow> listener_db \<Rightarrow> listener_db" where
  "demand_snapshot fleet amount now db = db\<lparr>ld_demand := AList.update fleet (amount, now) (ld_demand db)\<rparr>"

definition incomplete_handle :: "session_handle \<Rightarrow> bool" where
  "incomplete_handle h \<longleftrightarrow> sh_session_id h = [] \<or> sh_queue_url h = [] \<or> sh_queue_token h = []
     \<or> total_assigned_jobs0 (sh_initial h) < 0"

definition installed_row :: "session_install_request \<Rightarrow> int \<Rightarrow> int \<Rightarrow> session_row" where
  "installed_row install epoch now =
     \<lparr>sr_session_id = sh_session_id (in_handle install), sr_epoch = epoch, sr_scale_set_id = in_scale_set install,
      sr_queue_url = Some (sh_queue_url (in_handle install)), sr_queue_token = Some (sh_queue_token (in_handle install)),
      sr_last_message_id = 0, sr_created_at = now\<rparr>"

definition session_install_tx :: "external \<Rightarrow> string \<Rightarrow> session_install_request \<Rightarrow> int \<Rightarrow> listener_db
    \<Rightarrow> store_error + int option \<times> listener_db" where
  "session_install_tx E fleet install now db =
     (if incomplete_handle (in_handle install) then Inl (StoreCorrupt ''incomplete session handle'') else
      and_then (runtime_auth_guard E fleet (in_guard install) (in_auth install) db) (\<lambda>ok.
      if \<not> ok \<or> \<not> scale_set_adopted fleet (in_scale_set install) db then Inr (None, db) else
      let previous = map_option sr_epoch (map_of (ld_sessions db) fleet) in
      if previous \<noteq> in_expected_epoch install then Inr (None, db) else
      and_then (ok_or (StoreCorrupt ''session epoch exhausted'')
                  (checked_add (case previous of None \<Rightarrow> 0 | Some e \<Rightarrow> e) 1)) (\<lambda>epoch.
      let ended = (case previous of None \<Rightarrow> db | Some e \<Rightarrow> listener_session_end fleet e db);
          stored_db = ended\<lparr>ld_sessions := AList.update fleet (installed_row install epoch now) (ld_sessions ended),
            ld_session_auth := AList.update fleet (ctx_profile_key (in_auth install), ctx_revision (in_auth install))
                                 (ld_session_auth ended)\<rparr>
      in Inr (Some epoch, listener_reconcile_old fleet epoch now
           (demand_snapshot fleet (total_assigned_jobs0 (sh_initial (in_handle install))) now stored_db)))))"

definition session_install where
  "session_install E fleet install now = commit (session_install_tx E fleet install now)"

text \<open>The row stays when a session is cleared, with a later epoch, so that no epoch is used twice.\<close>

definition session_clear_tx :: "string \<Rightarrow> int \<Rightarrow> int \<Rightarrow> listener_db \<Rightarrow> store_error + bool \<times> listener_db" where
  "session_clear_tx fleet expected_epoch now db =
     (case map_of (ld_sessions db) fleet of
        None \<Rightarrow> Inr (False, db)
      | Some row \<Rightarrow>
          if sr_epoch row \<noteq> expected_epoch then Inr (False, db) else
          let ended = listener_session_end fleet expected_epoch db in
          and_then (ok_or (StoreCorrupt ''session epoch exhausted'') (checked_add (sr_epoch row) 1)) (\<lambda>epoch.
          Inr (True, ended\<lparr>ld_sessions := AList.update fleet
                 (row\<lparr>sr_epoch := epoch, sr_session_id := [], sr_queue_url := None, sr_queue_token := None,
                      sr_last_message_id := 0, sr_created_at := now\<rparr>) (ld_sessions ended),
               ld_session_auth := AList.delete fleet (ld_session_auth ended)\<rparr>)))"

definition session_clear where
  "session_clear fleet expected_epoch now = commit (session_clear_tx fleet expected_epoch now)"

record persisted_session =
  ps_epoch :: int
  ps_last_message_id :: int
  ps_scale_set_id :: int
  ps_auth :: resolved_auth_context
  ps_handle :: session_handle

definition session_handle_get :: "external \<Rightarrow> string \<Rightarrow> listener_db \<Rightarrow> store_error + persisted_session option" where
  "session_handle_get E fleet db =
     (case map_of (ld_sessions db) fleet of
        None \<Rightarrow> Inr None
      | Some row \<Rightarrow>
          if \<not> session_active row then Inr None else
          and_then (session_auth_context E fleet db) (\<lambda>c.
          map_ok (\<lambda>auth. Some \<lparr>ps_epoch = sr_epoch row, ps_last_message_id = sr_last_message_id row,
              ps_scale_set_id = sr_scale_set_id row, ps_auth = auth,
              ps_handle = \<lparr>sh_session_id = sr_session_id row, sh_queue_url = (case sr_queue_url row of None \<Rightarrow> [] | Some u \<Rightarrow> u),
                sh_queue_token = (case sr_queue_token row of None \<Rightarrow> [] | Some t \<Rightarrow> t),
                sh_initial = \<lparr>total_assigned_jobs0 = (case map_of (ld_demand db) fleet of None \<Rightarrow> 0 | Some (amount, _) \<Rightarrow> amount),
                  total_registered_runners = 0, total_busy_runners = 0, total_idle_runners = 0\<rparr>\<rparr>\<rparr>)
            (ok_or (StoreCorrupt ''active session exact auth context missing'') c)))"


end
