(* ===== verification/Fleet_Head.thy ===== *)
theory Fleet_Head
  imports Listener Pool_Admission "HOL-Library.Sublist"
begin

text \<open>
  What a Fleet is asked to be: its head with the mutation fence, its immutable revisions, the Change of
  every accepted mutation, and the handoff of the credential it acts with.  \<open>fleet_repo.rs\<close>,
  \<open>fleet_auth_repo.rs\<close>, \<open>fleet_auth_context_repo.rs\<close>, \<open>fleet_auth_ack.rs\<close>, \<open>auth_policy_repo.rs\<close>,
  \<open>fleet_observations.rs\<close> and the commits of \<open>registry_impl/\<close> over them, all of \<open>shaula-store\<close>.

  A row of \<open>fleets\<close> is split: \<open>fleet_row\<close> of the ledger has the columns the fence is made of,
  \<open>head_status\<close> the others.  A revision is kept whole in \<open>fd_revisions\<close> and mirrored to the projections
  that \<open>Generations\<close> and \<open>Pool_Admission\<close> read; the observed context of a Fleet likewise.
\<close>

section \<open>Tables\<close>

record head_status =
  hs_observed_revision :: int
  hs_phase :: string
  hs_reason :: "string option"
  hs_created_at :: int
  hs_updated_at :: int

record revision_row =
  rv_incarnation :: string
  rv_spec :: string
  rv_template :: "(string \<times> int \<times> string \<times> string) option"
  rv_pool_ref :: "(string \<times> int) option"
  rv_auth :: "string \<times> int"
  rv_inputs_digest :: string
  rv_actor :: string
  rv_created_at :: int

record change_row =
  ch_fleet :: string
  ch_revision :: int
  ch_kind :: string
  ch_state :: string
  ch_attempts :: int
  ch_next_retry_at :: "int option"
  ch_reason :: "string option"
  ch_created_at :: int
  ch_updated_at :: int

text \<open>The columns of profiles, pools and auth revisions that a Fleet commit reads.\<close>

record auth_head =
  ah_active :: "int option"
  ah_deletion_requested :: bool

record binding_row =
  br_account_id :: int
  br_account_kind :: string
  br_login :: string
  br_installation_id :: int
  br_repository_selection :: string
  br_validated_at :: int

record auth_detail =
  ad_app_id :: "string option"
  ad_policy :: "string option"
  ad_snapshot :: "string option"
  ad_bindings :: "binding_row list"

record template_head =
  th_active :: "int option"
  th_deletion_requested :: bool

record pool_head =
  ph_desired_revision :: int
  ph_deletion_marker :: bool
  ph_tombstone :: bool

record audit_row =
  au_kind :: string
  au_action :: string
  au_actor :: string
  au_key :: string
  au_revision :: "int option"
  au_detail :: "string option"
  au_created_at :: int

text \<open>A record of \<open>idempotency_records\<close> under its unique index: principal, operation, kind, key, client key.\<close>

type_synonym idempotency_key = "string \<times> string \<times> string \<times> string \<times> string"

record idempotency_row =
  id_request_hash :: string
  id_status :: int
  id_body :: "string option"
  id_created_at :: int

record fleet_db =
  fd_main :: listener_db
  fd_status :: "(string \<times> head_status) list"
  fd_revisions :: "((string \<times> int) \<times> revision_row) list"
  fd_changes :: "(string \<times> change_row) list"
  fd_auths :: "(string \<times> auth_head) list"
  fd_auth_details :: "((string \<times> int) \<times> auth_detail) list"
  fd_templates :: "(string \<times> template_head) list"
  fd_pools :: pool_tables
  fd_pool_heads :: "(string \<times> pool_head) list"
  fd_audit :: "audit_row list"
  fd_outbox :: "(string \<times> string \<times> string \<times> int) list"
  fd_idempotency :: "(idempotency_key \<times> idempotency_row) list"
  fd_legacy_keys :: "(string \<times> string \<times> string) list"

text \<open>The proof an auth validation leaves: of every account, the exact repositories it was asked for.\<close>

record repository_proof =
  rp_owner :: string
  rp_repository :: string
  rp_repository_id :: int
  rp_owner_id :: int

record identity_proof =
  ip_account_id :: int
  ip_installation_id :: int
  ip_repositories :: "repository_proof list"

record validation_snapshot =
  vs_candidate :: "string \<times> int"
  vs_identities :: "identity_proof list"

text \<open>
  Serde over the stored texts: of a Fleet specification whether it is of a pool provider and whether it
  declares an inline template pool, its \<open>template_inputs\<close>, its GitHub target; policies, validation
  snapshots, member inputs and contexts.
\<close>

record fleet_codec =
  fc_spec :: "string \<Rightarrow> (bool \<times> bool) option"
  fc_inputs :: "string \<Rightarrow> json_object option"
  fc_target :: "string \<Rightarrow> github_target option"
  fc_policy :: "string \<Rightarrow> target_selector list option"
  fc_snapshot :: "string \<Rightarrow> validation_snapshot option"
  fc_decode_inputs :: "string \<Rightarrow> json_object option"
  fc_encode_inputs :: "json_object \<Rightarrow> string option"
  fc_context :: "resolved_auth_context \<Rightarrow> string option"

definition spec_is_pool :: "fleet_codec \<Rightarrow> string \<Rightarrow> bool" where
  "spec_is_pool C text = (case fc_spec C text of None \<Rightarrow> False | Some (is_pool, _) \<Rightarrow> is_pool)"

section \<open>Access\<close>

definition ledger_of :: "fleet_db \<Rightarrow> ledger" where
  "ledger_of db = ld_ledger (fd_main db)"

definition head_of :: "fleet_db \<Rightarrow> string \<Rightarrow> fleet_row option" where
  "head_of db key = fleet_of (ledger_of db) key"

definition put_head :: "string \<Rightarrow> fleet_row \<Rightarrow> head_status \<Rightarrow> fleet_db \<Rightarrow> fleet_db" where
  "put_head key f s db =
     db\<lparr>fd_main := (fd_main db)\<lparr>ld_ledger := (ledger_of db)\<lparr>db_fleets := AList.update key f (db_fleets (ledger_of db))\<rparr>\<rparr>,
        fd_status := AList.update key s (fd_status db)\<rparr>"

definition status_of :: "fleet_db \<Rightarrow> string \<Rightarrow> head_status" where
  "status_of db key = (case map_of (fd_status db) key of Some s \<Rightarrow> s
     | None \<Rightarrow> \<lparr>hs_observed_revision = 0, hs_phase = ''Pending'', hs_reason = None, hs_created_at = 0, hs_updated_at = 0\<rparr>)"

definition put_handoff :: "string \<Rightarrow> handoff_row \<Rightarrow> fleet_db \<Rightarrow> fleet_db" where
  "put_handoff key h db =
     db\<lparr>fd_main := (fd_main db)\<lparr>ld_handoffs := AList.update key h (ld_handoffs (fd_main db))\<rparr>\<rparr>"

definition put_context :: "string \<Rightarrow> context_row \<Rightarrow> fleet_db \<Rightarrow> fleet_db" where
  "put_context key x db =
     db\<lparr>fd_main := (fd_main db)\<lparr>ld_contexts := AList.update key x (ld_contexts (fd_main db)),
          ld_ledger := (ledger_of db)\<lparr>db_auth_contexts :=
            AList.update key (xr_observed_context x) (db_auth_contexts (ledger_of db))\<rparr>\<rparr>\<rparr>"

definition handoff_of :: "fleet_db \<Rightarrow> string \<Rightarrow> handoff_row option" where
  "handoff_of db key = map_of (ld_handoffs (fd_main db)) key"

definition context_of :: "fleet_db \<Rightarrow> string \<Rightarrow> context_row option" where
  "context_of db key = map_of (ld_contexts (fd_main db)) key"

text \<open>A transaction that returned an error is rolled back.\<close>

definition commit_fleet_tx :: "(fleet_db \<Rightarrow> 'e + 'a \<times> fleet_db) \<Rightarrow> fleet_db \<Rightarrow> ('e + 'a) \<times> fleet_db" where
  "commit_fleet_tx tx db = (case tx db of Inl e \<Rightarrow> (Inl e, db) | Inr (x, db') \<Rightarrow> (Inr x, db'))"

section \<open>Revisions\<close>

record revision_insert =
  ri_key :: string
  ri_incarnation :: string
  ri_revision :: int
  ri_spec :: string
  ri_template :: "(string \<times> int \<times> string \<times> string) option"
  ri_template_pool :: "admit_member list"
  ri_pool_ref :: "(string \<times> int) option"
  ri_auth :: "string \<times> int"
  ri_inputs_digest :: string
  ri_actor :: string
  ri_now :: int

definition resolve_auth_desired :: "string \<times> int \<Rightarrow> fleet_db \<Rightarrow> store_error + string \<times> int" where
  "resolve_auth_desired auth db =
     (if fst auth = [] then Inr ([], 0) else
      and_then (ok_or (StoreConflict (fst auth @ '':auth-profile-missing'')) (map_of (fd_auths db) (fst auth))) (\<lambda>profile.
      map_ok (\<lambda>revision. (fst auth, revision))
        (ok_or (StoreConflict (fst auth @ '':auth-profile-not-active'')) (ah_active profile))))"

definition insert_revision_row :: "revision_insert \<Rightarrow> string \<times> int \<Rightarrow> fleet_db \<Rightarrow> store_error + fleet_db" where
  "insert_revision_row ins auth db =
     (let k = (ri_key ins, ri_revision ins); T = fd_pools db in
      if map_of (fd_revisions db) k \<noteq> None then Inl StoreUnavailable
      else Inr (db\<lparr>fd_revisions := (k, \<lparr>rv_incarnation = ri_incarnation ins, rv_spec = ri_spec ins,
               rv_template = ri_template ins, rv_pool_ref = ri_pool_ref ins, rv_auth = auth,
               rv_inputs_digest = ri_inputs_digest ins, rv_actor = ri_actor ins, rv_created_at = ri_now ins\<rparr>) # fd_revisions db,
             fd_pools := T\<lparr>pool_refs := (k, (map_option fst (ri_pool_ref ins), map_option snd (ri_pool_ref ins))) # pool_refs T\<rparr>,
             fd_main := (fd_main db)\<lparr>ld_ledger := (ledger_of db)\<lparr>db_fleet_revisions :=
               (k, (ri_incarnation ins, ri_spec ins)) # db_fleet_revisions (ledger_of db)\<rparr>\<rparr>\<rparr>))"

text \<open>A pin the Fleet already owns: kept by a capacity-only mutation though the profile moved on.\<close>

definition retains_pin :: "fleet_codec \<Rightarrow> admit_member \<Rightarrow> member_row \<Rightarrow> bool" where
  "retains_pin C m old \<longleftrightarrow>
     mr_profile old = am_profile m \<and> mr_revision old = am_revision m \<and> mr_digest old = am_digest m
     \<and> mr_attestation old = am_attestation m \<and> mr_inputs_digest old = am_inputs_digest m
     \<and> fc_decode_inputs C (mr_inputs_json old) = Some (am_inputs m)"

definition member_retained :: "fleet_codec \<Rightarrow> string \<Rightarrow> fleet_row option \<Rightarrow> admit_member \<Rightarrow> fleet_db \<Rightarrow> bool" where
  "member_retained C key existing m db =
     (case existing of
        None \<Rightarrow> False
      | Some f \<Rightarrow> (case find (\<lambda>r. mr_key r = am_key m)
                        (rows_at (inline_rows (fd_pools db)) (key, fleet_desired_revision f)) of
                     None \<Rightarrow> False | Some old \<Rightarrow> retains_pin C m old))"

definition insert_member :: "fleet_codec \<Rightarrow> revision_insert \<Rightarrow> fleet_row option \<Rightarrow> admit_member \<Rightarrow> fleet_db
    \<Rightarrow> store_error + fleet_db" where
  "insert_member C ins existing m db =
     (if am_weight m = 0 \<or> am_weight m > 10000 then Inl (StoreConflict (am_key m @ '':invalid-pool-weight'')) else
      and_then (ok_or (StoreConflict (am_key m @ '':template-profile-missing'')) (map_of (fd_templates db) (am_profile m))) (\<lambda>profile.
      if (th_deletion_requested profile \<or> th_active profile \<noteq> Some (am_revision m))
         \<and> \<not> member_retained C (ri_key ins) existing m db
      then Inl (StoreConflict (am_key m @ '':template-revision-not-active''))
      else if map_of (db_template_revisions (ledger_of db)) (am_profile m, am_revision m) = None
      then Inl (StoreConflict (am_key m @ '':template-revision-missing'')) else
      and_then (ok_or (StoreCorrupt ''template inputs cannot be encoded'') (fc_encode_inputs C (am_inputs m))) (\<lambda>json.
      let k = (ri_key ins, ri_revision ins); T = fd_pools db;
          row = \<lparr>mr_key = am_key m, mr_profile = am_profile m, mr_revision = am_revision m, mr_digest = am_digest m,
                 mr_attestation = am_attestation m, mr_inputs_json = json, mr_inputs_digest = am_inputs_digest m,
                 mr_weight = int (am_weight m), mr_max_runners = am_max_runners m\<rparr>
      in if list_ex (\<lambda>r. mr_key r = am_key m) (rows_at (inline_rows T) k) then Inl StoreUnavailable
         else Inr (db\<lparr>fd_pools := T\<lparr>inline_rows := AList.update k (rows_at (inline_rows T) k @ [row]) (inline_rows T)\<rparr>\<rparr>))))"

fun insert_members :: "fleet_codec \<Rightarrow> revision_insert \<Rightarrow> fleet_row option \<Rightarrow> admit_member list \<Rightarrow> fleet_db
    \<Rightarrow> store_error + fleet_db" where
  "insert_members C ins existing [] db = Inr db"
| "insert_members C ins existing (m # ms) db =
     and_then (insert_member C ins existing m db) (insert_members C ins existing ms)"

text \<open>The compare-and-swap of the desired head.\<close>

definition advance_head :: "revision_insert \<Rightarrow> fleet_row option \<Rightarrow> fleet_db \<Rightarrow> store_error + fleet_db" where
  "advance_head ins existing db =
     (let key = ri_key ins in
      case existing of
        None \<Rightarrow> Inr (put_head key
          \<lparr>fleet_incarnation = ri_incarnation ins, fleet_desired_revision = ri_revision ins, fleet_mutation_fence = 1,
           fleet_deletion_marker = False, fleet_tombstone = False\<rparr>
          \<lparr>hs_observed_revision = 0, hs_phase = ''Pending'', hs_reason = None, hs_created_at = ri_now ins,
           hs_updated_at = ri_now ins\<rparr> db)
      | Some f \<Rightarrow>
          if fleet_incarnation f \<noteq> ri_incarnation ins then Inl (StoreConflict key)
          else if fleet_deletion_marker f then Inl (StoreConflict (key @ '':decommissioning''))
          else if fleet_desired_revision f + 1 \<noteq> ri_revision ins then Inl (StoreConflict (key @ '':stale-desired-revision''))
          else Inr (put_head key (f\<lparr>fleet_desired_revision := ri_revision ins,
                 fleet_mutation_fence := fleet_mutation_fence f + 1\<rparr>)
               ((status_of db key)\<lparr>hs_updated_at := ri_now ins\<rparr>) db))"

definition fleet_commit_revision :: "fleet_codec \<Rightarrow> revision_insert \<Rightarrow> fleet_db \<Rightarrow> store_error + fleet_db" where
  "fleet_commit_revision C ins db =
     and_then (resolve_auth_desired (ri_auth ins) db) (\<lambda>auth.
     let existing = head_of db (ri_key ins) in
     and_then (insert_revision_row ins auth db) (\<lambda>db1.
     and_then (insert_members C ins existing (ri_template_pool ins) db1) (\<lambda>db2.
     advance_head ins existing db2)))"

definition fleet_mark_decommissioning :: "string \<Rightarrow> string \<Rightarrow> int \<Rightarrow> int \<Rightarrow> fleet_db \<Rightarrow> store_error + fleet_db" where
  "fleet_mark_decommissioning key expected_incarnation new_revision now db =
     and_then (ok_or (StoreConflict (key @ '':missing'')) (head_of db key)) (\<lambda>f.
     if fleet_incarnation f \<noteq> expected_incarnation \<or> fleet_desired_revision f + 1 \<noteq> new_revision
     then Inl (StoreConflict (key @ '':stale-decommission''))
     else Inr (put_head key
       (f\<lparr>fleet_deletion_marker := True, fleet_desired_revision := new_revision,
          fleet_mutation_fence := fleet_mutation_fence f + 1\<rparr>)
       ((status_of db key)\<lparr>hs_phase := ''Decommissioning'', hs_updated_at := now\<rparr>) db))"

definition fleet_set_tombstone :: "string \<Rightarrow> int \<Rightarrow> fleet_db \<Rightarrow> store_error + unit \<times> fleet_db" where
  "fleet_set_tombstone key now db =
     map_ok (\<lambda>f. ((), put_head key (f\<lparr>fleet_tombstone := True\<rparr>)
         ((status_of db key)\<lparr>hs_phase := ''Decommissioned'', hs_updated_at := now\<rparr>) db))
       (ok_or (StoreCorrupt ''fleet missing'') (head_of db key))"
section \<open>Handoffs\<close>

definition handoff_set_desired :: "string \<Rightarrow> string \<Rightarrow> int \<Rightarrow> fleet_db \<Rightarrow> fleet_db" where
  "handoff_set_desired key profile revision db =
     put_handoff key
       (case handoff_of db key of
          Some h \<Rightarrow> h\<lparr>ho_desired_profile_key := profile, ho_desired_revision := revision, ho_state := ''Pending'', ho_reason := None\<rparr>
        | None \<Rightarrow> \<lparr>ho_desired_profile_key = profile, ho_desired_revision = revision, ho_observed_profile_key = None,
            ho_observed_revision = None, ho_state = ''Pending'', ho_cleanup_only = False, ho_attempts = 0,
            ho_next_retry_at = None, ho_reason = None\<rparr>) db"

definition handoff_retarget_desired :: "string \<Rightarrow> string \<Rightarrow> int \<Rightarrow> fleet_db \<Rightarrow> fleet_db" where
  "handoff_retarget_desired key profile revision db =
     (case handoff_of db key of
        None \<Rightarrow> db
      | Some h \<Rightarrow>
          if ho_desired_profile_key h = profile \<and> ho_desired_revision h = revision then db
          else put_handoff key (h\<lparr>ho_desired_profile_key := profile, ho_desired_revision := revision,
                 ho_state := ''Pending'', ho_reason := None, ho_next_retry_at := None\<rparr>) db)"

definition handoff_set_cleanup_only :: "string \<Rightarrow> fleet_db \<Rightarrow> fleet_db" where
  "handoff_set_cleanup_only key db =
     (case handoff_of db key of None \<Rightarrow> db | Some h \<Rightarrow> put_handoff key (h\<lparr>ho_cleanup_only := True\<rparr>) db)"

record handoff_expectation =
  he_mutation_fence :: int
  he_desired_context :: "string option"

definition handoff_mark_blocked :: "string \<Rightarrow> string \<times> int \<Rightarrow> handoff_expectation \<Rightarrow> string \<Rightarrow> int \<Rightarrow> fleet_db
    \<Rightarrow> store_error + bool \<times> fleet_db" where
  "handoff_mark_blocked key authority expectation reason next_retry_at db =
     (case handoff_of db key of
        None \<Rightarrow> Inr (False, db)
      | Some h \<Rightarrow>
          if ho_desired_profile_key h = fst authority \<and> ho_desired_revision h = snd authority
             \<and> map_option fleet_mutation_fence (head_of db key) = Some (he_mutation_fence expectation)
             \<and> Option.bind (context_of db key) xr_desired_context = he_desired_context expectation
          then Inr (True, put_handoff key (h\<lparr>ho_state := ''Blocked'', ho_reason := Some reason,
                 ho_next_retry_at := Some next_retry_at, ho_attempts := ho_attempts h + 1\<rparr>) db)
          else Inr (False, db))"

section \<open>Exact contexts\<close>

definition context_refresh_fence :: "string \<Rightarrow> int \<Rightarrow> fleet_db \<Rightarrow> store_error + fleet_db" where
  "context_refresh_fence key now db =
     (case context_of db key of
        None \<Rightarrow> Inr db
      | Some x \<Rightarrow>
          and_then (ok_or (StoreCorrupt ''auth context has no Fleet'') (head_of db key)) (\<lambda>f.
          Inr (put_context key (x\<lparr>xr_desired_fence := Some (fleet_mutation_fence f), xr_updated_at := now\<rparr>) db)))"

definition context_set_desired :: "string \<Rightarrow> string \<Rightarrow> int \<Rightarrow> string \<Rightarrow> int \<Rightarrow> fleet_db \<Rightarrow> fleet_db" where
  "context_set_desired key profile revision json now db =
     (let fence = map_option fleet_mutation_fence (head_of db key) in
      put_context key
        (case context_of db key of
           Some x \<Rightarrow>
             if xr_desired_profile_key x = Some profile \<and> xr_desired_revision x = Some revision
                \<and> xr_desired_context x = Some json
             then x\<lparr>xr_desired_fence := fence, xr_updated_at := now\<rparr>
             else x\<lparr>xr_desired_profile_key := Some profile, xr_desired_revision := Some revision, xr_desired_fence := fence,
                    xr_desired_context := Some json, xr_state := ''Pending'', xr_reason := None, xr_next_retry_at := None,
                    xr_updated_at := now\<rparr>
         | None \<Rightarrow> \<lparr>xr_desired_profile_key = Some profile, xr_desired_revision = Some revision, xr_desired_fence = fence,
             xr_desired_context = Some json, xr_observed_profile_key = None, xr_observed_revision = None,
             xr_observed_context = None, xr_state = ''Pending'', xr_reason = None, xr_attempts = 0,
             xr_next_retry_at = None, xr_updated_at = now\<rparr>) db)"

definition context_block :: "string \<Rightarrow> string \<Rightarrow> int \<Rightarrow> int \<Rightarrow> fleet_db \<Rightarrow> store_error + unit \<times> fleet_db" where
  "context_block key reason retry_at now db =
     (case context_of db key of
        None \<Rightarrow> Inl (StoreCorrupt ''context missing'')
      | Some x \<Rightarrow> Inr ((), put_context key (x\<lparr>xr_state := ''Blocked'', xr_reason := Some reason,
          xr_next_retry_at := Some retry_at, xr_attempts := xr_attempts x + 1, xr_updated_at := now\<rparr>) db))"

definition archive_context :: "external \<Rightarrow> fleet_codec \<Rightarrow> string \<Rightarrow> resolved_auth_context \<Rightarrow> fleet_db \<Rightarrow> store_error + fleet_db" where
  "archive_context E C key c db =
     and_then (ok_or (StoreCorrupt ''context cannot be encoded'') (fc_context C c)) (\<lambda>json.
     and_then (auth_execution_context E key (ctx_profile_key c) (ctx_revision c) (fd_main db)) (\<lambda>previous.
     if previous \<noteq> None \<and> previous \<noteq> Some c then Inl (StoreCorrupt ''attempt to replace retained execution context'')
     else Inr (db\<lparr>fd_main := (fd_main db)\<lparr>ld_retained :=
       insert_new (key, ctx_profile_key c, ctx_revision c) json (ld_retained (fd_main db))\<rparr>\<rparr>)))"

subsection \<open>The desired context of a target\<close>

definition binding_from_row :: "binding_row \<Rightarrow> account_binding option" where
  "binding_from_row r =
     (case (if br_account_kind r = ''user'' then Some KindUser
            else if br_account_kind r = ''organization'' then Some KindOrganization else None,
            if br_repository_selection r = ''all'' then Some SelectAll
            else if br_repository_selection r = ''selected'' then Some SelectSelected else None) of
        (Some k, Some selection) \<Rightarrow> Some \<lparr>bind_account_id = br_account_id r, bind_account_kind = k, bind_login = br_login r,
           bind_installation_id = br_installation_id r, bind_repository_selection = selection,
           bind_validated_at_ms = br_validated_at r\<rparr>
      | _ \<Rightarrow> None)"

definition same_repository :: "github_target \<Rightarrow> string \<Rightarrow> string \<Rightarrow> bool" where
  "same_repository t owner repository \<longleftrightarrow>
     eq_ignore_ascii_case owner (target_owner t)
     \<and> (case target_repository_name t of None \<Rightarrow> False | Some name \<Rightarrow> eq_ignore_ascii_case name repository)"

definition apply_repository_proof :: "identity_proof \<Rightarrow> repository_proof \<Rightarrow> resolved_auth_context
    \<Rightarrow> store_error + resolved_auth_context" where
  "apply_repository_proof p r c =
     (if \<not> same_repository (ctx_target c) (rp_owner r) (rp_repository r) then Inr c
      else if ip_account_id p \<noteq> ctx_account_id c \<or> ip_installation_id p \<noteq> ctx_installation_id c
           \<or> rp_owner_id r \<noteq> ctx_account_id c \<or> rp_repository_id r \<le> 0
      then Inl (StoreCorrupt ''exact repository proof contradicts binding'')
      else Inr (c\<lparr>ctx_repository_id := Some (rp_repository_id r), ctx_repository_owner_id := Some (rp_owner_id r)\<rparr>))"

fun apply_proofs :: "(identity_proof \<times> repository_proof) list \<Rightarrow> resolved_auth_context \<Rightarrow> store_error + resolved_auth_context" where
  "apply_proofs [] c = Inr c"
| "apply_proofs ((p, r) # rest) c = and_then (apply_repository_proof p r c) (apply_proofs rest)"

definition repository_proofs :: "validation_snapshot \<Rightarrow> (identity_proof \<times> repository_proof) list" where
  "repository_proofs s = concat (map (\<lambda>p. map (Pair p) (ip_repositories p)) (vs_identities s))"

definition exact_repository_selected :: "target_selector list \<Rightarrow> github_target \<Rightarrow> bool" where
  "exact_repository_selected policy t \<longleftrightarrow>
     list_ex (\<lambda>s. case s of SelRepository owner repository \<Rightarrow> same_repository t owner repository | _ \<Rightarrow> False) policy"

definition auth_desired_context :: "fleet_codec \<Rightarrow> string \<Rightarrow> int \<Rightarrow> string \<Rightarrow> fleet_db \<Rightarrow> store_error + string" where
  "auth_desired_context C profile revision spec db =
     and_then (ok_or (StoreCorrupt ''auth revision missing'') (map_of (ld_auth_revisions (fd_main db)) (profile, revision)))
       (\<lambda>(schema_version, auth_kind).
     if schema_version \<noteq> 2 \<or> auth_kind \<noteq> ''github_app'' then Inl (StorePolicyDenied ''UnsupportedAuthFormat'') else
     and_then (ok_or (StoreCorrupt ''auth revision missing'') (map_of (fd_auth_details db) (profile, revision))) (\<lambda>detail.
     and_then (ok_or (StoreCorrupt ''stored v2 policy invalid'')
                 (fc_policy C (case ad_policy detail of None \<Rightarrow> [] | Some t \<Rightarrow> t))) (\<lambda>policy.
     and_then (ok_or (StoreCorrupt ''fleet spec has no valid github target'') (fc_target C spec)) (\<lambda>target.
     case resolve_desired_context profile revision (case ad_app_id detail of None \<Rightarrow> [] | Some a \<Rightarrow> a) policy
            (List.map_filter binding_from_row (ad_bindings detail)) target of
       NoMatchingSelector \<Rightarrow> Inl (StorePolicyDenied ''TargetNotAllowed'')
     | AmbiguousInstallation \<Rightarrow> Inl (StorePolicyDenied ''AmbiguousInstallation'')
     | Resolved c \<Rightarrow>
         and_then (ok_or (StoreCorrupt ''active v2 validation snapshot missing'') (ad_snapshot detail)) (\<lambda>json.
         and_then (ok_or (StoreCorrupt ''active v2 validation snapshot corrupt'') (fc_snapshot C json)) (\<lambda>snapshot.
         if vs_candidate snapshot \<noteq> (profile, revision)
         then Inl (StoreCorrupt ''active v2 validation snapshot reference mismatched'') else
         and_then (apply_proofs (repository_proofs snapshot) c) (\<lambda>c'.
         if exact_repository_selected policy (ctx_target c') \<and> ctx_repository_id c' = None
         then Inl (StoreCorrupt ''exact repository selector has no verified identity'')
         else ok_or (StoreCorrupt ''context serialization failed'') (fc_context C c'))))))))"

text \<open>A structural denial is a domain refusal, not an error of the store.\<close>

definition context_commit :: "fleet_codec \<Rightarrow> string \<Rightarrow> string \<Rightarrow> int \<Rightarrow> string \<Rightarrow> int \<Rightarrow> fleet_db
    \<Rightarrow> store_error + (string + fleet_db)" where
  "context_commit C key profile revision spec now db =
     (case auth_desired_context C profile revision spec db of
        Inr json \<Rightarrow> Inr (Inr (context_set_desired key profile revision json now db))
      | Inl (StorePolicyDenied reason) \<Rightarrow> Inr (Inl reason)
      | Inl e \<Rightarrow> Inl e)"
subsection \<open>Acknowledgement\<close>

datatype context_ack = Acknowledged | Stale | IdentityDrift

definition supported_revision :: "int \<times> string \<Rightarrow> store_error + unit" where
  "supported_revision a =
     (if fst a \<noteq> 2 \<or> snd a \<noteq> ''github_app'' then Inl (StorePolicyDenied ''UnsupportedAuthFormat'') else Inr ())"

text \<open>The stored evidence of an earlier acknowledgement, and whether the new context keeps its pins.\<close>

definition observed_evidence :: "external \<Rightarrow> handoff_row \<Rightarrow> context_row \<Rightarrow> string \<Rightarrow> fleet_db \<Rightarrow> store_error + resolved_auth_context" where
  "observed_evidence E h x json db =
     and_then (ok_or (StoreCorrupt ''observed context corrupt'') (decode_auth_context E json)) (\<lambda>observed.
     if xr_observed_profile_key x \<noteq> Some (ctx_profile_key observed) \<or> xr_observed_revision x \<noteq> Some (ctx_revision observed)
        \<or> \<not> has_complete_identity observed
     then Inl (StoreCorrupt ''observed context reference or identity mismatched'') else
     case (ho_observed_profile_key h, ho_observed_revision h) of
       (Some k, Some r) \<Rightarrow>
         and_then (ok_or (StoreCorrupt ''observed auth revision missing'') (map_of (ld_auth_revisions (fd_main db)) (k, r))) (\<lambda>auth.
         and_then (supported_revision auth) (\<lambda>_.
         if k \<noteq> ctx_profile_key observed \<or> r \<noteq> ctx_revision observed
         then Inl (StoreCorrupt ''handoff observed reference disagrees with context'') else Inr observed))
     | _ \<Rightarrow> Inl (StoreCorrupt ''context exists without observed handoff reference''))"

definition keeps_pins :: "resolved_auth_context option \<Rightarrow> resolved_auth_context \<Rightarrow> bool" where
  "keeps_pins observed c =
     (case observed of None \<Rightarrow> True | Some old \<Rightarrow> ctx_target old = ctx_target c \<longrightarrow> auth_context_pins_agree old c)"

definition observe_handoff :: "string \<Rightarrow> string \<Rightarrow> int \<Rightarrow> string \<Rightarrow> handoff_row \<Rightarrow> context_row \<Rightarrow> fleet_db \<Rightarrow> fleet_db" where
  "observe_handoff key profile revision json h x db =
     put_context key (x\<lparr>xr_observed_profile_key := Some profile, xr_observed_revision := Some revision,
         xr_observed_context := Some json, xr_state := ''Observed'', xr_reason := None, xr_next_retry_at := None\<rparr>)
       (put_handoff key (h\<lparr>ho_observed_profile_key := Some profile, ho_observed_revision := Some revision,
         ho_state := ''Observed'', ho_reason := None, ho_next_retry_at := None\<rparr>) db)"

text \<open>The checks against the captured authority, before anything is written: the context row to settle.\<close>

definition acknowledgeable :: "string \<Rightarrow> string \<Rightarrow> int \<Rightarrow> string option \<Rightarrow> handoff_expectation \<Rightarrow> handoff_row \<Rightarrow> fleet_db
    \<Rightarrow> store_error + (string \<times> context_row) option" where
  "acknowledgeable key profile revision json expectation h db =
     (let fence = map_option fleet_mutation_fence (head_of db key) in
      if ho_desired_profile_key h \<noteq> profile \<or> ho_desired_revision h \<noteq> revision then Inr None
      else if Some (he_mutation_fence expectation) \<noteq> fence then Inr None
      else case map_of (ld_auth_revisions (fd_main db)) (profile, revision) of
        None \<Rightarrow> Inr None
      | Some auth \<Rightarrow>
          and_then (supported_revision auth) (\<lambda>_.
          case (json, context_of db key) of
            (Some text, Some x) \<Rightarrow>
              if xr_desired_profile_key x \<noteq> Some profile \<or> xr_desired_revision x \<noteq> Some revision
                 \<or> xr_desired_context x \<noteq> he_desired_context expectation
                 \<or> xr_desired_fence x = None \<or> xr_desired_fence x \<noteq> fence
              then Inr None else Inr (Some (text, x))
          | _ \<Rightarrow> Inr None))"

definition settle_handoff :: "external \<Rightarrow> fleet_codec \<Rightarrow> string \<Rightarrow> string \<Rightarrow> int \<Rightarrow> string \<Rightarrow> handoff_row \<Rightarrow> context_row \<Rightarrow> fleet_db
    \<Rightarrow> store_error + context_ack \<times> fleet_db" where
  "settle_handoff E C key profile revision json h x db =
     and_then (ok_or (StoreCorrupt ''resolved context invalid'') (decode_auth_context E json)) (\<lambda>c.
     case xr_desired_context x of
       None \<Rightarrow> Inr (Stale, db)
     | Some desired_json \<Rightarrow>
         and_then (ok_or (StoreCorrupt ''desired context intent unreadable'') (decode_auth_context E desired_json)) (\<lambda>desired.
         if \<not> completes c desired then Inr (IdentityDrift, db) else
         and_then (case xr_observed_context x of None \<Rightarrow> Inr None
                   | Some text \<Rightarrow> map_ok Some (observed_evidence E h x text db)) (\<lambda>observed.
         if \<not> keeps_pins observed c then Inr (IdentityDrift, db) else
         and_then (archive_context E C key c db) (\<lambda>db1.
         and_then (case observed of None \<Rightarrow> Inr db1 | Some old \<Rightarrow> archive_context E C key old db1) (\<lambda>db2.
         Inr (Acknowledged, observe_handoff key profile revision json h x db2))))))"

definition handoff_acknowledge :: "external \<Rightarrow> fleet_codec \<Rightarrow> string \<Rightarrow> string \<Rightarrow> int \<Rightarrow> string option \<Rightarrow> handoff_expectation
    \<Rightarrow> fleet_db \<Rightarrow> store_error + context_ack \<times> fleet_db" where
  "handoff_acknowledge E C key profile revision json expectation db =
     and_then (ok_or (StoreCorrupt ''handoff missing'') (handoff_of db key)) (\<lambda>h.
     and_then (acknowledgeable key profile revision json expectation h db) (\<lambda>ready.
     case ready of
       None \<Rightarrow> Inr (Stale, db)
     | Some (text, x) \<Rightarrow> settle_handoff E C key profile revision text h x db))"

section \<open>Observations\<close>

datatype observation_phase = Reconciling | Ready | Degraded

fun phase_as_str :: "observation_phase \<Rightarrow> string" where
  "phase_as_str Reconciling = ''Reconciling''"
| "phase_as_str Ready = ''Ready''"
| "phase_as_str Degraded = ''Degraded''"

record fleet_observation =
  ob_guard :: runtime_guard
  ob_session_epoch :: "int option"
  ob_phase :: observation_phase
  ob_reason :: "reason_code option"

definition open_changes :: "string list" where
  "open_changes = [''Pending'', ''Running'', ''Blocked'']"

fun change_state :: "observation_phase \<Rightarrow> string" where
  "change_state Reconciling = ''Running''"
| "change_state Ready = ''Succeeded''"
| "change_state Degraded = ''Blocked''"

definition progress_changes :: "(int \<Rightarrow> bool) \<Rightarrow> string \<Rightarrow> fleet_observation \<Rightarrow> int \<Rightarrow> fleet_db \<Rightarrow> fleet_db" where
  "progress_changes chosen key ob now db =
     db\<lparr>fd_changes := update_rows
       (\<lambda>_ c. ch_fleet c = key \<and> chosen (ch_revision c) \<and> ch_state c \<in> set open_changes)
       (\<lambda>c. c\<lparr>ch_state := change_state (ob_phase ob), ch_reason := map_option reason_as_str (ob_reason ob),
              ch_next_retry_at := None, ch_updated_at := now\<rparr>) (fd_changes db)\<rparr>"

definition observed_decommissioning :: "string \<Rightarrow> fleet_row \<Rightarrow> fleet_observation \<Rightarrow> int \<Rightarrow> fleet_db \<Rightarrow> fleet_db" where
  "observed_decommissioning key f ob now db =
     (let complete = ob_phase ob = Ready; s = status_of db key in
      progress_changes (\<lambda>r. r \<le> fg_desired_revision (ob_guard ob)) key ob now
        (put_head key (if complete then f\<lparr>fleet_tombstone := True\<rparr> else f)
          (s\<lparr>hs_observed_revision := fg_desired_revision (ob_guard ob),
             hs_phase := (if complete then ''Decommissioned'' else hs_phase s),
             hs_reason := map_option reason_as_str (ob_reason ob), hs_updated_at := now\<rparr>) db))"

definition active_epoch :: "fleet_db \<Rightarrow> string \<Rightarrow> int option" where
  "active_epoch db key =
     (case map_of (ld_sessions (fd_main db)) key of
        None \<Rightarrow> None | Some s \<Rightarrow> if session_active s then Some (sr_epoch s) else None)"

text \<open>Whether a live session backs a \<open>Ready\<close> observation.\<close>

definition ready_session :: "external \<Rightarrow> string \<Rightarrow> fleet_observation \<Rightarrow> fleet_db \<Rightarrow> store_error + bool" where
  "ready_session E key ob db =
     (case active_epoch db key of
        None \<Rightarrow> Inr False
      | Some epoch \<Rightarrow>
          and_then (session_auth_context E key (fd_main db)) (\<lambda>found.
          case found of None \<Rightarrow> Inr False | Some c \<Rightarrow> session_guard E key (ob_guard ob) c epoch (fd_main db)))"

definition observed_running :: "string \<Rightarrow> fleet_row \<Rightarrow> fleet_observation \<Rightarrow> int \<Rightarrow> fleet_db \<Rightarrow> fleet_db" where
  "observed_running key f ob now db =
     progress_changes (\<lambda>r. r = fg_desired_revision (ob_guard ob)) key ob now
       (put_head key f ((status_of db key)\<lparr>hs_observed_revision := fg_desired_revision (ob_guard ob),
          hs_phase := phase_as_str (ob_phase ob), hs_reason := map_option reason_as_str (ob_reason ob),
          hs_updated_at := now\<rparr>) db)"

definition fleet_set_observed :: "external \<Rightarrow> fleet_codec \<Rightarrow> string \<Rightarrow> fleet_observation \<Rightarrow> int \<Rightarrow> fleet_db
    \<Rightarrow> store_error + bool \<times> fleet_db" where
  "fleet_set_observed E C key ob now db =
     and_then (ok_or (StoreCorrupt ''fleet observation head missing'') (head_of db key)) (\<lambda>f.
     if \<not> (guard_matches f (ob_guard ob) \<and> \<not> fleet_tombstone f) then Inr (False, db)
     else if fleet_deletion_marker f then
       (if list_ex (\<lambda>(_, c). ch_fleet c = key \<and> ch_revision c = fg_desired_revision (ob_guard ob)
                        \<and> ch_kind c = ''Decommission'') (fd_changes db)
        then Inr (True, observed_decommissioning key f ob now db) else Inr (False, db))
     else if active_epoch db key \<noteq> ob_session_epoch ob then Inr (False, db)
     else
       let is_pool = (case map_of (fd_revisions db) (key, fg_desired_revision (ob_guard ob)) of
                        None \<Rightarrow> False | Some r \<Rightarrow> spec_is_pool C (rv_spec r)) in
       if is_pool \<and> active_epoch db key \<noteq> None then Inr (False, db) else
       and_then (if ob_phase ob = Ready \<and> \<not> is_pool then ready_session E key ob db else Inr True) (\<lambda>backed.
       if \<not> backed then Inr (False, db) else Inr (True, observed_running key f ob now db)))"
section \<open>Commits\<close>

datatype mutation_error =
    ConflictingPreconditions | PreconditionRequired | PreconditionFailed string int | IdentityConflict
  | IdempotencyConflict | LegacyIdempotencyConflict | Unprocessable reason_code string | NotFound
  | Gone string | RetirementBlocked string | MutationConflict string | TooManyRequests int

record change_view =
  cv_id :: string
  cv_resource_kind :: string
  cv_resource_key :: string
  cv_revision :: int
  cv_kind :: string
  cv_state :: string
  cv_reason :: "string option"

record mutation_facts =
  mf_operation :: string
  mf_resource_kind :: string
  mf_key :: string
  mf_incarnation :: string
  mf_revision :: int
  mf_spec :: string
  mf_template :: "(string \<times> int \<times> string \<times> string) option"
  mf_template_pool :: "admit_member list"
  mf_pool_ref :: "(string \<times> int) option"
  mf_auth :: "(string \<times> int) option"
  mf_inputs_digest :: string
  mf_actor :: string
  mf_now :: int
  mf_change :: change_view
  mf_outbox_topic :: string
  mf_outbox_payload :: string
  mf_idempotency :: "(string \<times> string \<times> int \<times> string) option"

fun store_error_text :: "store_error \<Rightarrow> string" where
  "store_error_text StoreUnavailable = ''database unavailable: ''"
| "store_error_text (StoreConflict resource) = ''conflicting concurrent write on '' @ resource"
| "store_error_text (StorePolicyDenied reason) = ''policy denied: '' @ reason"
| "store_error_text (StoreCorrupt t) = t"

definition contains_text :: "string \<Rightarrow> string \<Rightarrow> bool" where
  "contains_text part whole = list_ex (prefix part) (suffixes whole)"

definition fence_conflict :: "mutation_facts \<Rightarrow> store_error \<Rightarrow> mutation_error" where
  "fence_conflict mf e =
     (if contains_text '':decommissioning'' (store_error_text e) \<and> cv_kind (mf_change mf) \<noteq> ''Decommission''
      then Gone (mf_key mf)
      else PreconditionFailed (mf_incarnation mf) (saturating_sub (mf_revision mf) 1))"

definition change_insert :: "string \<Rightarrow> string \<Rightarrow> int \<Rightarrow> string \<Rightarrow> int \<Rightarrow> fleet_db \<Rightarrow> store_error + fleet_db" where
  "change_insert i key revision change_kind now db =
     (if map_of (fd_changes db) i \<noteq> None then Inl StoreUnavailable
      else Inr (db\<lparr>fd_changes := (i, \<lparr>ch_fleet = key, ch_revision = revision, ch_kind = change_kind, ch_state = ''Pending'',
             ch_attempts = 0, ch_next_retry_at = None, ch_reason = None, ch_created_at = now, ch_updated_at = now\<rparr>)
           # fd_changes db\<rparr>))"

definition change_update :: "string \<Rightarrow> string \<Rightarrow> string option \<Rightarrow> int option \<Rightarrow> int \<Rightarrow> fleet_db \<Rightarrow> store_error + unit \<times> fleet_db" where
  "change_update i st reason next_retry_at now db =
     map_ok (\<lambda>c. ((), db\<lparr>fd_changes := AList.update i (c\<lparr>ch_state := st, ch_reason := reason,
         ch_next_retry_at := next_retry_at, ch_updated_at := now\<rparr>) (fd_changes db)\<rparr>))
       (ok_or (StoreCorrupt ''change missing'') (map_of (fd_changes db) i))"

definition commit_tail :: "string \<Rightarrow> string \<Rightarrow> string option \<Rightarrow> mutation_facts \<Rightarrow> fleet_db \<Rightarrow> store_error + fleet_db" where
  "commit_tail tail_kind action detail mf db =
     (let db1 = db\<lparr>fd_audit := \<lparr>au_kind = tail_kind, au_action = action, au_actor = mf_actor mf, au_key = mf_key mf,
            au_revision = Some (mf_revision mf), au_detail = detail, au_created_at = mf_now mf\<rparr> # fd_audit db,
          fd_outbox := (tail_kind, mf_outbox_topic mf, mf_outbox_payload mf, mf_now mf) # fd_outbox db\<rparr> in
      case mf_idempotency mf of
        None \<Rightarrow> Inr db1
      | Some (client_key, request_hash, http_status, body) \<Rightarrow>
          let k = (mf_actor mf, mf_operation mf, mf_resource_kind mf, mf_key mf, client_key) in
          if map_of (fd_idempotency db1) k \<noteq> None then Inl StoreUnavailable
          else Inr (db1\<lparr>fd_idempotency := (k, \<lparr>id_request_hash = request_hash, id_status = http_status, id_body = Some body,
                 id_created_at = mf_now mf\<rparr>) # fd_idempotency db1\<rparr>))"

subsection \<open>References to retiring dependencies\<close>

definition retiring_template :: "string \<Rightarrow> fleet_db \<Rightarrow> bool" where
  "retiring_template key db = (case map_of (fd_templates db) key of None \<Rightarrow> False | Some p \<Rightarrow> th_deletion_requested p)"

definition template_reference_ok :: "mutation_facts \<Rightarrow> revision_row option \<Rightarrow> fleet_db \<Rightarrow> bool" where
  "template_reference_ok mf previous db =
     (case mf_template mf of
        None \<Rightarrow> True
      | Some (k, r, _, _) \<Rightarrow>
          (case Option.bind previous rv_template of Some (k', r', _, _) \<Rightarrow> k' = k \<and> r' = r | None \<Rightarrow> False)
          \<or> \<not> retiring_template k db)"

definition auth_reference_ok :: "mutation_facts \<Rightarrow> revision_row option \<Rightarrow> fleet_db \<Rightarrow> bool" where
  "auth_reference_ok mf previous db =
     (case mf_auth mf of
        None \<Rightarrow> True
      | Some (k, _) \<Rightarrow>
          (case previous of Some p \<Rightarrow> fst (rv_auth p) = k | None \<Rightarrow> False)
          \<or> \<not> (case map_of (fd_auths db) k of None \<Rightarrow> False | Some p \<Rightarrow> ah_deletion_requested p))"

definition member_reference_ok :: "string \<Rightarrow> int option \<Rightarrow> admit_member \<Rightarrow> fleet_db \<Rightarrow> bool" where
  "member_reference_ok key previous m db =
     ((case previous of
         None \<Rightarrow> False
       | Some r \<Rightarrow> list_ex (\<lambda>row. mr_profile row = am_profile m \<and> mr_revision row = am_revision m)
                     (rows_at (inline_rows (fd_pools db)) (key, r)))
      \<or> \<not> retiring_template (am_profile m) db)"

definition pool_live :: "string \<Rightarrow> int \<Rightarrow> fleet_db \<Rightarrow> bool" where
  "pool_live k r db =
     (map_of (pool_policies (fd_pools db)) (k, r) \<noteq> None \<and>
      (case map_of (fd_pool_heads db) k of
         None \<Rightarrow> False
       | Some p \<Rightarrow> ph_desired_revision p \<ge> r \<and> \<not> ph_deletion_marker p \<and> \<not> ph_tombstone p))"

definition pool_reference_ok :: "mutation_facts \<Rightarrow> revision_row option \<Rightarrow> fleet_db \<Rightarrow> bool" where
  "pool_reference_ok mf previous db =
     (case mf_pool_ref mf of
        None \<Rightarrow> True
      | Some (k, r) \<Rightarrow>
          pool_live k r db
          \<and> (Option.bind previous rv_pool_ref = Some (k, r)
             \<or> list_all (\<lambda>m. map_of (fd_templates db) (mr_profile m) \<noteq> None \<and> \<not> retiring_template (mr_profile m) db)
                 (rows_at (pool_rows (fd_pools db)) (k, r))))"

definition allows_references :: "mutation_facts \<Rightarrow> (int \<times> revision_row) option \<Rightarrow> fleet_db \<Rightarrow> bool" where
  "allows_references mf previous db =
     (template_reference_ok mf (map_option snd previous) db
      \<and> auth_reference_ok mf (map_option snd previous) db
      \<and> list_all (\<lambda>m. member_reference_ok (mf_key mf) (map_option fst previous) m db) (mf_template_pool mf)
      \<and> pool_reference_ok mf (map_option snd previous) db)"

subsection \<open>Replacement over live resources\<close>

definition replacement_occupancy :: "string \<Rightarrow> fleet_db \<Rightarrow> int" where
  "replacement_occupancy key db =
     (let l = ledger_of db;
          generations = map fst (filter (\<lambda>(_, g). gen_fleet_key g = key) (db_generations l)) in
      cnt_occupancy (fleet_counts key l)
      + int (length (filter (\<lambda>(_, r). op_generation_id r \<in> set generations \<and> op_state r \<in> set open_operation_states)
          (db_operations l))))"

fun newest :: "(int \<times> 'a) list \<Rightarrow> (int \<times> 'a) option" where
  "newest [] = None"
| "newest (x # xs) = (case newest xs of None \<Rightarrow> Some x | Some y \<Rightarrow> if fst y > fst x then Some y else Some x)"

definition revisions_of :: "string \<Rightarrow> fleet_db \<Rightarrow> (int \<times> revision_row) list" where
  "revisions_of key db = List.map_filter (\<lambda>((k, r), row). if k = key then Some (r, row) else None) (fd_revisions db)"

definition previous_revision :: "string \<Rightarrow> int \<Rightarrow> fleet_db \<Rightarrow> (int \<times> revision_row) option" where
  "previous_revision key revision db = newest (filter (\<lambda>(r, _). r < revision) (revisions_of key db))"

text \<open>Following the same profile to a newer revision is not a replacement.\<close>

definition template_changed :: "(string \<times> int \<times> string \<times> string) option \<Rightarrow> revision_row \<Rightarrow> bool" where
  "template_changed template p =
     (let old = map_option (\<lambda>(k, r, _, _). (k, r)) (rv_template p); new = map_option (\<lambda>(k, r, _, _). (k, r)) template;
          follow = (map_option fst old = map_option fst new
            \<and> (case (old, new) of (Some (_, from_rev), Some (_, to_rev)) \<Rightarrow> to_rev > from_rev | _ \<Rightarrow> False)) in
      old \<noteq> new \<and> \<not> follow)"

definition member_changed :: "fleet_codec \<Rightarrow> admit_member list \<Rightarrow> member_row \<Rightarrow> bool" where
  "member_changed C ms row =
     (case find (\<lambda>m. am_key m = mr_key row) ms of
        None \<Rightarrow> True
      | Some m \<Rightarrow> am_profile m \<noteq> mr_profile row \<or> am_revision m \<noteq> mr_revision row \<or> am_digest m \<noteq> mr_digest row
          \<or> am_attestation m \<noteq> mr_attestation row \<or> fc_encode_inputs C (am_inputs m) \<noteq> Some (mr_inputs_json row)
          \<or> am_inputs_digest m \<noteq> mr_inputs_digest row \<or> int (am_weight m) \<noteq> mr_weight row
          \<or> am_max_runners m \<noteq> mr_max_runners row)"

definition inline_pool :: "fleet_codec \<Rightarrow> (int \<times> revision_row) option \<Rightarrow> bool" where
  "inline_pool C previous =
     (case previous of None \<Rightarrow> False | Some (_, p) \<Rightarrow> (case fc_spec C (rv_spec p) of None \<Rightarrow> False | Some (_, inline) \<Rightarrow> inline))"

definition pool_route_changed :: "fleet_codec \<Rightarrow> mutation_facts \<Rightarrow> (int \<times> revision_row) option \<Rightarrow> fleet_db \<Rightarrow> bool" where
  "pool_route_changed C mf previous db =
     (let was_pool = inline_pool C previous;
          new_pool = (mf_pool_ref mf = None \<and> mf_template_pool mf \<noteq> []);
          rows = (case previous of Some (r, _) \<Rightarrow> if was_pool then rows_at (inline_rows (fd_pools db)) (mf_key mf, r) else []
                  | None \<Rightarrow> []) in
      was_pool \<noteq> new_pool
      \<or> was_pool \<and> (length rows \<noteq> length (mf_template_pool mf) \<or> list_ex (member_changed C (mf_template_pool mf)) rows))"

definition pool_ref_changed :: "(string \<times> int) option \<Rightarrow> revision_row \<Rightarrow> bool" where
  "pool_ref_changed new p =
     (let catch_up = (case (rv_pool_ref p, new) of
          (Some (old_key, from_rev), Some (new_key, to_rev)) \<Rightarrow> old_key = new_key \<and> to_rev > from_rev | _ \<Rightarrow> False) in
      rv_pool_ref p \<noteq> new \<and> \<not> catch_up)"

definition auth_key :: "mutation_facts \<Rightarrow> string" where
  "auth_key mf = (case mf_auth mf of None \<Rightarrow> [] | Some (k, _) \<Rightarrow> k)"

definition inputs_changed :: "fleet_codec \<Rightarrow> string \<Rightarrow> revision_row \<Rightarrow> store_error + bool" where
  "inputs_changed C spec p =
     and_then (ok_or (StoreCorrupt ''template inputs unreadable'') (fc_inputs C (rv_spec p))) (\<lambda>old.
     map_ok (\<lambda>new. old \<noteq> new) (ok_or (StoreCorrupt ''template inputs unreadable'') (fc_inputs C spec)))"

text \<open>A refusal of the domain or an error of the infrastructure.\<close>

type_synonym refusal = "core_error + mutation_error"

definition infra :: "store_error + 'a \<Rightarrow> refusal + 'a" where
  "infra r = map_err (\<lambda>e. Inl (core_of_store e)) r"

definition refuse_unless :: "bool \<Rightarrow> mutation_error \<Rightarrow> refusal + unit" where
  "refuse_unless ok e = (if ok then Inr () else Inl (Inr e))"

definition replacement_gates :: "fleet_codec \<Rightarrow> mutation_facts \<Rightarrow> (int \<times> revision_row) option \<Rightarrow> fleet_db \<Rightarrow> refusal + unit" where
  "replacement_gates C mf previous db =
     (let empty = (replacement_occupancy (mf_key mf) db \<le> 0); p = map_option snd previous in
      and_then (refuse_unless (allows_references mf previous db)
                  (RetirementBlocked ''template or auth dependency is retiring or unavailable'')) (\<lambda>_.
      and_then (refuse_unless (\<not> pool_route_changed C mf previous db \<or> empty)
                  (RetirementBlocked ''pool conversion requires zero resource occupancy'')) (\<lambda>_.
      and_then (refuse_unless (\<not> (case p of None \<Rightarrow> False | Some r \<Rightarrow> pool_ref_changed (mf_pool_ref mf) r) \<or> empty)
                  (RetirementBlocked ''template pool replacement requires zero resource occupancy'')) (\<lambda>_.
      and_then (infra (case p of None \<Rightarrow> Inr False | Some r \<Rightarrow> inputs_changed C (mf_spec mf) r)) (\<lambda>inputs.
      refuse_unless (\<not> ((case p of None \<Rightarrow> False | Some r \<Rightarrow>
                           template_changed (mf_template mf) r \<or> fst (rv_auth r) \<noteq> auth_key mf) \<or> inputs) \<or> empty)
        (RetirementBlocked ''replacement requires zero resource occupancy''))))))"

text \<open>The handoff of the credential the revision row resolved, with its exact context.\<close>

definition retarget_auth :: "fleet_codec \<Rightarrow> mutation_facts \<Rightarrow> fleet_db \<Rightarrow> refusal + fleet_db" where
  "retarget_auth C mf db =
     (case mf_auth mf of
        None \<Rightarrow> Inr db
      | Some (profile, _) \<Rightarrow>
          and_then (infra (ok_or (StoreCorrupt ''fleet has no committed revision for auth handoff'')
                      (newest (revisions_of (mf_key mf) db)))) (\<lambda>(_, r).
          let resolved = snd (rv_auth r) in
          if spec_is_pool C (mf_spec mf) then Inr db else
          and_then (infra (context_commit C (mf_key mf) profile resolved (mf_spec mf) (mf_now mf)
                      (handoff_set_desired (mf_key mf) profile resolved db))) (\<lambda>outcome.
          case outcome of
            Inr db' \<Rightarrow> Inr db'
          | Inl reason \<Rightarrow> Inl (Inr (Unprocessable
              (if reason = ''TargetNotAllowed'' then TargetNotAllowed else reason_code.AmbiguousInstallation)
              ''auth profile target policy does not cover the fleet target'')))))"

definition revision_insert_of :: "mutation_facts \<Rightarrow> revision_insert" where
  "revision_insert_of mf =
     \<lparr>ri_key = mf_key mf, ri_incarnation = mf_incarnation mf, ri_revision = mf_revision mf, ri_spec = mf_spec mf,
      ri_template = mf_template mf, ri_template_pool = mf_template_pool mf, ri_pool_ref = mf_pool_ref mf,
      ri_auth = (case mf_auth mf of None \<Rightarrow> ([], 0) | Some a \<Rightarrow> a), ri_inputs_digest = mf_inputs_digest mf,
      ri_actor = mf_actor mf, ri_now = mf_now mf\<rparr>"

definition commit_fleet_mutation_tx :: "fleet_codec \<Rightarrow> mutation_facts \<Rightarrow> fleet_db \<Rightarrow> refusal + unit \<times> fleet_db" where
  "commit_fleet_mutation_tx C mf db =
     and_then (map_err (\<lambda>e. Inr (fence_conflict mf e)) (fleet_commit_revision C (revision_insert_of mf) db)) (\<lambda>db1.
     and_then (replacement_gates C mf (previous_revision (mf_key mf) (mf_revision mf) db1) db1) (\<lambda>_.
     and_then (retarget_auth C mf db1) (\<lambda>db2.
     and_then (infra (change_insert (cv_id (mf_change mf)) (mf_key mf) (mf_revision mf) (cv_kind (mf_change mf)) (mf_now mf) db2)) (\<lambda>db3.
     map_ok (Pair ()) (infra (commit_tail (mf_resource_kind mf) ''put'' None mf db3))))))"

definition commit_fleet_mutation where
  "commit_fleet_mutation C mf = commit_fleet_tx (commit_fleet_mutation_tx C mf)"

definition cleanup_only_auth :: "fleet_codec \<Rightarrow> mutation_facts \<Rightarrow> fleet_db \<Rightarrow> store_error + fleet_db" where
  "cleanup_only_auth C mf db =
     (let key = mf_key mf;
          is_pool = (case newest (revisions_of key db) of None \<Rightarrow> False | Some (_, r) \<Rightarrow> spec_is_pool C (rv_spec r)) in
      if is_pool then Inr db else
      map_ok (handoff_set_cleanup_only key)
        (context_refresh_fence key (mf_now mf)
          (case mf_auth mf of None \<Rightarrow> db | Some (profile, r) \<Rightarrow> handoff_set_desired key profile r db)))"

definition commit_decommission_tx :: "fleet_codec \<Rightarrow> mutation_facts \<Rightarrow> fleet_db \<Rightarrow> refusal + unit \<times> fleet_db" where
  "commit_decommission_tx C mf db =
     and_then (case fleet_mark_decommissioning (mf_key mf) (mf_incarnation mf) (mf_revision mf) (mf_now mf) db of
                 Inr db1 \<Rightarrow> Inr db1
               | Inl (StoreConflict resource) \<Rightarrow> Inl (Inr (fence_conflict mf (StoreConflict resource)))
               | Inl e \<Rightarrow> Inl (Inl (core_of_store e))) (\<lambda>db1.
     and_then (infra (cleanup_only_auth C mf db1)) (\<lambda>db2.
     and_then (infra (change_insert (cv_id (mf_change mf)) (mf_key mf) (mf_revision mf) (cv_kind (mf_change mf)) (mf_now mf) db2)) (\<lambda>db3.
     map_ok (Pair ()) (infra (commit_tail (mf_resource_kind mf) ''put'' None mf db3)))))"

definition commit_decommission where
  "commit_decommission C mf = commit_fleet_tx (commit_decommission_tx C mf)"
subsection \<open>Promotion of an auth revision\<close>

text \<open>Every Fleet whose handoff desires the profile is pointed at the newly active revision, with its context.\<close>

fun retarget_fleets :: "fleet_codec \<Rightarrow> string \<Rightarrow> int \<Rightarrow> int \<Rightarrow> string list \<Rightarrow> fleet_db \<Rightarrow> store_error + fleet_db" where
  "retarget_fleets C profile revision now [] db = Inr db"
| "retarget_fleets C profile revision now (key # keys) db =
     (let db1 = handoff_retarget_desired key profile revision db in
      case newest (revisions_of key db1) of
        None \<Rightarrow> retarget_fleets C profile revision now keys db1
      | Some (_, r) \<Rightarrow>
          if spec_is_pool C (rv_spec r) then retarget_fleets C profile revision now keys db1 else
          and_then (context_commit C key profile revision (rv_spec r) now db1) (\<lambda>outcome.
          case outcome of
            Inl reason \<Rightarrow> Inl (StorePolicyDenied reason)
          | Inr db2 \<Rightarrow> retarget_fleets C profile revision now keys db2))"

definition depending_fleets :: "string \<Rightarrow> fleet_db \<Rightarrow> string list" where
  "depending_fleets profile db = map fst (filter (\<lambda>(_, h). ho_desired_profile_key h = profile) (ld_handoffs (fd_main db)))"

definition auth_advance_head :: "fleet_codec \<Rightarrow> string \<Rightarrow> int \<Rightarrow> int \<Rightarrow> fleet_db \<Rightarrow> store_error + unit \<times> fleet_db" where
  "auth_advance_head C profile revision now db =
     (case map_of (fd_auths db) profile of
        None \<Rightarrow> Inl StoreUnavailable
      | Some a \<Rightarrow>
          let db1 = db\<lparr>fd_auths := AList.update profile (a\<lparr>ah_active := Some revision\<rparr>) (fd_auths db)\<rparr> in
          map_ok (Pair ()) (retarget_fleets C profile revision now (depending_fleets profile db1) db1))"

section \<open>The DELETE request\<close>

record mutation_accepted =
  acc_etag :: string
  acc_change :: change_view
  acc_no_op :: bool

record service_codec =
  sc_hash :: "string list \<Rightarrow> string"
  sc_encode :: "mutation_accepted \<Rightarrow> string option"
  sc_decode :: "string \<Rightarrow> mutation_accepted option"

definition show_int :: "int \<Rightarrow> string" where
  "show_int i = (if i < 0 then ''-'' @ show_nat (nat (- i)) else show_nat (nat i))"

datatype idempotency_lookup = Miss | Replay string | KeyReused | LegacyKey

text \<open>A record without a principal (kind, key, client key) is of an older version and blocks the client key.\<close>

definition idempotency_find :: "idempotency_key \<Rightarrow> string \<Rightarrow> fleet_db \<Rightarrow> idempotency_lookup" where
  "idempotency_find k request_hash db =
     (case k of (actor, operation, kind_name, key, client_key) \<Rightarrow>
        if (kind_name, key, client_key) \<in> set (fd_legacy_keys db) then LegacyKey else
        (case map_of (fd_idempotency db) k of
           None \<Rightarrow> Miss
         | Some r \<Rightarrow> if id_request_hash r \<noteq> request_hash then KeyReused
                    else (case id_body r of Some body \<Rightarrow> Replay body | None \<Rightarrow> Miss)))"

definition delete_precondition :: "(string \<times> int) option \<Rightarrow> string" where
  "delete_precondition if_match =
     (case if_match of None \<Rightarrow> ''none'' | Some (incarnation, revision) \<Rightarrow> ''if-match:'' @ incarnation @ '':'' @ show_int revision)"

definition delete_hash :: "service_codec \<Rightarrow> string \<Rightarrow> string \<Rightarrow> (string \<times> int) option \<Rightarrow> string" where
  "delete_hash S key client_key if_match = sc_hash S [''fleet'', key, client_key, ''decommission'', delete_precondition if_match]"

definition delete_key :: "string \<Rightarrow> string \<Rightarrow> string \<Rightarrow> idempotency_key" where
  "delete_key actor key client_key = (actor, ''v1:DELETE'', ''fleet'', key, client_key)"

text \<open>A stored answer for exactly this request.\<close>

definition delete_replay :: "service_codec \<Rightarrow> string \<Rightarrow> string \<Rightarrow> (string \<times> int) option \<Rightarrow> string option \<Rightarrow> fleet_db
    \<Rightarrow> refusal + mutation_accepted option" where
  "delete_replay S actor key if_match client_key db =
     (case client_key of
        None \<Rightarrow> Inr None
      | Some ck \<Rightarrow>
          (case idempotency_find (delete_key actor key ck) (delete_hash S key ck if_match) db of
             Miss \<Rightarrow> Inr None
           | KeyReused \<Rightarrow> Inl (Inr IdempotencyConflict)
           | LegacyKey \<Rightarrow> Inl (Inr LegacyIdempotencyConflict)
           | Replay body \<Rightarrow> (case sc_decode S body of
                None \<Rightarrow> Inl (Inl (core_error_new Internal ''stored response unreadable'')) | Some a \<Rightarrow> Inr (Some a))))"

definition delete_accepted :: "string \<Rightarrow> fleet_row \<Rightarrow> string \<Rightarrow> mutation_accepted" where
  "delete_accepted key f change_id =
     \<lparr>acc_etag = fleet_incarnation f @ '':'' @ show_int (fleet_desired_revision f + 1),
      acc_change = \<lparr>cv_id = change_id, cv_resource_kind = ''fleet'', cv_resource_key = key,
        cv_revision = fleet_desired_revision f + 1, cv_kind = ''Decommission'', cv_state = ''Pending'', cv_reason = None\<rparr>,
      acc_no_op = False\<rparr>"

definition outbox_change :: "string \<Rightarrow> string" where
  "outbox_change change_id =
     ''{'' @ [CHR 0x22] @ ''change'' @ [CHR 0x22] @ '':'' @ [CHR 0x22] @ change_id @ [CHR 0x22] @ ''}''"

definition delete_facts :: "string \<Rightarrow> string \<Rightarrow> fleet_row \<Rightarrow> string \<Rightarrow> int \<Rightarrow> (string \<times> string \<times> int \<times> string) option \<Rightarrow> mutation_facts" where
  "delete_facts actor key f change_id now idempotency =
     \<lparr>mf_operation = ''v1:DELETE'', mf_resource_kind = ''fleet'', mf_key = key, mf_incarnation = fleet_incarnation f,
      mf_revision = fleet_desired_revision f + 1, mf_spec = ''{}'', mf_template = None, mf_template_pool = [],
      mf_pool_ref = None, mf_auth = None, mf_inputs_digest = ''decommission'', mf_actor = actor, mf_now = now,
      mf_change = acc_change (delete_accepted key f change_id), mf_outbox_topic = ''fleet.change'',
      mf_outbox_payload = outbox_change change_id, mf_idempotency = idempotency\<rparr>"

text \<open>What the request handler decides before it takes the effect gate and commits.\<close>

definition delete_admit :: "service_codec \<Rightarrow> string \<Rightarrow> bool \<Rightarrow> string \<Rightarrow> (string \<times> int) option \<Rightarrow> string option \<Rightarrow> string \<Rightarrow> int
    \<Rightarrow> fleet_db \<Rightarrow> refusal + mutation_accepted \<times> mutation_facts option" where
  "delete_admit S actor may_retire key if_match client_key change_id now db =
     (if \<not> may_retire then Inl (Inr (Unprocessable SpecInvalid ''missing fleet.retire scope'')) else
      and_then (delete_replay S actor key if_match client_key db) (\<lambda>replayed.
      case replayed of Some a \<Rightarrow> Inr (a, None) | None \<Rightarrow>
      and_then (case if_match of None \<Rightarrow> Inl (Inr PreconditionRequired) | Some m \<Rightarrow> Inr m) (\<lambda>(incarnation, revision).
      and_then (case head_of db key of None \<Rightarrow> Inl (Inr NotFound) | Some f \<Rightarrow> Inr f) (\<lambda>f.
      if fleet_incarnation f \<noteq> incarnation \<or> fleet_desired_revision f \<noteq> revision
      then Inl (Inr (PreconditionFailed (fleet_incarnation f) (fleet_desired_revision f)))
      else if fleet_tombstone f then Inl (Inr (Gone key)) else
      let accepted = delete_accepted key f change_id in
      and_then (case client_key of
                  None \<Rightarrow> Inr None
                | Some ck \<Rightarrow> (case sc_encode S accepted of
                    None \<Rightarrow> Inl (Inl (core_error_new Internal ''response cannot be encoded''))
                  | Some body \<Rightarrow> Inr (Some (ck, delete_hash S key ck if_match, 202, body)))) (\<lambda>idempotency.
      Inr (accepted, Some (delete_facts actor key f change_id now idempotency)))))))"

text \<open>The whole request: what the handler read, and the ledger its commit finds.\<close>

definition fleet_delete :: "service_codec \<Rightarrow> fleet_codec \<Rightarrow> string \<Rightarrow> bool \<Rightarrow> string \<Rightarrow> (string \<times> int) option \<Rightarrow> string option
    \<Rightarrow> string \<Rightarrow> int \<Rightarrow> fleet_db \<Rightarrow> fleet_db \<Rightarrow> (refusal + mutation_accepted) \<times> fleet_db" where
  "fleet_delete S C actor may_retire key if_match client_key change_id now read_db db =
     (case delete_admit S actor may_retire key if_match client_key change_id now read_db of
        Inl e \<Rightarrow> (Inl e, db)
      | Inr (accepted, None) \<Rightarrow> (Inr accepted, db)
      | Inr (accepted, Some mf) \<Rightarrow>
          (case commit_decommission C mf db of
             (Inl e, db') \<Rightarrow> (Inl e, db')
           | (Inr _, db') \<Rightarrow> (Inr accepted, db')))"

end
