(* ===== verification/Listener_Run.thy ===== *)
theory Listener_Run
  imports Listener
begin

text \<open>
  Every interleaving of the listener's transactions: several listeners, sessions that replace each
  other, redeliveries, lost replies, and everything the rest of the program does to the tables the
  listener only reads.
\<close>

section \<open>Runs\<close>

datatype listener_event =
    Deliver string session_effect_context poll_message "nat \<Rightarrow> string" int
  | ConfirmDemand string session_effect_context int
  | Acknowledge string session_effect_context int int
  | AcquireStart string session_effect_context int int
  | AcquireComplete string session_effect_context int "int list option" int
  | InstallSession string session_install_request int
  | ClearSession string int int
  | SnapshotDemand string int int
  | Elsewhere ledger "(string \<times> handoff_row) list" "(string \<times> context_row) list"
      "((string \<times> int) \<times> (int \<times> string)) list" "((string \<times> string \<times> int) \<times> string) list"
      "((string \<times> string) \<times> int) list" "fact_row list" "(string \<times> int \<times> int) list"

fun listener_step :: "external \<Rightarrow> listener_codec \<Rightarrow> listener_event \<Rightarrow> listener_db \<Rightarrow> listener_db" where
  "listener_step E C (Deliver fleet context m uuids now) db = snd (listener_ingest E C uuids fleet context m now db)"
| "listener_step E C (ConfirmDemand fleet context now) db = snd (listener_demand_confirmed E fleet context now db)"
| "listener_step E C (Acknowledge fleet context i now) db = snd (listener_acknowledge E fleet context i now db)"
| "listener_step E C (AcquireStart fleet context i now) db = snd (listener_acquire_start E fleet context i now db)"
| "listener_step E C (AcquireComplete fleet context i accepted now) db =
     snd (listener_acquire_complete E fleet context i accepted now db)"
| "listener_step E C (InstallSession fleet install now) db = snd (session_install E fleet install now db)"
| "listener_step E C (ClearSession fleet epoch now) db = snd (session_clear fleet epoch now db)"
| "listener_step E C (SnapshotDemand fleet amount now) db = demand_snapshot fleet amount now db"
| "listener_step E C (Elsewhere l handoffs contexts revisions retained js fs outbox) db =
     db\<lparr>ld_ledger := l, ld_handoffs := handoffs, ld_contexts := contexts, ld_auth_revisions := revisions,
        ld_retained := retained, ld_jobs := js, ld_facts := fs, ld_outbox := outbox\<rparr>"

definition run_listener :: "external \<Rightarrow> listener_codec \<Rightarrow> listener_event list \<Rightarrow> listener_db \<Rightarrow> listener_db" where
  "run_listener E C es db = fold (listener_step E C) es db"

text \<open>The acquisitions an event hands out, to be requested from the remote service.\<close>

fun started_by :: "external \<Rightarrow> listener_event \<Rightarrow> listener_db \<Rightarrow> message_key list" where
  "started_by E (AcquireStart fleet context i now) db =
     (case fst (listener_acquire_start E fleet context i now db) of
        Inr (Some ids) \<Rightarrow> map (\<lambda>request. (fleet, se_epoch context, request)) ids
      | _ \<Rightarrow> [])"
| "started_by E _ db = []"

fun started :: "external \<Rightarrow> listener_codec \<Rightarrow> listener_event list \<Rightarrow> listener_db \<Rightarrow> message_key list" where
  "started E C [] db = []"
| "started E C (e # es) db = started_by E e db @ started E C es (listener_step E C e db)"

lemma run_listener_simps [simp]:
  "run_listener E C [] db = db"
  "run_listener E C (e # es) db = run_listener E C es (listener_step E C e db)"
  by (simp_all add: run_listener_def)

section \<open>Rows after an update\<close>

lemma map_of_update_rows [simp]:
  "map_of (update_rows p f rows) k = map_option (\<lambda>r. if p k r then f r else r) (map_of rows k)"
  by (induction rows) (auto simp: update_rows_def)

lemma keys_update_rows [simp]: "map fst (update_rows p f rows) = map fst rows"
  by (induction rows) (auto simp: update_rows_def)

lemma map_of_insert_new [simp]:
  "map_of (insert_new k r rows) j = (if j = k \<and> map_of rows k = None then Some r else map_of rows j)"
  by (simp add: insert_new_def)

lemma distinct_insert_new: "distinct (map fst rows) \<Longrightarrow> distinct (map fst (insert_new k r rows))"
  by (auto simp: insert_new_def map_of_eq_None_iff)

lemma distinct_map_of:
  "distinct (map fst rows) \<Longrightarrow> (k, r) \<in> set rows \<longleftrightarrow> map_of rows k = Some r"
  by simp

lemma commit_snd: "snd (commit tx db) = (case tx db of Inl e \<Rightarrow> db | Inr (x, db') \<Rightarrow> db')"
  by (simp add: commit_def split: sum.split prod.split)

lemma commit_Inr: "commit tx db = (Inr x, db') \<longleftrightarrow> tx db = Inr (x, db')"
  by (simp add: commit_def split: sum.split prod.split)

lemma insert_acquisitions_Inr:
  assumes "insert_acquisitions fleet epoch m now js rows = Inr rows'"
  shows "map_of rows' k = (case map_of rows k of Some r \<Rightarrow> Some r
      | None \<Rightarrow> if \<exists>j\<in>set js. k = (fleet, epoch, jm_request j)
                then Some \<lparr>ar_message_id = m, ar_state = ''Pending'', ar_updated_at = now\<rparr> else None)"
    and "distinct (map fst rows) \<Longrightarrow> distinct (map fst rows')"
  using assms
  by (induction fleet epoch m now js rows rule: insert_acquisitions.induct)
    (auto simp: distinct_insert_new split: if_splits option.split)

definition settles :: "string \<Rightarrow> int \<Rightarrow> (int \<times> string) list \<Rightarrow> message_key \<Rightarrow> bool" where
  "settles fleet epoch entries k \<longleftrightarrow> fst k = fleet \<and> fst (snd k) = epoch
     \<and> (\<exists>previous. (snd (snd k), previous) \<in> set entries \<and> previous \<in> {''AcquireStarting'', ''Uncertain''})"

lemma settle_one:
  "map_of (settle_acquisition fleet epoch accepted now entry rows) k =
     map_option (\<lambda>r. if settles fleet epoch [entry] k
        then r\<lparr>ar_state := acquisition_outcome accepted (snd (snd k)), ar_updated_at := now\<rparr> else r) (map_of rows k)"
  by (cases entry; cases k; cases "map_of rows k") (auto simp: settle_acquisition_def settles_def)

lemma settles_Cons: "settles fleet epoch (entry # entries) k \<longleftrightarrow> settles fleet epoch [entry] k \<or> settles fleet epoch entries k"
  by (auto simp: settles_def)

lemma fold_settle:
  "map_of (fold (settle_acquisition fleet epoch accepted now) entries rows) k =
     map_option (\<lambda>r. if settles fleet epoch entries k
        then r\<lparr>ar_state := acquisition_outcome accepted (snd (snd k)), ar_updated_at := now\<rparr> else r) (map_of rows k)"
proof (induction entries arbitrary: rows)
  case Nil
  then show ?case by (simp add: settles_def option.map_ident)
next
  case (Cons entry entries)
  show ?case
    by (cases "map_of rows k") (simp_all add: Cons.IH settle_one settles_Cons [of _ _ entry entries])
qed

lemma keys_fold_settle [simp]:
  "map fst (fold (settle_acquisition fleet epoch accepted now) entries rows) = map fst rows"
  by (induction entries arbitrary: rows) (auto simp: settle_acquisition_def split: prod.split)
section \<open>What each transaction changes\<close>

lemma ingest_facts_Inr:
  "ingest_facts scope epoch message now fs db = Inr db' \<Longrightarrow> \<exists>js rows. db' = db\<lparr>ld_jobs := js, ld_facts := rows\<rparr>"
proof (induction scope epoch message now fs db arbitrary: db' rule: ingest_facts.induct)
  case (1 scope epoch message now db)
  then have "db' = db\<lparr>ld_jobs := ld_jobs db, ld_facts := ld_facts db\<rparr>" by simp
  then show ?case by blast
next
  case (2 scope epoch message now uuid f fs db)
  from "2.prems" obtain db1 where db1: "ingest_fact scope epoch message now uuid f db = Inr db1"
    and rest: "ingest_facts scope epoch message now fs db1 = Inr db'"
    by (auto simp: and_then_Inr)
  from "2.IH" [OF rest] obtain js rows where "db' = db1\<lparr>ld_jobs := js, ld_facts := rows\<rparr>" by blast
  moreover have "db1\<lparr>ld_jobs := js, ld_facts := rows\<rparr> = db\<lparr>ld_jobs := js, ld_facts := rows\<rparr>"
    using db1 by (auto simp: ingest_fact_def Let_def split: if_splits)
  ultimately show ?case by (metis (no_types))
qed

lemma jobs_ingest_Inr:
  assumes "jobs_ingest E uuids fleet context m now db = Inr db'"
  shows "\<exists>js rows. db' = db\<lparr>ld_jobs := js, ld_facts := rows\<rparr>"
proof -
  from assms obtain scope db1 where
    "ingest_facts scope (se_epoch context) (pm_id m) now (zip (map uuids [0..<length (facts m)]) (facts m)) db = Inr db1"
    "db' = db1\<lparr>ld_facts := fold (link_request scope) (fact_requests (facts m)) (ld_facts db1)\<rparr>"
    by (auto simp: jobs_ingest_def Let_def map_ok_Inr split: option.splits)
  then show ?thesis using ingest_facts_Inr by fastforce
qed

lemma redelivered_Inr:
  assumes "redelivered E C uuids fleet context m now digest row db = Inr (x, db')"
  shows "x = Some (listener_message_view fleet (se_epoch context) (pm_id m) row db)"
    and "mr_digest_version row = 2 \<and> mr_digest row = digest \<and> db' = db \<or> mr_digest_version row = 1 \<and> digest_legacy E C m = Inr (mr_digest row)
      \<and> (\<exists>js rows. db' = db\<lparr>ld_jobs := js, ld_facts := rows, ld_messages := update_rows
            (\<lambda>k r. k = (fleet, se_epoch context, pm_id m) \<and> mr_digest_version r = 1)
            (\<lambda>r. r\<lparr>mr_digest := digest, mr_digest_version := 2\<rparr>) (ld_messages db)\<rparr>)"
proof -
  have view: "listener_message_view fleet (se_epoch context) (pm_id m) row (db1\<lparr>ld_messages := ms\<rparr>)
      = listener_message_view fleet (se_epoch context) (pm_id m) row db1" for db1 ms
    by (simp add: listener_message_view_def pending_requests_def)
  have view_jobs: "listener_message_view fleet (se_epoch context) (pm_id m) row (db\<lparr>ld_jobs := js, ld_facts := rows\<rparr>)
      = listener_message_view fleet (se_epoch context) (pm_id m) row db" for js rows
    by (simp add: listener_message_view_def pending_requests_def)
  note assms = assms [unfolded redelivered_def]
  consider (old) "mr_digest_version row = 1" | (current) "mr_digest_version row = 2"
    using assms by (auto simp: and_then_Inr split: if_splits)
  then have "x = Some (listener_message_view fleet (se_epoch context) (pm_id m) row db)
    \<and> (mr_digest_version row = 2 \<and> mr_digest row = digest \<and> db' = db \<or> mr_digest_version row = 1 \<and> digest_legacy E C m = Inr (mr_digest row)
      \<and> (\<exists>js rows. db' = db\<lparr>ld_jobs := js, ld_facts := rows, ld_messages := update_rows
            (\<lambda>k r. k = (fleet, se_epoch context, pm_id m) \<and> mr_digest_version r = 1)
            (\<lambda>r. r\<lparr>mr_digest := digest, mr_digest_version := 2\<rparr>) (ld_messages db)\<rparr>))"
  proof cases
    case old
    with assms obtain db1 where "digest_legacy E C m = Inr (mr_digest row)"
        and j: "jobs_ingest E uuids fleet context m now db = Inr db1"
        and "db' = db1\<lparr>ld_messages := update_rows
            (\<lambda>k r. k = (fleet, se_epoch context, pm_id m) \<and> mr_digest_version r = 1)
            (\<lambda>r. r\<lparr>mr_digest := digest, mr_digest_version := 2\<rparr>) (ld_messages db1)\<rparr>"
        and "x = Some (listener_message_view fleet (se_epoch context) (pm_id m) row db')"
      by (auto simp: and_then_Inr map_ok_Inr split: if_splits)
    moreover obtain js rows where "db1 = db\<lparr>ld_jobs := js, ld_facts := rows\<rparr>" using jobs_ingest_Inr [OF j] by blast
    ultimately show ?thesis using old by (auto simp: view view_jobs)
  next
    case current
    with assms show ?thesis by (auto simp: and_then_Inr split: if_splits)
  qed
  then show "x = Some (listener_message_view fleet (se_epoch context) (pm_id m) row db)"
    and "mr_digest_version row = 2 \<and> mr_digest row = digest \<and> db' = db \<or> mr_digest_version row = 1 \<and> digest_legacy E C m = Inr (mr_digest row)
      \<and> (\<exists>js rows. db' = db\<lparr>ld_jobs := js, ld_facts := rows, ld_messages := update_rows
            (\<lambda>k r. k = (fleet, se_epoch context, pm_id m) \<and> mr_digest_version r = 1)
            (\<lambda>r. r\<lparr>mr_digest := digest, mr_digest_version := 2\<rparr>) (ld_messages db)\<rparr>)"
    by blast+
qed

lemma message_ids_iff: "i \<in> set (message_ids fleet epoch db) \<longleftrightarrow> map_of (ld_messages db) (fleet, epoch, i) \<noteq> None"
proof -
  have "i \<in> set (message_ids fleet epoch db) \<longleftrightarrow> (fleet, epoch, i) \<in> fst ` set (ld_messages db)"
    by (force simp: message_ids_def set_map_filter split: if_splits)
  then show ?thesis by (simp add: map_of_eq_None_iff)
qed

lemma first_delivery_Inr:
  assumes "first_delivery E C uuids fleet context m now digest db = Inr (x, db')"
  obtains encoded acquisitions observations js rows where
    "lc_context C (se_auth context) = Some encoded"
    "insert_acquisitions fleet (se_epoch context) (pm_id m) now (pm_available m) (ld_acquisitions db) = Inr acquisitions"
    "\<And>i. map_of (ld_messages db) (fleet, se_epoch context, i) \<noteq> None \<Longrightarrow> i < pm_id m"
    "db' = db\<lparr>ld_messages := ((fleet, se_epoch context, pm_id m), new_message_row context digest encoded now) # ld_messages db,
        ld_demand := AList.update fleet (total_assigned_jobs0 (pm_statistics m), now) (ld_demand db),
        ld_acquisitions := acquisitions, ld_observations := observations,
        ld_ledger := fold (activity_step fleet now) (activity_steps m) (ld_ledger db), ld_jobs := js, ld_facts := rows, ld_outbox := (fleet, se_epoch context, now) # ld_outbox db\<rparr>"
    "listener_message E fleet context (pm_id m) db' = Inr (Some (new_message_row context digest encoded now))"
    "x = Some (listener_message_view fleet (se_epoch context) (pm_id m) (new_message_row context digest encoded now) db')"
proof -
  note assms = assms [unfolded first_delivery_def Let_def]
  have "\<not> list_ex (\<lambda>i. i \<ge> pm_id m) (message_ids fleet (se_epoch context) db)"
    using assms by (auto split: if_splits)
  then have ids: "\<forall>i\<in>set (message_ids fleet (se_epoch context) db). i < pm_id m"
    by (simp add: list_ex_iff not_le)
  have below: "i < pm_id m" if "map_of (ld_messages db) (fleet, se_epoch context, i) \<noteq> None" for i
    using ids that by (simp only: message_ids_iff [symmetric])
  define db1 where "db1 encoded = db\<lparr>ld_messages := ((fleet, se_epoch context, pm_id m), new_message_row context digest encoded now) # ld_messages db,
        ld_demand := AList.update fleet (total_assigned_jobs0 (pm_statistics m), now) (ld_demand db)\<rparr>" for encoded
  from assms obtain encoded db2 db3 row where encoded: "lc_context C (se_auth context) = Some encoded"
      and db2: "listener_observations fleet (se_epoch context) m now (db1 encoded) = Inr db2"
      and db3: "jobs_ingest E uuids fleet context m now (listener_activity fleet m now db2) = Inr db3"
      and db': "db' = db3\<lparr>ld_outbox := (fleet, se_epoch context, now) # ld_outbox db3\<rparr>"
      and row: "listener_message E fleet context (pm_id m) db' = Inr (Some row)"
      and x: "x = Some (listener_message_view fleet (se_epoch context) (pm_id m) row db')"
    by (auto simp: and_then_Inr ok_or_Inr db1_def split: if_splits)
  from db2 obtain acquisitions observations where
    acq: "insert_acquisitions fleet (se_epoch context) (pm_id m) now (pm_available m) (ld_acquisitions db) = Inr acquisitions"
    and db2': "db2 = (db1 encoded)\<lparr>ld_acquisitions := acquisitions, ld_observations := observations\<rparr>"
    by (auto simp: listener_observations_def and_then_Inr db1_def)
  obtain js rows where db3': "db3 = (listener_activity fleet m now db2)\<lparr>ld_jobs := js, ld_facts := rows\<rparr>"
    using jobs_ingest_Inr [OF db3] by blast
  have eq: "db' = db\<lparr>ld_messages := ((fleet, se_epoch context, pm_id m), new_message_row context digest encoded now) # ld_messages db,
        ld_demand := AList.update fleet (total_assigned_jobs0 (pm_statistics m), now) (ld_demand db),
        ld_acquisitions := acquisitions, ld_observations := observations,
        ld_ledger := fold (activity_step fleet now) (activity_steps m) (ld_ledger db),
        ld_jobs := js, ld_facts := rows, ld_outbox := (fleet, se_epoch context, now) # ld_outbox db\<rparr>"
    by (simp add: db' db3' db2' db1_def listener_activity_def)
  have "row = new_message_row context digest encoded now"
    using row by (simp add: listener_message_def eq and_then_Inr ok_or_Inr split: if_splits)
  with that [OF encoded acq below eq] row x show thesis by blast
qed

lemma ingest_Inr:
  assumes "listener_ingest_tx E C uuids fleet context m now db = Inr (x, db')"
  obtains (stale) "listener_context_current E fleet context db = Inr False" "x = None" "db' = db"
  | (again) digest row where "listener_context_current E fleet context db = Inr True"
      "\<not> (pm_id m \<le> 0 \<or> total_assigned_jobs0 (pm_statistics m) < 0)"
      "digest_current E C m = Inr digest" "listener_message E fleet context (pm_id m) db = Inr (Some row)"
      "redelivered E C uuids fleet context m now digest row db = Inr (x, db')"
  | (new) digest where "listener_context_current E fleet context db = Inr True"
      "\<not> (pm_id m \<le> 0 \<or> total_assigned_jobs0 (pm_statistics m) < 0)"
      "digest_current E C m = Inr digest" "listener_message E fleet context (pm_id m) db = Inr None"
      "first_delivery E C uuids fleet context m now digest db = Inr (x, db')"
proof -
  from assms [unfolded listener_ingest_tx_def] obtain current where c: "listener_context_current E fleet context db = Inr current"
    and rest: "(if \<not> current then Inr (None, db)
     else if pm_id m \<le> 0 \<or> total_assigned_jobs0 (pm_statistics m) < 0
     then Inl (StoreCorrupt ''invalid listener message statistics or ID'') else
     and_then (digest_current E C m) (\<lambda>digest.
     and_then (listener_message E fleet context (pm_id m) db) (\<lambda>found.
     case found of
       Some row \<Rightarrow> redelivered E C uuids fleet context m now digest row db
     | None \<Rightarrow> first_delivery E C uuids fleet context m now digest db))) = Inr (x, db')"
    unfolding and_then_Inr by iprover
  show thesis
  proof (cases current)
    case False
    with c rest show thesis by (intro stale) auto
  next
    case True
    with rest obtain digest found where d: "\<not> (pm_id m \<le> 0 \<or> total_assigned_jobs0 (pm_statistics m) < 0)" "digest_current E C m = Inr digest"
        "listener_message E fleet context (pm_id m) db = Inr found"
        "(case found of Some row \<Rightarrow> redelivered E C uuids fleet context m now digest row db
          | None \<Rightarrow> first_delivery E C uuids fleet context m now digest db) = Inr (x, db')"
      by (auto simp: and_then_Inr not_le split: if_splits)
    with c True show thesis by (cases found) (auto intro: again new)
  qed
qed

lemma confirmed_Inr:
  assumes "listener_demand_confirmed_tx E fleet context now db = Inr (x, db')"
  shows "\<exists>rows. db' = db\<lparr>ld_demand := rows\<rparr>"
    and "listener_context_current E fleet context db = Inr False \<Longrightarrow> \<not> x \<and> db' = db"
proof -
  from assms [unfolded listener_demand_confirmed_tx_def Let_def and_then_Inr] obtain current
    where c: "listener_context_current E fleet context db = Inr current"
      and rest: "(if \<not> current then Inr (False, db) else
        Inr (list_ex (\<lambda>(k, r). k = fleet \<and> snd r < now) (ld_demand db),
            db\<lparr>ld_demand := update_rows (\<lambda>k r. k = fleet \<and> snd r < now) (\<lambda>(amount, _). (amount, now)) (ld_demand db)\<rparr>))
        = (Inr (x, db') :: store_error + bool \<times> listener_db)"
    by blast
  show "\<exists>rows. db' = db\<lparr>ld_demand := rows\<rparr>"
  proof (cases current)
    case True
    with rest show ?thesis by auto
  next
    case False
    with rest have "db' = db\<lparr>ld_demand := ld_demand db\<rparr>" by simp
    then show ?thesis by blast
  qed
  show "listener_context_current E fleet context db = Inr False \<Longrightarrow> \<not> x \<and> db' = db" using c rest by simp
qed

lemma listener_message_Inr:
  "listener_message E fleet context i db = Inr found \<Longrightarrow> found = map_of (ld_messages db) (fleet, se_epoch context, i)"
  by (auto simp: listener_message_def and_then_Inr split: option.splits if_splits)

lemma acknowledge_Inr:
  assumes "listener_acknowledge_tx E fleet context i now db = Inr (x, db')"
  obtains (stale) "\<not> x" "db' = db" | (acked) row where "x" "listener_context_current E fleet context db = Inr True"
    "map_of (ld_messages db) (fleet, se_epoch context, i) = Some row"
    "\<And>j r. map_of (ld_messages db) (fleet, se_epoch context, j) = Some r \<Longrightarrow> j < i \<Longrightarrow> mr_acked r \<noteq> 0"
    "db' = db\<lparr>ld_messages := update_rows (\<lambda>k _. k = (fleet, se_epoch context, i))
            (\<lambda>r. r\<lparr>mr_acked := 1, mr_updated_at := now\<rparr>) (ld_messages db),
          ld_sessions := update_rows (\<lambda>k s. k = fleet \<and> sr_epoch s = se_epoch context)
            (\<lambda>s. s\<lparr>sr_last_message_id := max (sr_last_message_id s) i\<rparr>) (ld_sessions db)\<rparr>"
proof (cases x)
  case False
  then have "db' = db"
    using assms by (auto simp: listener_acknowledge_tx_def and_then_Inr split: if_splits)
  with False show thesis by (intro stale)
next
  case True
  with assms [unfolded listener_acknowledge_tx_def] obtain row where
    r: "listener_context_current E fleet context db = Inr True" "listener_message E fleet context i db = Inr (Some row)"
    "\<not> list_ex (\<lambda>((f, e, j), r). f = fleet \<and> e = se_epoch context \<and> j < i \<and> mr_acked r = 0) (ld_messages db)"
    "db' = db\<lparr>ld_messages := update_rows (\<lambda>k _. k = (fleet, se_epoch context, i))
            (\<lambda>r. r\<lparr>mr_acked := 1, mr_updated_at := now\<rparr>) (ld_messages db),
          ld_sessions := update_rows (\<lambda>k s. k = fleet \<and> sr_epoch s = se_epoch context)
            (\<lambda>s. s\<lparr>sr_last_message_id := max (sr_last_message_id s) i\<rparr>) (ld_sessions db)\<rparr>"
    by (auto simp: and_then_Inr split: if_splits)
  have "mr_acked r0 \<noteq> 0" if "map_of (ld_messages db) (fleet, se_epoch context, j) = Some r0" "j < i" for j r0
    using r(3) that by (auto simp: list_ex_iff dest!: map_of_SomeD)
  with True r(1,4) listener_message_Inr [OF r(2)] show thesis by (intro acked [of row]) auto
qed

lemma acquire_start_Inr:
  assumes "listener_acquire_start_tx E fleet context i now db = Inr (x, db')"
  obtains (stale) "x = None" "db' = db" | (go) row where "listener_context_current E fleet context db = Inr True"
    "x = Some (pending_requests fleet (se_epoch context) i db)"
    "map_of (ld_messages db) (fleet, se_epoch context, i) = Some row" "mr_acked row \<noteq> 0"
    "db' = db\<lparr>ld_acquisitions := update_rows
            (\<lambda>(f, e, _) r. f = fleet \<and> e = se_epoch context \<and> ar_message_id r = i \<and> ar_state r = ''Pending'')
            (\<lambda>r. r\<lparr>ar_state := ''AcquireStarting'', ar_updated_at := now\<rparr>) (ld_acquisitions db)\<rparr>"
proof -
  from assms [unfolded listener_acquire_start_tx_def] obtain current where c: "listener_context_current E fleet context db = Inr current"
    and rest: "(if \<not> current then Inr (None, db) else
     and_then (listener_message E fleet context i db) (\<lambda>found.
     and_then (ok_or (StoreCorrupt ''acquisition message not persisted'') found) (\<lambda>row.
     if mr_acked row = 0 then Inl (StoreCorrupt ''acquisition before message ACK'')
     else Inr (Some (pending_requests fleet (se_epoch context) i db),
       db\<lparr>ld_acquisitions := update_rows
            (\<lambda>(f, e, _) r. f = fleet \<and> e = se_epoch context \<and> ar_message_id r = i \<and> ar_state r = ''Pending'')
            (\<lambda>r. r\<lparr>ar_state := ''AcquireStarting'', ar_updated_at := now\<rparr>) (ld_acquisitions db)\<rparr>)))) = Inr (x, db')"
    unfolding and_then_Inr by iprover
  show thesis
  proof (cases current)
    case False
    with rest show thesis by (intro stale) auto
  next
    case True
    with rest obtain row where "listener_message E fleet context i db = Inr (Some row)" "mr_acked row \<noteq> 0"
        "x = Some (pending_requests fleet (se_epoch context) i db)"
        "db' = db\<lparr>ld_acquisitions := update_rows
            (\<lambda>(f, e, _) r. f = fleet \<and> e = se_epoch context \<and> ar_message_id r = i \<and> ar_state r = ''Pending'')
            (\<lambda>r. r\<lparr>ar_state := ''AcquireStarting'', ar_updated_at := now\<rparr>) (ld_acquisitions db)\<rparr>"
      by (auto simp: and_then_Inr ok_or_Inr split: if_splits)
    with c True show thesis using listener_message_Inr by (intro go) fastforce+
  qed
qed

lemma acquire_complete_snd:
  "snd (listener_acquire_complete E fleet context i accepted now db) = db
   \<or> snd (listener_acquire_complete E fleet context i accepted now db) = db\<lparr>ld_acquisitions :=
        fold (settle_acquisition fleet (se_epoch context) accepted now) (acquisitions_of fleet (se_epoch context) i db)
          (ld_acquisitions db)\<rparr>"
  by (auto simp: listener_acquire_complete_def Let_def split: sum.split)

lemma session_end_fields:
  "ld_sessions (listener_session_end f e db) = ld_sessions db"
  "ld_messages (listener_session_end f e db) = ld_messages db"
  "ld_session_auth (listener_session_end f e db) = ld_session_auth db"
  by (simp_all add: listener_session_end_def)

lemma install_Inr:
  assumes "session_install_tx E fleet install now db = Inr (x, db')"
  obtains (stale) "x = None" "db' = db" | (installed) epoch auths where "x = Some epoch"
    "epoch = (case map_of (ld_sessions db) fleet of None \<Rightarrow> 0 | Some s \<Rightarrow> sr_epoch s) + 1"
    "db' = listener_reconcile_old fleet epoch now (demand_snapshot fleet (total_assigned_jobs0 (sh_initial (in_handle install))) now
       ((case map_of (ld_sessions db) fleet of None \<Rightarrow> db | Some s \<Rightarrow> listener_session_end fleet (sr_epoch s) db)
          \<lparr>ld_sessions := AList.update fleet (installed_row install epoch now) (ld_sessions db), ld_session_auth := auths\<rparr>))"
proof (cases x)
  case None
  then have "db' = db"
    using assms by (auto simp: session_install_tx_def and_then_Inr Let_def split: if_splits)
  with None show thesis by (intro stale)
next
  case (Some epoch)
  define previous where "previous = map_option sr_epoch (map_of (ld_sessions db) fleet)"
  define ended where "ended = (case previous of None \<Rightarrow> db | Some e \<Rightarrow> listener_session_end fleet e db)"
  have "checked_add (case previous of None \<Rightarrow> 0 | Some e \<Rightarrow> e) 1 = Some epoch"
    and "db' = listener_reconcile_old fleet epoch now (demand_snapshot fleet (total_assigned_jobs0 (sh_initial (in_handle install))) now
       (ended\<lparr>ld_sessions := AList.update fleet (installed_row install epoch now) (ld_sessions ended),
          ld_session_auth := AList.update fleet (ctx_profile_key (in_auth install), ctx_revision (in_auth install)) (ld_session_auth ended)\<rparr>))"
    using assms Some
    by (auto simp: session_install_tx_def and_then_Inr ok_or_Inr Let_def previous_def [symmetric] ended_def split: if_splits)
  moreover have "ended = (case map_of (ld_sessions db) fleet of None \<Rightarrow> db | Some s \<Rightarrow> listener_session_end fleet (sr_epoch s) db)"
    "(case previous of None \<Rightarrow> 0 | Some e \<Rightarrow> e) = (case map_of (ld_sessions db) fleet of None \<Rightarrow> 0 | Some s \<Rightarrow> sr_epoch s)"
    "ld_sessions ended = ld_sessions db"
    by (auto simp: ended_def previous_def session_end_fields split: option.split)
  ultimately show thesis using Some by (intro installed [of epoch]) (auto simp: checked_add_Some)
qed

lemma clear_Inr:
  assumes "session_clear_tx fleet expected now db = Inr (x, db')"
  obtains (stale) "\<not> x" "db' = db" | (cleared) row auths where "x" "map_of (ld_sessions db) fleet = Some row" "sr_epoch row = expected"
    "db' = (listener_session_end fleet expected db)\<lparr>ld_sessions := AList.update fleet
                 (row\<lparr>sr_epoch := expected + 1, sr_session_id := [], sr_queue_url := None, sr_queue_token := None,
                      sr_last_message_id := 0, sr_created_at := now\<rparr>) (ld_sessions db), ld_session_auth := auths\<rparr>"
proof (cases x)
  case False
  then have "db' = db"
    using assms by (auto simp: session_clear_tx_def and_then_Inr Let_def split: option.splits if_splits)
  with False show thesis by (intro stale)
next
  case True
  with assms obtain row where "map_of (ld_sessions db) fleet = Some row" "sr_epoch row = expected"
    "db' = (listener_session_end fleet expected db)\<lparr>ld_sessions := AList.update fleet
                 (row\<lparr>sr_epoch := expected + 1, sr_session_id := [], sr_queue_url := None, sr_queue_token := None,
                      sr_last_message_id := 0, sr_created_at := now\<rparr>) (ld_sessions db),
        ld_session_auth := AList.delete fleet (ld_session_auth (listener_session_end fleet expected db))\<rparr>"
    by (auto simp: session_clear_tx_def and_then_Inr ok_or_Inr Let_def session_end_fields checked_add_Some
        split: option.splits if_splits)
  with True show thesis by (intro cleared) auto
qed

section \<open>The life of an acquisition\<close>

definition acquisition_state :: "listener_db \<Rightarrow> message_key \<Rightarrow> string option" where
  "acquisition_state db k = map_option ar_state (map_of (ld_acquisitions db) k)"

text \<open>What may become of an acquisition, over any number of steps.\<close>

definition acq_later :: "string \<Rightarrow> string set" where
  "acq_later s =
     (if s = ''Pending'' then UNIV
      else if s = ''AcquireStarting'' then {''AcquireStarting'', ''Acquired'', ''Rejected'', ''Uncertain'', ''ReconciledUncertain''}
      else if s = ''Uncertain'' then {''Acquired'', ''Rejected'', ''Uncertain'', ''ReconciledUncertain''}
      else {s})"

definition acq_reach :: "string option \<Rightarrow> string option \<Rightarrow> bool" where
  "acq_reach a b \<longleftrightarrow> (case a of None \<Rightarrow> True | Some s \<Rightarrow> (\<exists>t\<in>acq_later s. b = Some t))"

lemma acq_later_refl [simp]: "s \<in> acq_later s"
  by (simp add: acq_later_def)

lemma acq_later_trans: "t \<in> acq_later s \<Longrightarrow> u \<in> acq_later t \<Longrightarrow> u \<in> acq_later s"
  by (simp add: acq_later_def split: if_splits)

lemma acq_reach_refl [simp]: "acq_reach a a"
  by (simp add: acq_reach_def split: option.split)

lemma acq_reach_None [simp]: "acq_reach None b"
  by (simp add: acq_reach_def)

lemma acq_reach_Some [simp]: "acq_reach (Some s) (Some t) \<longleftrightarrow> t \<in> acq_later s"
  by (simp add: acq_reach_def)

lemma acq_reach_trans: "acq_reach a b \<Longrightarrow> acq_reach b c \<Longrightarrow> acq_reach a c"
  by (auto simp: acq_reach_def intro: acq_later_trans split: option.splits)

lemma acq_later_pending: "''Pending'' \<in> acq_later s \<longleftrightarrow> s = ''Pending''"
  by (simp add: acq_later_def)

definition acquisitions_keyed :: "listener_db \<Rightarrow> bool" where
  "acquisitions_keyed db \<longleftrightarrow> distinct (map fst (ld_acquisitions db))"

lemma acquisition_state_update:
  "acquisition_state (db\<lparr>ld_acquisitions := update_rows p f (ld_acquisitions db)\<rparr>) k =
     map_option (\<lambda>r. ar_state (if p k r then f r else r)) (map_of (ld_acquisitions db) k)"
  by (simp add: acquisition_state_def option.map_comp comp_def)

lemma reach_session_end: "acq_reach (acquisition_state db k) (acquisition_state (listener_session_end f e db) k)"
  by (cases k; cases "map_of (ld_acquisitions db) k")
    (auto simp: listener_session_end_def acquisition_state_update, auto simp: acquisition_state_def acq_later_def)

lemma reach_reconcile: "acq_reach (acquisition_state db k) (acquisition_state (listener_reconcile_old f e now db) k)"
  by (cases k; cases "map_of (ld_acquisitions db) k")
    (auto simp: listener_reconcile_old_def acquisition_state_update, auto simp: acquisition_state_def acq_later_def)

lemma acquisitions_of_iff:
  assumes "acquisitions_keyed db"
  shows "(request, st) \<in> set (acquisitions_of fleet epoch i db) \<longleftrightarrow>
    (\<exists>r. map_of (ld_acquisitions db) (fleet, epoch, request) = Some r \<and> ar_message_id r = i \<and> ar_state r = st)"
proof -
  have "(request, st) \<in> set (acquisitions_of fleet epoch i db) \<longleftrightarrow>
      (\<exists>r. ((fleet, epoch, request), r) \<in> set (ld_acquisitions db) \<and> ar_message_id r = i \<and> ar_state r = st)"
    by (force simp: acquisitions_of_def set_map_filter split: if_splits)
  with assms show ?thesis by (simp add: acquisitions_keyed_def)
qed

lemma reach_complete:
  assumes "acquisitions_keyed db"
  shows "acq_reach (acquisition_state db k) (acquisition_state (snd (listener_acquire_complete E fleet ctx i accepted now db)) k)"
  using acquire_complete_snd [of E fleet ctx i accepted now db]
proof
  assume s: "snd (listener_acquire_complete E fleet ctx i accepted now db) = db\<lparr>ld_acquisitions :=
        fold (settle_acquisition fleet (se_epoch ctx) accepted now) (acquisitions_of fleet (se_epoch ctx) i db)
          (ld_acquisitions db)\<rparr>"
  obtain f e q where k: "k = (f, e, q)" by (cases k) auto
  show ?thesis
  proof (cases "map_of (ld_acquisitions db) k")
    case (Some r)
    have "ar_state r \<in> {''AcquireStarting'', ''Uncertain''}"
      if "settles fleet (se_epoch ctx) (acquisitions_of fleet (se_epoch ctx) i db) k"
      using that Some acquisitions_of_iff [OF assms] by (auto simp: settles_def k)
    then show ?thesis
      by (auto simp: s acquisition_state_def fold_settle Some acq_later_def acquisition_outcome_def split: option.split)
  qed (simp add: s acquisition_state_def fold_settle)
qed simp

lemma pending_requests_iff:
  assumes "acquisitions_keyed db"
  shows "request \<in> set (pending_requests fleet epoch i db) \<longleftrightarrow>
    (\<exists>r. map_of (ld_acquisitions db) (fleet, epoch, request) = Some r \<and> ar_message_id r = i \<and> ar_state r = ''Pending'')"
proof -
  have "request \<in> set (pending_requests fleet epoch i db) \<longleftrightarrow>
      (\<exists>r. ((fleet, epoch, request), r) \<in> set (ld_acquisitions db) \<and> ar_message_id r = i \<and> ar_state r = ''Pending'')"
    by (force simp: pending_requests_def set_map_filter split: if_splits)
  with assms show ?thesis by (simp add: acquisitions_keyed_def)
qed

lemma distinct_map_filter:
  assumes "distinct (map fst rows)" and "\<And>k r y. g (k, r) = Some y \<Longrightarrow> k = h y"
  shows "distinct (List.map_filter g rows)"
  using assms(1)
proof (induction rows)
  case (Cons a rows)
  obtain k r where a: "a = (k, r)" by fastforce
  have "y \<notin> set (List.map_filter g rows)" if "g (k, r) = Some y" for y
  proof
    assume "y \<in> set (List.map_filter g rows)"
    then obtain k' r' where "(k', r') \<in> set rows" "g (k', r') = Some y" by (auto simp: set_map_filter)
    moreover have "k = h y" "k' = h y" using that calculation(2) assms(2) by blast+
    ultimately have "k \<in> fst ` set rows" by force
    with Cons.prems a show False by simp
  qed
  with Cons a show ?case by (auto simp: map_filter_simps split: option.split)
qed (simp add: map_filter_simps)

lemma distinct_pending:
  assumes "acquisitions_keyed db"
  shows "distinct (pending_requests fleet epoch i db)"
  unfolding pending_requests_def distinct_sort
  by (rule distinct_map_filter [OF assms [unfolded acquisitions_keyed_def], of _ "\<lambda>y. (fleet, epoch, y)"])
    (auto split: if_splits)

lemma step_acquisitions:
  assumes "acquisitions_keyed db"
  shows "acq_reach (acquisition_state db k) (acquisition_state (listener_step E C ev db) k)
    \<and> acquisitions_keyed (listener_step E C ev db)"
proof (cases ev)
  case (Deliver fleet ctx m uuids now)
  show ?thesis
  proof (cases "listener_ingest_tx E C uuids fleet ctx m now db")
    case (Inr r)
    obtain x db' where r: "listener_ingest_tx E C uuids fleet ctx m now db = Inr (x, db')"
      using Inr by (cases r) auto
    then show ?thesis
    proof (cases rule: ingest_Inr)
      case (again digest row)
      then show ?thesis using assms redelivered_Inr(2) [OF again(5)]
        by (auto simp: Deliver listener_ingest_def commit_snd r acquisition_state_def acquisitions_keyed_def)
    next
      case (new digest)
      from new(5) obtain acquisitions where
        "insert_acquisitions fleet (se_epoch ctx) (pm_id m) now (pm_available m) (ld_acquisitions db) = Inr acquisitions"
        "ld_acquisitions db' = acquisitions" by (rule first_delivery_Inr) simp
      with insert_acquisitions_Inr [OF this(1)] assms show ?thesis
        by (auto simp: Deliver listener_ingest_def commit_snd r acquisition_state_def acquisitions_keyed_def
            split: option.splits)
    qed (use assms in \<open>simp add: Deliver listener_ingest_def commit_snd r\<close>)
  qed (use assms in \<open>simp add: Deliver listener_ingest_def commit_snd\<close>)
next
  case (ConfirmDemand fleet ctx now)
  show ?thesis using assms confirmed_Inr(1) [of E fleet ctx now db]
    by (auto simp: ConfirmDemand listener_demand_confirmed_def commit_snd acquisition_state_def acquisitions_keyed_def
        split: sum.split prod.split)
next
  case (Acknowledge fleet ctx i now)
  show ?thesis using assms
    by (auto simp: Acknowledge listener_acknowledge_def commit_snd acquisition_state_def acquisitions_keyed_def
        split: sum.split prod.split elim!: acknowledge_Inr)
next
  case (AcquireStart fleet ctx i now)
  show ?thesis
  proof (cases "listener_acquire_start_tx E fleet ctx i now db")
    case (Inr r)
    obtain x db' where r: "listener_acquire_start_tx E fleet ctx i now db = Inr (x, db')"
      using Inr by (cases r) auto
    then show ?thesis
    proof (cases rule: acquire_start_Inr)
      case (go row)
      have "acq_reach (acquisition_state db k) (acquisition_state db' k)"
        by (cases k; cases "map_of (ld_acquisitions db) k")
          (auto simp: go(5) acquisition_state_update, auto simp: acquisition_state_def acq_later_def)
      with assms show ?thesis
        by (simp add: AcquireStart listener_acquire_start_def commit_snd r acquisitions_keyed_def go(5))
    qed (use assms in \<open>simp add: AcquireStart listener_acquire_start_def commit_snd r\<close>)
  qed (use assms in \<open>simp add: AcquireStart listener_acquire_start_def commit_snd\<close>)
next
  case (AcquireComplete fleet ctx i accepted now)
  show ?thesis using reach_complete [OF assms] acquire_complete_snd [of E fleet ctx i accepted now db] assms
    by (auto simp: AcquireComplete acquisitions_keyed_def)
next
  case (InstallSession fleet install now)
  show ?thesis
  proof (cases "session_install_tx E fleet install now db")
    case (Inr r)
    obtain x db' where r: "session_install_tx E fleet install now db = Inr (x, db')"
      using Inr by (cases r) auto
    then show ?thesis
    proof (cases rule: install_Inr)
      case (installed epoch auths)
      define ended where "ended = (case map_of (ld_sessions db) fleet of None \<Rightarrow> db | Some s \<Rightarrow> listener_session_end fleet (sr_epoch s) db)"
      define mid where "mid = demand_snapshot fleet (total_assigned_jobs0 (sh_initial (in_handle install))) now
        (ended\<lparr>ld_sessions := AList.update fleet (installed_row install epoch now) (ld_sessions db), ld_session_auth := auths\<rparr>)"
      have db': "db' = listener_reconcile_old fleet epoch now mid" using installed(3) by (simp add: mid_def ended_def)
      have "acq_reach (acquisition_state db k) (acquisition_state mid k)"
        using reach_session_end by (simp add: mid_def ended_def demand_snapshot_def acquisition_state_def split: option.split)
      from acq_reach_trans [OF this reach_reconcile] have "acq_reach (acquisition_state db k) (acquisition_state db' k)"
        by (simp add: db')
      moreover have "acquisitions_keyed db'"
        using assms by (simp add: db' mid_def ended_def listener_reconcile_old_def demand_snapshot_def listener_session_end_def
            acquisitions_keyed_def split: option.split)
      ultimately show ?thesis by (simp add: InstallSession session_install_def commit_snd r)
    qed (use assms in \<open>simp add: InstallSession session_install_def commit_snd r\<close>)
  qed (use assms in \<open>simp add: InstallSession session_install_def commit_snd\<close>)
next
  case (ClearSession fleet expected now)
  show ?thesis
  proof (cases "session_clear_tx fleet expected now db")
    case (Inr r)
    obtain x db' where r: "session_clear_tx fleet expected now db = Inr (x, db')"
      using Inr by (cases r) auto
    then show ?thesis
    proof (cases rule: clear_Inr)
      case (cleared row auths)
      have "acquisition_state db' k = acquisition_state (listener_session_end fleet expected db) k"
        by (simp add: cleared(4) acquisition_state_def)
      with reach_session_end [of db k fleet expected] assms show ?thesis
        by (simp add: ClearSession session_clear_def commit_snd r)
          (simp add: cleared(4) listener_session_end_def acquisitions_keyed_def)
    qed (use assms in \<open>simp add: ClearSession session_clear_def commit_snd r\<close>)
  qed (use assms in \<open>simp add: ClearSession session_clear_def commit_snd\<close>)
qed (use assms in \<open>simp_all add: demand_snapshot_def acquisition_state_def acquisitions_keyed_def\<close>)

lemma started_by_pending:
  assumes "acquisitions_keyed db"
  shows "distinct (started_by E ev db)"
    and "k \<in> set (started_by E ev db) \<Longrightarrow> acquisition_state db k = Some ''Pending''
      \<and> acquisition_state (listener_step E C ev db) k = Some ''AcquireStarting''"
proof -
  have "distinct (started_by E ev db) \<and> (k \<in> set (started_by E ev db) \<longrightarrow> acquisition_state db k = Some ''Pending''
      \<and> acquisition_state (listener_step E C ev db) k = Some ''AcquireStarting'')"
  proof (cases ev)
    case (AcquireStart fleet ctx i now)
    show ?thesis
    proof (cases "listener_acquire_start_tx E fleet ctx i now db")
      case (Inr r)
      obtain x db' where r: "listener_acquire_start_tx E fleet ctx i now db = Inr (x, db')"
        using Inr by (cases r) auto
      then show ?thesis
      proof (cases rule: acquire_start_Inr)
        case (go row)
        have ids: "started_by E ev db = map (\<lambda>request. (fleet, se_epoch ctx, request)) (pending_requests fleet (se_epoch ctx) i db)"
          using r go(2) by (simp add: AcquireStart listener_acquire_start_def commit_def)
        have after: "listener_step E C ev db = db'" using r by (simp add: AcquireStart listener_acquire_start_def commit_def)
        show ?thesis
          using distinct_pending [OF assms] pending_requests_iff [OF assms]
          by (auto simp: ids after distinct_map inj_on_def go(5) acquisition_state_update) (auto simp: acquisition_state_def)
      qed (use r in \<open>simp add: AcquireStart listener_acquire_start_def commit_def\<close>)
    qed (simp add: AcquireStart listener_acquire_start_def commit_def)
  qed simp_all
  then show "distinct (started_by E ev db)"
    and "k \<in> set (started_by E ev db) \<Longrightarrow> acquisition_state db k = Some ''Pending''
      \<and> acquisition_state (listener_step E C ev db) k = Some ''AcquireStarting''"
    by blast+
qed

lemma run_acquisitions:
  assumes "acquisitions_keyed db"
  shows "acq_reach (acquisition_state db k) (acquisition_state (run_listener E C es db) k)
    \<and> acquisitions_keyed (run_listener E C es db)"
  using assms
proof (induction es arbitrary: db)
  case (Cons ev es)
  from Cons.IH step_acquisitions [OF Cons.prems] show ?case
    by (metis acq_reach_trans run_listener_simps(2))
qed simp

lemma started_pending:
  assumes "acquisitions_keyed db"
  shows "distinct (started E C es db)
    \<and> (\<forall>k\<in>set (started E C es db). acquisition_state db k = None \<or> acquisition_state db k = Some ''Pending'')"
  using assms
proof (induction es arbitrary: db)
  case (Cons ev es)
  let ?db = "listener_step E C ev db"
  have keyed: "acquisitions_keyed ?db" using step_acquisitions [OF Cons.prems] by blast
  note rest = Cons.IH [OF keyed] and head = started_by_pending [OF Cons.prems, where ev = ev and E = E]
  have "acquisition_state db k = None \<or> acquisition_state db k = Some ''Pending''" if "k \<in> set (started E C es ?db)" for k
  proof -
    have "acquisition_state ?db k = None \<or> acquisition_state ?db k = Some ''Pending''" using rest that by blast
    moreover have "acq_reach (acquisition_state db k) (acquisition_state ?db k)" using step_acquisitions [OF Cons.prems] by blast
    ultimately show ?thesis by (auto simp: acq_reach_def acq_later_pending split: option.splits)
  qed
  moreover have "set (started_by E ev db) \<inter> set (started E C es ?db) = {}"
  proof (rule ccontr)
    assume "set (started_by E ev db) \<inter> set (started E C es ?db) \<noteq> {}"
    then obtain k where k: "k \<in> set (started_by E ev db)" "k \<in> set (started E C es ?db)" by blast
    from head(2) [OF k(1)] have "acquisition_state ?db k = Some ''AcquireStarting''" by blast
    with rest k(2) show False by force
  qed
  ultimately show ?case using rest head by auto
qed simp

section \<open>Messages, epochs and checkpoints\<close>

definition message_of :: "listener_db \<Rightarrow> message_key \<Rightarrow> message_row option" where
  "message_of db k = map_of (ld_messages db) k"

definition message_acked :: "listener_db \<Rightarrow> message_key \<Rightarrow> bool" where
  "message_acked db k \<longleftrightarrow> (\<exists>r. message_of db k = Some r \<and> mr_acked r \<noteq> 0)"

definition session_of :: "listener_db \<Rightarrow> string \<Rightarrow> session_row option" where
  "session_of db f = map_of (ld_sessions db) f"

definition acquisition_of :: "listener_db \<Rightarrow> message_key \<Rightarrow> acquisition_row option" where
  "acquisition_of db k = map_of (ld_acquisitions db) k"

definition waiting :: "acquisition_row \<Rightarrow> bool" where
  "waiting a \<longleftrightarrow> ar_state a \<in> {''Pending'', ''Cancelled''}"

text \<open>The acquisitions after a step come from those before it, and leave only after the acknowledgement.\<close>

definition acquisitions_follow :: "listener_db \<Rightarrow> listener_db \<Rightarrow> bool" where
  "acquisitions_follow db db' \<longleftrightarrow>
     (\<forall>f e q a'. acquisition_of db' (f, e, q) = Some a' \<longrightarrow>
        (\<exists>a. acquisition_of db (f, e, q) = Some a \<and> ar_message_id a' = ar_message_id a
           \<and> (waiting a' \<or> \<not> waiting a \<or> message_acked db (f, e, ar_message_id a))))"

lemma follow_same: "ld_acquisitions db' = ld_acquisitions db \<Longrightarrow> acquisitions_follow db db'"
  by (auto simp: acquisitions_follow_def acquisition_of_def)

lemma follow_trans:
  assumes "acquisitions_follow db db1" "ld_messages db1 = ld_messages db" "acquisitions_follow db1 db2"
  shows "acquisitions_follow db db2"
  unfolding acquisitions_follow_def
proof (intro allI impI)
  fix f e q a2 assume "acquisition_of db2 (f, e, q) = Some a2"
  with assms(3) obtain a1 where a1: "acquisition_of db1 (f, e, q) = Some a1" "ar_message_id a2 = ar_message_id a1"
    "waiting a2 \<or> \<not> waiting a1 \<or> message_acked db1 (f, e, ar_message_id a1)"
    unfolding acquisitions_follow_def by blast
  from assms(1) a1(1) obtain a where a: "acquisition_of db (f, e, q) = Some a" "ar_message_id a1 = ar_message_id a"
    "waiting a1 \<or> \<not> waiting a \<or> message_acked db (f, e, ar_message_id a)"
    unfolding acquisitions_follow_def by blast
  have "message_acked db1 k = message_acked db k" for k by (simp add: message_acked_def message_of_def assms(2))
  with a a1 show "\<exists>a. acquisition_of db (f, e, q) = Some a \<and> ar_message_id a2 = ar_message_id a
      \<and> (waiting a2 \<or> \<not> waiting a \<or> message_acked db (f, e, ar_message_id a))" by auto
qed

lemma follow_update:
  assumes "\<And>f e q a. p (f, e, q) a \<Longrightarrow> ar_message_id (g a) = ar_message_id a
      \<and> (waiting (g a) \<or> \<not> waiting a \<or> message_acked db (f, e, ar_message_id a))"
    and "ld_acquisitions db' = update_rows p g (ld_acquisitions db)"
  shows "acquisitions_follow db db'"
  using assms by (auto simp: acquisitions_follow_def acquisition_of_def)

lemma follow_session_end: "acquisitions_follow db (listener_session_end f e db)"
  by (rule follow_update) (auto simp: listener_session_end_def waiting_def)

lemma follow_reconcile: "acquisitions_follow db (listener_reconcile_old f e now db)"
  by (rule follow_update) (auto simp: listener_reconcile_old_def waiting_def)

lemma follow_complete:
  assumes "acquisitions_keyed db"
  shows "acquisitions_follow db (snd (listener_acquire_complete E fleet ctx i accepted now db))"
  using acquire_complete_snd [of E fleet ctx i accepted now db]
proof
  assume s: "snd (listener_acquire_complete E fleet ctx i accepted now db) = db\<lparr>ld_acquisitions :=
        fold (settle_acquisition fleet (se_epoch ctx) accepted now) (acquisitions_of fleet (se_epoch ctx) i db)
          (ld_acquisitions db)\<rparr>"
  have "\<not> waiting a" if "map_of (ld_acquisitions db) k = Some a"
      "settles fleet (se_epoch ctx) (acquisitions_of fleet (se_epoch ctx) i db) k" for k a
    using that acquisitions_of_iff [OF assms] by (cases k) (auto simp: settles_def waiting_def)
  then show ?thesis
    by (auto simp: s acquisitions_follow_def acquisition_of_def fold_settle)
qed (simp add: follow_same)

text \<open>The four ways a step touches messages and sessions.\<close>

definition keeps_acks :: "listener_db \<Rightarrow> listener_db \<Rightarrow> bool" where
  "keeps_acks db db' \<longleftrightarrow> (\<forall>k. map_option mr_acked (message_of db' k) = map_option mr_acked (message_of db k))"

definition acknowledges :: "string \<Rightarrow> int \<Rightarrow> int \<Rightarrow> listener_db \<Rightarrow> listener_db \<Rightarrow> bool" where
  "acknowledges f e i db db' \<longleftrightarrow>
     (\<exists>s. session_of db f = Some s \<and> sr_epoch s = e
        \<and> (\<forall>g. session_of db' g = (if g = f then Some (s\<lparr>sr_last_message_id := max (sr_last_message_id s) i\<rparr>) else session_of db g)))
     \<and> message_of db (f, e, i) \<noteq> None
     \<and> (\<forall>k. message_of db' k \<noteq> None \<longleftrightarrow> message_of db k \<noteq> None)
     \<and> (\<forall>k. message_acked db' k \<longleftrightarrow> k = (f, e, i) \<or> message_acked db k)
     \<and> (\<forall>j. j < i \<longrightarrow> message_of db (f, e, j) \<noteq> None \<longrightarrow> message_acked db (f, e, j))"

definition delivers :: "string \<Rightarrow> int \<Rightarrow> int \<Rightarrow> listener_db \<Rightarrow> listener_db \<Rightarrow> bool" where
  "delivers f e i db db' \<longleftrightarrow> 0 < i \<and> ld_sessions db' = ld_sessions db
     \<and> (\<exists>s. session_of db f = Some s \<and> sr_epoch s = e)
     \<and> (\<forall>j. message_of db (f, e, j) \<noteq> None \<longrightarrow> j < i)
     \<and> (\<forall>k. message_of db' k \<noteq> None \<longleftrightarrow> k = (f, e, i) \<or> message_of db k \<noteq> None)
     \<and> (\<forall>k. message_acked db' k \<longleftrightarrow> message_acked db k)"

definition supersedes :: "string \<Rightarrow> listener_db \<Rightarrow> listener_db \<Rightarrow> bool" where
  "supersedes f db db' \<longleftrightarrow> ld_messages db' = ld_messages db
     \<and> (\<exists>s. (\<forall>g. session_of db' g = (if g = f then Some s else session_of db g)) \<and> sr_last_message_id s = 0
          \<and> (\<forall>old. session_of db f = Some old \<longrightarrow> sr_epoch s = sr_epoch old + 1))"

lemma keeps_acks_same: "ld_messages db' = ld_messages db \<Longrightarrow> keeps_acks db db'"
  by (simp add: keeps_acks_def message_of_def)

lemma keeps_acksD:
  assumes "keeps_acks db db'"
  shows "message_acked db' k \<longleftrightarrow> message_acked db k" "message_of db' k \<noteq> None \<longleftrightarrow> message_of db k \<noteq> None"
  using assms [unfolded keeps_acks_def, rule_format, of k]
  by (cases "message_of db k"; cases "message_of db' k"; auto simp: message_acked_def)+

lemma context_session:
  "listener_context_current E f ctx db = Inr True \<Longrightarrow> \<exists>s. session_of db f = Some s \<and> sr_epoch s = se_epoch ctx"
  using context_current_True by (fastforce simp: session_of_def)

definition adds_waiting :: "string \<Rightarrow> int \<Rightarrow> int \<Rightarrow> listener_db \<Rightarrow> listener_db \<Rightarrow> bool" where
  "adds_waiting f e i db db' \<longleftrightarrow>
     (\<forall>k a'. acquisition_of db' k = Some a' \<longrightarrow> acquisition_of db k = Some a'
        \<or> (waiting a' \<and> fst k = f \<and> fst (snd k) = e \<and> ar_message_id a' = i))"

definition step_effect :: "listener_db \<Rightarrow> listener_db \<Rightarrow> bool" where
  "step_effect db db' \<longleftrightarrow>
     (ld_sessions db' = ld_sessions db \<and> keeps_acks db db' \<and> acquisitions_follow db db')
     \<or> (\<exists>f e i. acknowledges f e i db db' \<and> acquisitions_follow db db')
     \<or> (\<exists>f e i. delivers f e i db db' \<and> adds_waiting f e i db db')
     \<or> (\<exists>f. supersedes f db db' \<and> acquisitions_follow db db')"

lemma effect_quiet:
  "ld_sessions db' = ld_sessions db \<Longrightarrow> ld_messages db' = ld_messages db \<Longrightarrow> acquisitions_follow db db' \<Longrightarrow> step_effect db db'"
  by (simp add: step_effect_def keeps_acks_same)

lemma effect_same [simp]: "step_effect db db"
  by (simp add: effect_quiet follow_same)

lemma effect_ingest:
  assumes "listener_ingest_tx E C uuids fleet ctx m now db = Inr (x, db')"
  shows "step_effect db db'"
  using assms
proof (cases rule: ingest_Inr)
  case (again digest row)
  from redelivered_Inr(2) [OF again(5)] show ?thesis
  proof
    assume "mr_digest_version row = 1 \<and> digest_legacy E C m = Inr (mr_digest row)
      \<and> (\<exists>js rows. db' = db\<lparr>ld_jobs := js, ld_facts := rows, ld_messages := update_rows
            (\<lambda>k r. k = (fleet, se_epoch ctx, pm_id m) \<and> mr_digest_version r = 1)
            (\<lambda>r. r\<lparr>mr_digest := digest, mr_digest_version := 2\<rparr>) (ld_messages db)\<rparr>)"
    then obtain js rows where db': "db' = db\<lparr>ld_jobs := js, ld_facts := rows, ld_messages := update_rows
            (\<lambda>k r. k = (fleet, se_epoch ctx, pm_id m) \<and> mr_digest_version r = 1)
            (\<lambda>r. r\<lparr>mr_digest := digest, mr_digest_version := 2\<rparr>) (ld_messages db)\<rparr>" by blast
    have "keeps_acks db db'"
      by (auto simp: keeps_acks_def db' message_of_def option.map_comp comp_def intro!: option.map_cong0)
    then show ?thesis by (simp add: step_effect_def db' follow_same)
  qed simp
next
  case (new digest)
  obtain s where s: "session_of db fleet = Some s" "sr_epoch s = se_epoch ctx" using context_session [OF new(1)] by blast
  from new(5) obtain row acquisitions where d:
    "insert_acquisitions fleet (se_epoch ctx) (pm_id m) now (pm_available m) (ld_acquisitions db) = Inr acquisitions"
    "\<And>i. map_of (ld_messages db) (fleet, se_epoch ctx, i) \<noteq> None \<Longrightarrow> i < pm_id m"
    "ld_messages db' = ((fleet, se_epoch ctx, pm_id m), row) # ld_messages db" "mr_acked row = 0"
    "ld_acquisitions db' = acquisitions" "ld_sessions db' = ld_sessions db"
    by (rule first_delivery_Inr) (simp add: new_message_row_def)
  have none: "map_of (ld_messages db) (fleet, se_epoch ctx, pm_id m) = None"
    using d(2) [of "pm_id m"] by (cases "map_of (ld_messages db) (fleet, se_epoch ctx, pm_id m)") auto
  have "delivers fleet (se_epoch ctx) (pm_id m) db db'"
    using new(2) s d none by (auto simp: delivers_def message_of_def message_acked_def)
  moreover have "adds_waiting fleet (se_epoch ctx) (pm_id m) db db'"
    using insert_acquisitions_Inr(1) [OF d(1)]
    by (auto simp: adds_waiting_def acquisition_of_def d(5) waiting_def split: option.splits if_splits)
  ultimately show ?thesis unfolding step_effect_def by blast
qed simp

lemma effect_acknowledge:
  assumes "listener_acknowledge_tx E fleet ctx i now db = Inr (x, db')"
  shows "step_effect db db'"
  using assms
proof (cases rule: acknowledge_Inr)
  case (acked row)
  obtain s where s: "session_of db fleet = Some s" "sr_epoch s = se_epoch ctx" using context_session [OF acked(2)] by blast
  have "acknowledges fleet (se_epoch ctx) i db db'"
    unfolding acknowledges_def
  proof (intro conjI)
    show "\<exists>s. session_of db fleet = Some s \<and> sr_epoch s = se_epoch ctx
        \<and> (\<forall>g. session_of db' g = (if g = fleet then Some (s\<lparr>sr_last_message_id := max (sr_last_message_id s) i\<rparr>) else session_of db g))"
      using s by (auto simp: acked(5) session_of_def option.map_ident)
    show "\<forall>k. message_acked db' k \<longleftrightarrow> k = (fleet, se_epoch ctx, i) \<or> message_acked db k"
    proof
      fix k show "message_acked db' k \<longleftrightarrow> k = (fleet, se_epoch ctx, i) \<or> message_acked db k"
        using acked(3) by (cases "k = (fleet, se_epoch ctx, i)") (auto simp: acked(5) message_acked_def message_of_def)
    qed
    show "\<forall>j. j < i \<longrightarrow> message_of db (fleet, se_epoch ctx, j) \<noteq> None \<longrightarrow> message_acked db (fleet, se_epoch ctx, j)"
      using acked(4) by (auto simp: message_acked_def message_of_def)
  qed (use acked(3) in \<open>simp_all add: acked(5) message_of_def\<close>)
  moreover have "acquisitions_follow db db'" by (simp add: acked(5) follow_same)
  ultimately show ?thesis unfolding step_effect_def by blast
qed simp

lemma effect_start:
  assumes "listener_acquire_start_tx E fleet ctx i now db = Inr (x, db')"
  shows "step_effect db db'"
  using assms
proof (cases rule: acquire_start_Inr)
  case (go row)
  have "message_acked db (fleet, se_epoch ctx, i)" using go(3,4) by (simp add: message_acked_def message_of_def)
  then have "acquisitions_follow db db'"
    by (intro follow_update) (auto simp: go(5))
  then show ?thesis by (intro effect_quiet) (simp_all add: go(5))
qed simp

lemma effect_install:
  assumes "session_install_tx E fleet install now db = Inr (x, db')"
  shows "step_effect db db'"
  using assms
proof (cases rule: install_Inr)
  case (installed epoch auths)
  define ended where "ended = (case map_of (ld_sessions db) fleet of None \<Rightarrow> db | Some s \<Rightarrow> listener_session_end fleet (sr_epoch s) db)"
  define mid where "mid = demand_snapshot fleet (total_assigned_jobs0 (sh_initial (in_handle install))) now
    (ended\<lparr>ld_sessions := AList.update fleet (installed_row install epoch now) (ld_sessions db), ld_session_auth := auths\<rparr>)"
  have db': "db' = listener_reconcile_old fleet epoch now mid" using installed(3) by (simp add: mid_def ended_def)
  have msgs: "ld_messages ended = ld_messages db" by (simp add: ended_def session_end_fields split: option.split)
  have "acquisitions_follow db ended" by (simp add: ended_def follow_session_end follow_same split: option.split)
  moreover have "acquisitions_follow ended mid" by (rule follow_same) (simp add: mid_def demand_snapshot_def)
  moreover have "ld_messages mid = ld_messages db" by (simp add: mid_def demand_snapshot_def msgs)
  ultimately have "acquisitions_follow db db'"
    unfolding db' using msgs follow_reconcile by (metis follow_trans)
  moreover have "supersedes fleet db db'"
    using installed(2)
    by (auto simp: supersedes_def db' listener_reconcile_old_def mid_def demand_snapshot_def msgs session_of_def installed_row_def
        intro!: exI [of _ "installed_row install epoch now"])
  ultimately show ?thesis unfolding step_effect_def by blast
qed simp

lemma effect_clear:
  assumes "session_clear_tx fleet expected now db = Inr (x, db')"
  shows "step_effect db db'"
  using assms
proof (cases rule: clear_Inr)
  case (cleared row auths)
  have "acquisitions_follow db db'"
    using follow_session_end [of db fleet expected] by (simp add: cleared(4) acquisitions_follow_def acquisition_of_def)
  moreover have "supersedes fleet db db'"
    using cleared(2,3) by (auto simp: supersedes_def cleared(4) session_of_def session_end_fields)
  ultimately show ?thesis unfolding step_effect_def by blast
qed simp

lemma step_effects:
  assumes "acquisitions_keyed db"
  shows "step_effect db (listener_step E C ev db)"
proof (cases ev)
  case (AcquireComplete fleet ctx i accepted now)
  have "listener_step E C ev db = snd (listener_acquire_complete E fleet ctx i accepted now db)" by (simp add: AcquireComplete)
  moreover have "step_effect db (snd (listener_acquire_complete E fleet ctx i accepted now db))"
    using acquire_complete_snd [of E fleet ctx i accepted now db]
    by (intro effect_quiet follow_complete [OF assms]) auto
  ultimately show ?thesis by simp
next
  case (ConfirmDemand fleet ctx now)
  then show ?thesis using confirmed_Inr(1) [of E fleet ctx now db]
    by (auto simp: listener_demand_confirmed_def commit_snd intro!: effect_quiet follow_same split: sum.split prod.split)
next
  case (SnapshotDemand fleet amount now)
  then show ?thesis by (auto simp: demand_snapshot_def intro!: effect_quiet follow_same)
next
  case (Elsewhere l handoffs contexts revisions retained js fs outbox)
  then show ?thesis by (auto intro!: effect_quiet follow_same)
qed (auto simp: commit_snd listener_ingest_def listener_acknowledge_def listener_acquire_start_def session_install_def
      session_clear_def intro: effect_ingest effect_acknowledge effect_start effect_install effect_clear
      split: sum.split prod.split)

section \<open>The invariant\<close>

definition listener_inv :: "listener_db \<Rightarrow> bool" where
  "listener_inv db \<longleftrightarrow> acquisitions_keyed db
     \<and> (\<forall>f e i j. message_acked db (f, e, i) \<longrightarrow> j < i \<longrightarrow> message_of db (f, e, j) \<noteq> None \<longrightarrow> message_acked db (f, e, j))
     \<and> (\<forall>f e q a. acquisition_of db (f, e, q) = Some a \<longrightarrow> waiting a \<or> message_acked db (f, e, ar_message_id a))
     \<and> (\<forall>f e i. message_of db (f, e, i) \<noteq> None \<longrightarrow> 0 < i \<and> (\<exists>s. session_of db f = Some s \<and> e \<le> sr_epoch s))
     \<and> (\<forall>f s i. session_of db f = Some s \<longrightarrow> message_acked db (f, sr_epoch s, i) \<longrightarrow> i \<le> sr_last_message_id s)
     \<and> (\<forall>f s. session_of db f = Some s \<longrightarrow> sr_last_message_id s = 0 \<or> message_acked db (f, sr_epoch s, sr_last_message_id s))"

lemma listener_invI:
  assumes "acquisitions_keyed db"
    and "\<And>f e i j. message_acked db (f, e, i) \<Longrightarrow> j < i \<Longrightarrow> message_of db (f, e, j) \<noteq> None \<Longrightarrow> message_acked db (f, e, j)"
    and "\<And>f e q a. acquisition_of db (f, e, q) = Some a \<Longrightarrow> waiting a \<or> message_acked db (f, e, ar_message_id a)"
    and "\<And>f e i. message_of db (f, e, i) \<noteq> None \<Longrightarrow> 0 < i \<and> (\<exists>s. session_of db f = Some s \<and> e \<le> sr_epoch s)"
    and "\<And>f s i. session_of db f = Some s \<Longrightarrow> message_acked db (f, sr_epoch s, i) \<Longrightarrow> i \<le> sr_last_message_id s"
    and "\<And>f s. session_of db f = Some s \<Longrightarrow> sr_last_message_id s = 0 \<or> message_acked db (f, sr_epoch s, sr_last_message_id s)"
  shows "listener_inv db"
  unfolding listener_inv_def using assms by blast

lemma listener_invD:
  assumes "listener_inv db"
  shows "acquisitions_keyed db"
    and "message_acked db (f, e, i) \<Longrightarrow> j < i \<Longrightarrow> message_of db (f, e, j) \<noteq> None \<Longrightarrow> message_acked db (f, e, j)"
    and "acquisition_of db (f, e, q) = Some a \<Longrightarrow> waiting a \<or> message_acked db (f, e, ar_message_id a)"
    and "message_of db (f, e, i) \<noteq> None \<Longrightarrow> 0 < i"
    and "message_of db (f, e, i) \<noteq> None \<Longrightarrow> \<exists>s. session_of db f = Some s \<and> e \<le> sr_epoch s"
    and "session_of db f = Some s \<Longrightarrow> message_acked db (f, sr_epoch s, i) \<Longrightarrow> i \<le> sr_last_message_id s"
    and "session_of db f = Some s \<Longrightarrow> sr_last_message_id s = 0 \<or> message_acked db (f, sr_epoch s, sr_last_message_id s)"
  using assms unfolding listener_inv_def by blast+

lemma acked_stored: "message_acked db k \<Longrightarrow> message_of db k \<noteq> None"
  by (auto simp: message_acked_def)

lemma follow_inv:
  assumes "acquisitions_follow db db'" "listener_inv db" "\<And>k. message_acked db k \<Longrightarrow> message_acked db' k"
  shows "acquisition_of db' (f, e, q) = Some a' \<Longrightarrow> waiting a' \<or> message_acked db' (f, e, ar_message_id a')"
  using assms listener_invD(3) unfolding acquisitions_follow_def by (metis (no_types, lifting))

lemma inv_quiet:
  assumes inv: "listener_inv db" and keyed: "acquisitions_keyed db'" and s: "ld_sessions db' = ld_sessions db"
    and k: "keeps_acks db db'" and f: "acquisitions_follow db db'"
  shows "listener_inv db'"
proof (rule listener_invI)
  note same = keeps_acksD [OF k]
  have sessions: "session_of db' g = session_of db g" for g by (simp add: session_of_def s)
  show "waiting a \<or> message_acked db' (f, e, ar_message_id a)" if "acquisition_of db' (f, e, q) = Some a" for f e q a
    using follow_inv [OF f inv _ that] same by blast
  show "message_acked db' (f, e, i) \<Longrightarrow> j < i \<Longrightarrow> message_of db' (f, e, j) \<noteq> None \<Longrightarrow> message_acked db' (f, e, j)" for f e i j
    using listener_invD(2) [OF inv] by (simp only: same)
  show "message_of db' (f, e, i) \<noteq> None \<Longrightarrow> 0 < i \<and> (\<exists>s. session_of db' f = Some s \<and> e \<le> sr_epoch s)" for f e i
    using listener_invD(4,5) [OF inv] by (simp only: same sessions)
  show "session_of db' f = Some s \<Longrightarrow> message_acked db' (f, sr_epoch s, i) \<Longrightarrow> i \<le> sr_last_message_id s" for f s i
    using listener_invD(6) [OF inv] by (simp only: same sessions)
  show "session_of db' f = Some s \<Longrightarrow> sr_last_message_id s = 0 \<or> message_acked db' (f, sr_epoch s, sr_last_message_id s)" for f s
    using listener_invD(7) [OF inv] by (simp only: same sessions)
qed (rule keyed)

lemma inv_acknowledges:
  assumes inv: "listener_inv db" and keyed: "acquisitions_keyed db'"
    and k: "acknowledges f e i db db'" and fo: "acquisitions_follow db db'"
  shows "listener_inv db'"
proof -
  from k obtain s where s: "session_of db f = Some s" "sr_epoch s = e"
      "\<And>g. session_of db' g = (if g = f then Some (s\<lparr>sr_last_message_id := max (sr_last_message_id s) i\<rparr>) else session_of db g)"
    and i: "message_of db (f, e, i) \<noteq> None"
    and stored: "\<And>k. message_of db' k \<noteq> None \<longleftrightarrow> message_of db k \<noteq> None"
    and acked: "\<And>k. message_acked db' k \<longleftrightarrow> k = (f, e, i) \<or> message_acked db k"
    and below: "\<And>j. j < i \<Longrightarrow> message_of db (f, e, j) \<noteq> None \<Longrightarrow> message_acked db (f, e, j)"
    unfolding acknowledges_def by blast
  show ?thesis
  proof (rule listener_invI)
    show "waiting a \<or> message_acked db' (f', e', ar_message_id a)" if "acquisition_of db' (f', e', q) = Some a" for f' e' q a
      using follow_inv [OF fo inv _ that] acked by blast
    show "message_acked db' (f', e', j)"
      if "message_acked db' (f', e', i')" "j < i'" "message_of db' (f', e', j) \<noteq> None" for f' e' i' j
      using that below listener_invD(2) [OF inv, of f' e' i' j] unfolding acked stored by blast
    show "0 < i' \<and> (\<exists>s. session_of db' f' = Some s \<and> e' \<le> sr_epoch s)" if "message_of db' (f', e', i') \<noteq> None" for f' e' i'
      using listener_invD(4,5) [OF inv that [unfolded stored]] s by (auto simp: s(3))
    show "j \<le> sr_last_message_id t" if "session_of db' f' = Some t" "message_acked db' (f', sr_epoch t, j)" for f' t j
    proof (cases "f' = f")
      case True
      with that(1) s have t: "t = s\<lparr>sr_last_message_id := max (sr_last_message_id s) i\<rparr>" by simp
      show ?thesis using that(2) listener_invD(6) [OF inv s(1), of j] True unfolding acked by (auto simp: t s(2))
    next
      case False
      with that listener_invD(6) [OF inv, of f' t j] show ?thesis unfolding acked by (auto simp: s(3))
    qed
    show "sr_last_message_id t = 0 \<or> message_acked db' (f', sr_epoch t, sr_last_message_id t)" if "session_of db' f' = Some t" for f' t
    proof (cases "f' = f")
      case True
      with that s have t: "t = s\<lparr>sr_last_message_id := max (sr_last_message_id s) i\<rparr>" by simp
      show ?thesis using listener_invD(7) [OF inv s(1)] listener_invD(4) [OF inv i] True unfolding acked
        by (auto simp: t s(2) max_def)
    next
      case False
      with that listener_invD(7) [OF inv, of f' t] show ?thesis unfolding acked by (auto simp: s(3))
    qed
  qed (rule keyed)
qed

lemma inv_delivers:
  assumes inv: "listener_inv db" and keyed: "acquisitions_keyed db'"
    and d: "delivers f e i db db'" and w: "adds_waiting f e i db db'"
  shows "listener_inv db'"
proof -
  from d obtain s where s: "session_of db f = Some s" "sr_epoch s = e" and i: "0 < i"
    and same: "ld_sessions db' = ld_sessions db"
    and last: "\<And>j. message_of db (f, e, j) \<noteq> None \<Longrightarrow> j < i"
    and stored: "\<And>k. message_of db' k \<noteq> None \<longleftrightarrow> k = (f, e, i) \<or> message_of db k \<noteq> None"
    and acked: "\<And>k. message_acked db' k \<longleftrightarrow> message_acked db k"
    unfolding delivers_def by blast
  have sessions: "session_of db' g = session_of db g" for g by (simp add: session_of_def same)
  show ?thesis
  proof (rule listener_invI)
    show "waiting a \<or> message_acked db' (f', e', ar_message_id a)" if "acquisition_of db' (f', e', q) = Some a" for f' e' q a
      using w [unfolded adds_waiting_def] that listener_invD(3) [OF inv] unfolding acked by blast
    show "message_acked db' (f', e', j)"
      if "message_acked db' (f', e', i')" "j < i'" "message_of db' (f', e', j) \<noteq> None" for f' e' i' j
    proof -
      from that(1) have "message_acked db (f', e', i')" unfolding acked .
      moreover have "(f', e', j) \<noteq> (f, e, i)"
        using last [of i'] that(2) acked_stored [OF calculation] by auto
      ultimately show ?thesis using that(2,3) listener_invD(2) [OF inv] unfolding acked stored by blast
    qed
    show "0 < i' \<and> (\<exists>s. session_of db' f' = Some s \<and> e' \<le> sr_epoch s)" if "message_of db' (f', e', i') \<noteq> None" for f' e' i'
      using that s i listener_invD(4,5) [OF inv] unfolding stored sessions by blast
    show "j \<le> sr_last_message_id t" if "session_of db' f' = Some t" "message_acked db' (f', sr_epoch t, j)" for f' t j
      using that listener_invD(6) [OF inv] unfolding sessions acked by blast
    show "sr_last_message_id t = 0 \<or> message_acked db' (f', sr_epoch t, sr_last_message_id t)" if "session_of db' f' = Some t" for f' t
      using that listener_invD(7) [OF inv] unfolding sessions acked by blast
  qed (rule keyed)
qed

lemma inv_supersedes:
  assumes inv: "listener_inv db" and keyed: "acquisitions_keyed db'"
    and d: "supersedes f db db'" and fo: "acquisitions_follow db db'"
  shows "listener_inv db'"
proof -
  from d obtain s where same: "ld_messages db' = ld_messages db"
    and s: "\<And>g. session_of db' g = (if g = f then Some s else session_of db g)" "sr_last_message_id s = 0"
      "\<And>old. session_of db f = Some old \<Longrightarrow> sr_epoch s = sr_epoch old + 1"
    unfolding supersedes_def by blast
  have msgs: "message_of db' k = message_of db k" "message_acked db' k \<longleftrightarrow> message_acked db k" for k
    by (simp_all add: message_acked_def message_of_def same)
  have fresh: "\<not> message_acked db (f, sr_epoch s, i)" for i
  proof
    assume "message_acked db (f, sr_epoch s, i)"
    from listener_invD(5) [OF inv acked_stored [OF this]] s(3) show False by force
  qed
  show ?thesis
  proof (rule listener_invI)
    show "waiting a \<or> message_acked db' (f', e', ar_message_id a)" if "acquisition_of db' (f', e', q) = Some a" for f' e' q a
      using follow_inv [OF fo inv _ that] unfolding msgs by blast
    show "0 < i' \<and> (\<exists>s. session_of db' f' = Some s \<and> e' \<le> sr_epoch s)" if "message_of db' (f', e', i') \<noteq> None" for f' e' i'
      using listener_invD(4,5) [OF inv that [unfolded msgs]] s(3) by (force simp: s(1))
    show "j \<le> sr_last_message_id t" if "session_of db' f' = Some t" "message_acked db' (f', sr_epoch t, j)" for f' t j
      using that fresh listener_invD(6) [OF inv] unfolding msgs s(1) by (auto split: if_splits)
    show "sr_last_message_id t = 0 \<or> message_acked db' (f', sr_epoch t, sr_last_message_id t)" if "session_of db' f' = Some t" for f' t
      using that s(2) listener_invD(7) [OF inv] unfolding msgs s(1) by (auto split: if_splits)
  qed (use keyed listener_invD(2) [OF inv] msgs in \<open>simp_all\<close>)
qed

lemma step_inv:
  assumes "listener_inv db"
  shows "listener_inv (listener_step E C ev db)"
  using step_effects [OF listener_invD(1) [OF assms], of E C ev]
    step_acquisitions [OF listener_invD(1) [OF assms], of _ E C ev] assms
  unfolding step_effect_def by (metis inv_quiet inv_acknowledges inv_delivers inv_supersedes)

lemma run_listener_inv: "listener_inv db \<Longrightarrow> listener_inv (run_listener E C es db)"
  by (induction es arbitrary: db) (simp_all add: step_inv)

lemma empty_inv:
  assumes "ld_sessions db = []" "ld_messages db = []" "ld_acquisitions db = []"
  shows "listener_inv db"
  by (rule listener_invI)
    (simp_all add: assms acquisitions_keyed_def message_acked_def message_of_def session_of_def acquisition_of_def)

lemma step_epoch:
  assumes "acquisitions_keyed db" "session_of db f = Some s"
  shows "\<exists>s'. session_of (listener_step E C ev db) f = Some s' \<and> sr_epoch s \<le> sr_epoch s'"
proof -
  let ?db = "listener_step E C ev db"
  from step_effects [OF assms(1), of E C ev] consider
    "ld_sessions ?db = ld_sessions db" | g e i where "acknowledges g e i db ?db"
    | g e i where "delivers g e i db ?db" | g where "supersedes g db ?db"
    unfolding step_effect_def by blast
  then show ?thesis
  proof cases
    case (2 g e i)
    then obtain t where "session_of db g = Some t"
      "\<And>h. session_of ?db h = (if h = g then Some (t\<lparr>sr_last_message_id := max (sr_last_message_id t) i\<rparr>) else session_of db h)"
      unfolding acknowledges_def by blast
    with assms(2) show ?thesis by (cases "f = g") auto
  next
    case (4 g)
    then obtain t where "\<And>h. session_of ?db h = (if h = g then Some t else session_of db h)"
      "\<And>old. session_of db g = Some old \<Longrightarrow> sr_epoch t = sr_epoch old + 1"
      unfolding supersedes_def by blast
    with assms(2) show ?thesis by (cases "f = g") auto
  qed (use assms(2) in \<open>auto simp: delivers_def session_of_def\<close>)
qed

lemma run_epoch:
  assumes "acquisitions_keyed db" "session_of db f = Some s"
  shows "\<exists>s'. session_of (run_listener E C es db) f = Some s' \<and> sr_epoch s \<le> sr_epoch s'"
  using assms
proof (induction es arbitrary: db s)
  case (Cons ev es)
  from step_epoch [OF Cons.prems] obtain s1 where "session_of (listener_step E C ev db) f = Some s1" "sr_epoch s \<le> sr_epoch s1"
    by blast
  with Cons.IH [OF _ this(1)] step_acquisitions [OF Cons.prems(1)] show ?case
    unfolding run_listener_simps by (meson order_trans)
qed auto

lemma stale_context:
  assumes "session_of db f = Some s" "sr_epoch s \<noteq> se_epoch ctx"
  shows "listener_context_current E f ctx db \<noteq> Inr True"
  using context_session [of E f ctx db] assms by auto

lemma stale_unchanged:
  assumes "listener_context_current E f ctx db \<noteq> Inr True"
  shows "snd (listener_ingest E C uuids f ctx m now db) = db" "fst (listener_ingest E C uuids f ctx m now db) \<noteq> Inr (Some im)"
    "snd (listener_demand_confirmed E f ctx now db) = db"
    "snd (listener_acknowledge E f ctx i now db) = db" "fst (listener_acknowledge E f ctx i now db) \<noteq> Inr True"
    "snd (listener_acquire_start E f ctx i now db) = db" "fst (listener_acquire_start E f ctx i now db) \<noteq> Inr (Some ids)"
proof -
  note unfolded = listener_ingest_def listener_ingest_tx_def listener_demand_confirmed_def
    listener_demand_confirmed_tx_def listener_acknowledge_def listener_acknowledge_tx_def listener_acquire_start_def
    listener_acquire_start_tx_def commit_def and_then_def
  consider e where "listener_context_current E f ctx db = Inl e" | "listener_context_current E f ctx db = Inr False"
    using assms by (cases "listener_context_current E f ctx db") auto
  then have "snd (listener_ingest E C uuids f ctx m now db) = db \<and> fst (listener_ingest E C uuids f ctx m now db) \<noteq> Inr (Some im)
    \<and> snd (listener_demand_confirmed E f ctx now db) = db
    \<and> snd (listener_acknowledge E f ctx i now db) = db \<and> fst (listener_acknowledge E f ctx i now db) \<noteq> Inr True
    \<and> snd (listener_acquire_start E f ctx i now db) = db \<and> fst (listener_acquire_start E f ctx i now db) \<noteq> Inr (Some ids)"
    by cases (simp_all add: unfolded)
  then show "snd (listener_ingest E C uuids f ctx m now db) = db" "fst (listener_ingest E C uuids f ctx m now db) \<noteq> Inr (Some im)"
    "snd (listener_demand_confirmed E f ctx now db) = db"
    "snd (listener_acknowledge E f ctx i now db) = db" "fst (listener_acknowledge E f ctx i now db) \<noteq> Inr True"
    "snd (listener_acquire_start E f ctx i now db) = db" "fst (listener_acquire_start E f ctx i now db) \<noteq> Inr (Some ids)"
    by blast+
qed

lemma started_outcome:
  assumes "acquisitions_keyed db" "k \<in> set (started E C es db)"
  shows "\<exists>s. acquisition_state (run_listener E C es db) k = Some s \<and> s \<noteq> ''Pending'' \<and> s \<noteq> ''Cancelled''"
  using assms
proof (induction es arbitrary: db)
  case (Cons ev es)
  let ?db = "listener_step E C ev db"
  have keyed: "acquisitions_keyed ?db" using step_acquisitions [OF Cons.prems(1)] by blast
  show ?case
  proof (cases "k \<in> set (started_by E ev db)")
    case True
    with started_by_pending(2) [OF Cons.prems(1)] have "acquisition_state ?db k = Some ''AcquireStarting''" by blast
    with run_acquisitions [OF keyed, of k E C es] show ?thesis by (auto simp: acq_reach_def acq_later_def)
  next
    case False
    with Cons.prems(2) Cons.IH [OF keyed] show ?thesis by simp
  qed
qed simp

section \<open>Redelivery\<close>

text \<open>The authority is read from tables that a delivery leaves alone.\<close>

lemma context_current_cong:
  assumes "db_fleets (ld_ledger db') = db_fleets (ld_ledger db)" "db_scale_sets (ld_ledger db') = db_scale_sets (ld_ledger db)"
    "ld_handoffs db' = ld_handoffs db" "ld_contexts db' = ld_contexts db" "ld_auth_revisions db' = ld_auth_revisions db"
    "ld_retained db' = ld_retained db" "ld_sessions db' = ld_sessions db" "ld_session_auth db' = ld_session_auth db"
  shows "listener_context_current E f ctx db' = listener_context_current E f ctx db"
proof -
  have context_eq: "auth_execution_context E k p r db' = auth_execution_context E k p r db" for k p r
    unfolding auth_execution_context_def assms ..
  have guard_eq: "fleet_runtime_guard k g db' = fleet_runtime_guard k g db" for k g
    unfolding fleet_runtime_guard_def fleet_of_def assms ..
  have runtime_eq: "runtime_auth_guard E k g c db' = runtime_auth_guard E k g c db" for k g c
    unfolding runtime_auth_guard_def context_eq guard_eq assms ..
  have adopted_eq: "scale_set_adopted k i db' = scale_set_adopted k i db" for k i
    unfolding scale_set_adopted_def assms ..
  have session_eq: "session_auth_context E k db' = session_auth_context E k db" for k
    unfolding session_auth_context_def context_eq assms ..
  show ?thesis
    unfolding listener_context_current_def session_guard_def runtime_eq adopted_eq session_eq assms ..
qed

lemma activity_step_tables:
  "db_fleets (activity_step f now st l) = db_fleets l" "db_scale_sets (activity_step f now st l) = db_scale_sets l"
  by (auto simp: activity_step_def split: prod.split)

lemma activity_tables:
  "db_fleets (fold (activity_step f now) steps l) = db_fleets l"
  "db_scale_sets (fold (activity_step f now) steps l) = db_scale_sets l"
  by (induction steps arbitrary: l) (simp_all add: activity_step_tables)

lemma ingest_stored:
  assumes "listener_ingest_tx E C uuids f ctx m now db = Inr (Some im, db')"
  shows "\<exists>row. listener_context_current E f ctx db' = Inr True
    \<and> \<not> (pm_id m \<le> 0 \<or> total_assigned_jobs0 (pm_statistics m) < 0)
    \<and> listener_message E f ctx (pm_id m) db' = Inr (Some row) \<and> mr_digest_version row = 2
    \<and> digest_current E C m = Inr (mr_digest row)
    \<and> im = listener_message_view f (se_epoch ctx) (pm_id m) row db'"
  using assms
proof (cases rule: ingest_Inr)
  case (again digest row)
  note im = redelivered_Inr(1) [OF again(5)]
  from redelivered_Inr(2) [OF again(5)] show ?thesis
  proof (elim disjE conjE exE)
    assume "mr_digest_version row = 2" "mr_digest row = digest" "db' = db"
    with again im show ?thesis by simp
  next
    fix js rows
    assume db': "db' = db\<lparr>ld_jobs := js, ld_facts := rows, ld_messages := update_rows
            (\<lambda>k r. k = (f, se_epoch ctx, pm_id m) \<and> mr_digest_version r = 1)
            (\<lambda>r. r\<lparr>mr_digest := digest, mr_digest_version := 2\<rparr>) (ld_messages db)\<rparr>"
      and old: "mr_digest_version row = 1"
    have row: "map_of (ld_messages db) (f, se_epoch ctx, pm_id m) = Some row"
      using listener_message_Inr [OF again(4)] by simp
    have "listener_context_current E f ctx db' = Inr True"
      using again(1) by (subst context_current_cong [of db' db]) (simp_all add: db')
    moreover have "listener_message E f ctx (pm_id m) db' = Inr (Some (row\<lparr>mr_digest := digest, mr_digest_version := 2\<rparr>))"
      using again(4) row old
      by (auto simp: listener_message_def db' and_then_Inr message_authority_matches_def split: if_splits)
    moreover have "listener_message_view f (se_epoch ctx) (pm_id m) (row\<lparr>mr_digest := digest, mr_digest_version := 2\<rparr>) db'
        = listener_message_view f (se_epoch ctx) (pm_id m) row db"
      by (simp add: listener_message_view_def pending_requests_def db')
    ultimately show ?thesis using again(2,3) im by simp
  qed
next
  case (new digest)
  from new(5) obtain encoded where d:
    "listener_message E f ctx (pm_id m) db' = Inr (Some (new_message_row ctx digest encoded now))"
    "Some im = Some (listener_message_view f (se_epoch ctx) (pm_id m) (new_message_row ctx digest encoded now) db')"
    and cong: "db_fleets (ld_ledger db') = db_fleets (ld_ledger db)" "db_scale_sets (ld_ledger db') = db_scale_sets (ld_ledger db)"
    "ld_handoffs db' = ld_handoffs db" "ld_contexts db' = ld_contexts db" "ld_auth_revisions db' = ld_auth_revisions db"
    "ld_retained db' = ld_retained db" "ld_sessions db' = ld_sessions db" "ld_session_auth db' = ld_session_auth db"
    by (rule first_delivery_Inr) (simp add: activity_tables)
  from new(1) have "listener_context_current E f ctx db' = Inr True"
    unfolding context_current_cong [OF cong, of E f ctx] .
  moreover have "mr_digest_version (new_message_row ctx digest encoded now) = 2"
    "mr_digest (new_message_row ctx digest encoded now) = digest" by (simp_all add: new_message_row_def)
  ultimately show ?thesis using new(2,3) d by auto
qed simp

lemma ingest_on_stored:
  assumes "listener_context_current E f ctx db = Inr True"
    and "\<not> (pm_id m \<le> 0 \<or> total_assigned_jobs0 (pm_statistics m) < 0)"
    and "listener_message E f ctx (pm_id m) db = Inr (Some row)" "mr_digest_version row = 2" "digest_current E C m = Inr digest"
  shows "listener_ingest E C uuids f ctx m now db =
    (if mr_digest row = digest then (Inr (Some (listener_message_view f (se_epoch ctx) (pm_id m) row db)), db)
     else (Inl (StoreCorrupt ''redelivered listener message changed contents''), db))"
  using assms by (simp add: listener_ingest_def commit_def listener_ingest_tx_def and_then_def redelivered_def)

section \<open>Facts without a job\<close>

definition agreed_jobs :: "string \<Rightarrow> int \<Rightarrow> fact_row list \<Rightarrow> string set" where
  "agreed_jobs scope request rows =
     {j. \<exists>r\<in>set rows. fr_scope r = scope \<and> fr_request r = request \<and> fr_protocol_job r \<noteq> [] \<and> fr_job r = Some j}"

definition linked :: "string \<Rightarrow> int \<Rightarrow> fact_row list \<Rightarrow> bool" where
  "linked scope request rows \<longleftrightarrow>
     (\<forall>r\<in>set rows. fr_scope r = scope \<and> fr_request r = request \<and> fr_protocol_job r = [] \<longrightarrow>
        (\<forall>j. fr_job r = Some j \<longleftrightarrow> agreed_jobs scope request rows = {j}))"

lemma set_job_candidates: "set (job_candidates scope request rows) = agreed_jobs scope request rows"
  by (auto simp: job_candidates_def set_map_filter agreed_jobs_def split: if_splits)

lemma candidate_iff:
  "job_candidate scope request rows = Some j \<longleftrightarrow> agreed_jobs scope request rows = {j}"
proof -
  have d: "distinct (job_candidates scope request rows)" by (simp add: job_candidates_def)
  show ?thesis
    unfolding set_job_candidates [symmetric] job_candidate_def using d
    by (cases "job_candidates scope request rows" rule: remdups_adj.cases) (auto split: list.splits)
qed

lemma agreed_link [simp]: "agreed_jobs scope request (link_request scope' request' rows) = agreed_jobs scope request rows"
  by (auto simp: agreed_jobs_def link_request_def Let_def split: if_splits)

definition blank_fact :: "string \<Rightarrow> int \<Rightarrow> fact_row \<Rightarrow> bool" where
  "blank_fact scope request r \<longleftrightarrow> fr_scope r = scope \<and> fr_request r = request \<and> fr_protocol_job r = []"

lemma link_request_cases:
  assumes "r \<in> set (link_request scope request rows)"
  obtains x where "x \<in> set rows" "\<And>s q. blank_fact s q r \<longleftrightarrow> blank_fact s q x"
    "fr_job r = (if blank_fact scope request x
                 then job_candidate scope request rows else fr_job x)"
proof -
  from assms obtain x where x: "x \<in> set rows"
    "r = (if blank_fact scope request x
          then x\<lparr>fr_job := job_candidate scope request rows\<rparr> else x)"
    by (auto simp: link_request_def Let_def blank_fact_def)
  show thesis
    by (rule that [OF x(1)]) (simp_all add: x(2) blank_fact_def)
qed

lemma linked_iff:
  "linked scope request rows \<longleftrightarrow> (\<forall>r\<in>set rows. blank_fact scope request r \<longrightarrow>
      fr_job r = job_candidate scope request rows)"
proof -
  have "(\<forall>j. fr_job r = Some j \<longleftrightarrow> agreed_jobs scope request rows = {j}) \<longleftrightarrow>
      fr_job r = job_candidate scope request rows" for r :: fact_row
    unfolding candidate_iff [symmetric] by (metis not_Some_eq)
  then show ?thesis unfolding linked_def blank_fact_def by (simp only:)
qed

lemma agreed_candidate:
  assumes "agreed_jobs scope request rows = agreed_jobs scope request rows'"
  shows "job_candidate scope request rows = job_candidate scope request rows'"
proof -
  have "job_candidate scope request rows = Some j \<longleftrightarrow> job_candidate scope request rows' = Some j" for j
    by (simp add: candidate_iff assms)
  then show ?thesis by (metis not_Some_eq)
qed

lemma link_request_linked: "linked scope request (link_request scope request rows)"
  unfolding linked_iff
proof (intro ballI impI)
  fix r assume r: "r \<in> set (link_request scope request rows)" "blank_fact scope request r"
  then obtain x where "blank_fact scope request x"
    "fr_job r = (if blank_fact scope request x
                 then job_candidate scope request rows else fr_job x)"
    by (elim link_request_cases) blast
  with agreed_candidate [OF agreed_link [of scope request scope request rows]]
  show "fr_job r = job_candidate scope request (link_request scope request rows)"
    by simp
qed

lemma link_other:
  assumes "request \<noteq> request'" "linked scope request rows"
  shows "linked scope request (link_request scope request' rows)"
  unfolding linked_iff
proof (intro ballI impI)
  fix r assume r: "r \<in> set (link_request scope request' rows)" "blank_fact scope request r"
  then obtain x where x: "x \<in> set rows" "blank_fact scope request x"
    "fr_job r = (if blank_fact scope request' x
                 then job_candidate scope request' rows else fr_job x)"
    by (elim link_request_cases) blast
  have "fr_job r = fr_job x" using x(2,3) assms(1) by (auto simp: blank_fact_def)
  with x assms(2) agreed_candidate [OF agreed_link [of scope request scope request' rows]]
  show "fr_job r = job_candidate scope request (link_request scope request' rows)"
    by (simp add: linked_iff)
qed

lemma fold_linked:
  assumes "request \<in> set requests \<or> linked scope request rows"
  shows "linked scope request (fold (link_request scope) requests rows)"
  using assms
proof (induction requests arbitrary: rows)
  case (Cons q qs)
  have "linked scope request (link_request scope q rows)" if "q = request \<or> linked scope request rows"
    using that link_request_linked [of scope request rows] link_other [of request q scope rows] by blast
  with Cons show ?case by auto
qed simp

section \<open>Properties\<close>

text \<open>C10. An acquisition leaves at most once: over every interleaving of deliveries, sessions, crashes and lost
  replies, no request of a session epoch is handed out for acquisition twice; what was handed out
  keeps an outcome and never becomes pending or cancelled again.\<close>

theorem acquired_at_most_once:
  assumes "distinct (map fst (ld_acquisitions db))"
  shows "distinct (started E C es db)
    \<and> (\<forall>k\<in>set (started E C es db). \<exists>a. acquisition_of (run_listener E C es db) k = Some a
         \<and> ar_state a \<noteq> ''Pending'' \<and> ar_state a \<noteq> ''Cancelled'')"
proof -
  have keyed: "acquisitions_keyed db" using assms by (simp add: acquisitions_keyed_def)
  have "\<exists>a. acquisition_of (run_listener E C es db) k = Some a \<and> ar_state a \<noteq> ''Pending'' \<and> ar_state a \<noteq> ''Cancelled''"
    if "k \<in> set (started E C es db)" for k
    using started_outcome [OF keyed that] by (auto simp: acquisition_state_def acquisition_of_def)
  with started_pending [OF keyed, of E C es] show ?thesis by blast
qed

text \<open>C9. The checkpoint is exact: in every run from empty tables, the last message identifier of a session
  separates the messages of its epoch that were acknowledged from those that were not, so that a
  listener that resumes from it neither skips nor repeats one; and a job was asked for, or settled,
  only after the message that offered it was acknowledged.\<close>

theorem checkpoint_exact:
  assumes "ld_sessions db = []" "ld_messages db = []" "ld_acquisitions db = []"
    and "session_of (run_listener E C es db) f = Some s"
  shows "(\<forall>i. message_of (run_listener E C es db) (f, sr_epoch s, i) \<noteq> None \<longrightarrow>
       (message_acked (run_listener E C es db) (f, sr_epoch s, i) \<longleftrightarrow> i \<le> sr_last_message_id s))
    \<and> (\<forall>e q a. acquisition_of (run_listener E C es db) (f, e, q) = Some a \<longrightarrow> \<not> waiting a \<longrightarrow>
       message_acked (run_listener E C es db) (f, e, ar_message_id a))"
proof -
  let ?db = "run_listener E C es db"
  have inv: "listener_inv ?db" using run_listener_inv empty_inv assms(1-3) by blast
  have "message_acked ?db (f, sr_epoch s, i) \<longleftrightarrow> i \<le> sr_last_message_id s"
    if "message_of ?db (f, sr_epoch s, i) \<noteq> None" for i
  proof
    show "message_acked ?db (f, sr_epoch s, i) \<Longrightarrow> i \<le> sr_last_message_id s"
      by (rule listener_invD(6) [OF inv assms(4)])
  next
    assume le: "i \<le> sr_last_message_id s"
    have "0 < i" by (rule listener_invD(4) [OF inv that])
    with le listener_invD(7) [OF inv assms(4)] have "message_acked ?db (f, sr_epoch s, sr_last_message_id s)" by auto
    with le that listener_invD(2) [OF inv this, of i] show "message_acked ?db (f, sr_epoch s, i)"
      by (cases "i = sr_last_message_id s") auto
  qed
  with listener_invD(3) [OF inv] show ?thesis by blast
qed


text \<open>A delivery is idempotent: a message that was ingested and is delivered again, under the same
  authority, is answered as before and changes nothing: no fact, demand or acquisition is recorded
  twice, and the wake-up is not repeated.\<close>

theorem redelivery_idempotent:
  assumes "listener_ingest E C uuids f ctx m now db = (Inr (Some im), db')"
  shows "listener_ingest E C uuids' f ctx m now' db' = (Inr (Some im), db')"
proof -
  from assms have "listener_ingest_tx E C uuids f ctx m now db = Inr (Some im, db')"
    unfolding listener_ingest_def commit_Inr .
  from ingest_stored [OF this] obtain row where r: "listener_context_current E f ctx db' = Inr True"
    "\<not> (pm_id m \<le> 0 \<or> total_assigned_jobs0 (pm_statistics m) < 0)"
    "listener_message E f ctx (pm_id m) db' = Inr (Some row)" "mr_digest_version row = 2"
    "digest_current E C m = Inr (mr_digest row)" "im = listener_message_view f (se_epoch ctx) (pm_id m) row db'"
    by blast
  show ?thesis unfolding ingest_on_stored [OF r(1-5)] by (simp add: r(6))
qed

text \<open>C12. A message identifier is bound to its contents: a delivery under the identifier of a message that was
  ingested, with contents of another digest, is refused as corrupt and leaves the ledger as it is.\<close>

theorem changed_redelivery_refused:
  assumes "listener_ingest E C uuids f ctx m now db = (Inr (Some im), db')"
    and "pm_id m2 = pm_id m" "0 \<le> total_assigned_jobs0 (pm_statistics m2)"
    and "digest_current E C m2 = Inr d2" "digest_current E C m \<noteq> Inr d2"
  shows "listener_ingest E C uuids' f ctx m2 now' db' = (Inl (StoreCorrupt ''redelivered listener message changed contents''), db')"
proof -
  from assms(1) have "listener_ingest_tx E C uuids f ctx m now db = Inr (Some im, db')"
    unfolding listener_ingest_def commit_Inr .
  from ingest_stored [OF this] obtain row where r: "listener_context_current E f ctx db' = Inr True"
    "\<not> (pm_id m2 \<le> 0 \<or> total_assigned_jobs0 (pm_statistics m2) < 0)"
    "listener_message E f ctx (pm_id m2) db' = Inr (Some row)" "mr_digest_version row = 2"
    "mr_digest row \<noteq> d2"
    using assms(2,3,5) by auto
  from ingest_on_stored [OF r(1-4) assms(4)] r(5) show ?thesis by simp
qed

text \<open>C13. A fact without a job joins a job only when the evidence agrees: after a message was ingested, every
  retained fact of one of its requests that names no job belongs to the job that all facts of the
  request name, if they name exactly one, and to none otherwise, whatever the order of arrival.\<close>

theorem blank_facts_linked:
  assumes "jobs_ingest E uuids f ctx m now db = Inr db'" "observed_scope E f ctx db = Some scope"
    and "q \<in> set (fact_requests (facts m))" "r \<in> set (ld_facts db')"
    and "fr_scope r = scope" "fr_request r = q" "fr_protocol_job r = []"
  shows "fr_job r = Some j \<longleftrightarrow>
    {j. \<exists>r'\<in>set (ld_facts db'). fr_scope r' = scope \<and> fr_request r' = q \<and> fr_protocol_job r' \<noteq> [] \<and> fr_job r' = Some j} = {j}"
proof -
  from assms(1,2) obtain db1 :: listener_db where "ld_facts db' = fold (link_request scope) (fact_requests (facts m)) (ld_facts db1)"
    by (auto simp: jobs_ingest_def Let_def map_ok_Inr)
  with fold_linked assms(3) have "linked scope q (ld_facts db')" by metis
  with assms(4-) show ?thesis by (simp add: linked_def agreed_jobs_def)
qed

section \<open>A session at work\<close>

definition listener_context :: resolved_auth_context where
  "listener_context = \<lparr>ctx_profile_key = ''p'', ctx_revision = 1, ctx_github_host = ''github.com'', ctx_app_id = ''a'',
     ctx_account_id = 7, ctx_account_kind = KindOrganization, ctx_login = ''o'', ctx_installation_id = 9,
     ctx_target = TargetOrganization ''o'', ctx_organization_id = Some 7, ctx_repository_id = None,
     ctx_repository_owner_id = None\<rparr>"

definition listener_external :: external where
  "listener_external = sample_external\<lparr>decode_auth_context := (\<lambda>t. if t = ''c'' then Some listener_context else None),
     hex_encode := (\<lambda>t. t), sha256 := (\<lambda>t. t), scope_json := (\<lambda>f i n h u a b c. f)\<rparr>"

definition listener_codec_sample :: listener_codec where
  "listener_codec_sample = \<lparr>lc_message = (\<lambda>m. Some (if pm_available m = [] then ''0'' else ''1'')), lc_context = (\<lambda>c. Some ''c'')\<rparr>"

definition listener_guard :: runtime_guard where
  "listener_guard = \<lparr>fg_incarnation = ''x'', fg_desired_revision = 1, fg_mutation_fence = 1\<rparr>"

definition listener_start :: listener_db where
  "listener_start = \<lparr>ld_ledger = (sample_ledger (sample_generation ''Idle''))\<lparr>db_scale_sets := [(''f'', (Some 3, ''Adopted''))]\<rparr>,
     ld_handoffs = [(''f'', \<lparr>ho_desired_profile_key = ''p'', ho_desired_revision = 1, ho_observed_profile_key = Some ''p'',
       ho_observed_revision = Some 1, ho_state = ''Observed'', ho_cleanup_only = False,
       ho_attempts = 0, ho_next_retry_at = None, ho_reason = None\<rparr>)],
     ld_contexts = [(''f'', \<lparr>xr_desired_profile_key = Some ''p'', xr_desired_revision = Some 1, xr_desired_fence = Some 1,
       xr_desired_context = Some ''c'', xr_observed_profile_key = Some ''p'', xr_observed_revision = Some 1,
       xr_observed_context = Some ''c'', xr_state = ''Observed'',
       xr_reason = None, xr_attempts = 0, xr_next_retry_at = None, xr_updated_at = 0\<rparr>)],
     ld_auth_revisions = [((''p'', 1), (2, ''github_app''))], ld_retained = [((''f'', ''p'', 1), ''c'')],
     ld_session_auth = [], ld_sessions = [], ld_messages = [], ld_acquisitions = [], ld_observations = [], ld_demand = [],
     ld_jobs = [], ld_facts = [], ld_outbox = []\<rparr>"

definition listener_stats :: statistics_snapshot where
  "listener_stats = \<lparr>total_assigned_jobs0 = 1, total_registered_runners = 0, total_busy_runners = 0, total_idle_runners = 0\<rparr>"

definition listener_message_sample :: poll_message where
  "listener_message_sample = \<lparr>pm_id = 4, pm_statistics = listener_stats,
     pm_available = [\<lparr>jm_request = 5, jm_job = ''j'', jm_metadata = no_metadata\<rparr>],
     pm_assigned = [\<lparr>jm_request = 5, jm_job = '' '', jm_metadata = no_metadata\<rparr>], pm_started = [], pm_completed = []\<rparr>"

definition listener_ctx :: "int \<Rightarrow> session_effect_context" where
  "listener_ctx epoch = \<lparr>se_guard = listener_guard, se_auth = listener_context, se_epoch = epoch\<rparr>"

definition listener_install :: "int option \<Rightarrow> session_install_request" where
  "listener_install expected = \<lparr>in_guard = listener_guard, in_expected_epoch = expected, in_auth = listener_context,
     in_scale_set = 3, in_handle = \<lparr>sh_session_id = ''s'', sh_queue_url = ''u'', sh_queue_token = ''t'', sh_initial = listener_stats\<rparr>\<rparr>"

definition listener_script :: "listener_event list" where
  "listener_script = [InstallSession ''f'' (listener_install None) 1,
     Deliver ''f'' (listener_ctx 1) listener_message_sample (\<lambda>n. show_nat n) 2,
     Acknowledge ''f'' (listener_ctx 1) 4 3, AcquireStart ''f'' (listener_ctx 1) 4 4, AcquireStart ''f'' (listener_ctx 1) 4 5]"

definition listener_end :: listener_db where
  "listener_end = run_listener listener_external listener_codec_sample listener_script listener_start"

lemma script_started:
  "started listener_external listener_codec_sample listener_script listener_start = [(''f'', 1, 5)]"
  by code_simp

lemma script_session:
  "session_of listener_end ''f'' = Some \<lparr>sr_session_id = ''s'', sr_epoch = 1, sr_scale_set_id = 3,
     sr_queue_url = Some ''u'', sr_queue_token = Some ''t'', sr_last_message_id = 4, sr_created_at = 1\<rparr>"
  by code_simp
lemma acquired_at_most_once_witness:
  "started listener_external listener_codec_sample listener_script listener_start = [(''f'', 1, 5)]
   \<and> ar_state (the (acquisition_of listener_end (''f'', 1, 5))) \<noteq> ''Pending''"
proof -
  have "distinct (map fst (ld_acquisitions listener_start))" by (simp add: listener_start_def)
  from acquired_at_most_once [OF this, of listener_external listener_codec_sample listener_script] show ?thesis
    by (auto simp: script_started listener_end_def)
qed

lemma checkpoint_exact_witness:
  "message_acked listener_end (''f'', 1, 4)"
proof -
  have "message_of listener_end (''f'', 1, 4) \<noteq> None" by code_simp
  with checkpoint_exact [of listener_start listener_external listener_codec_sample listener_script "''f''",
      OF _ _ _ script_session [unfolded listener_end_def]]
  show ?thesis by (simp add: listener_start_def listener_end_def)
qed


definition listener_delivered :: listener_db where
  "listener_delivered = run_listener listener_external listener_codec_sample (take 2 listener_script) listener_start"

definition listener_undelivered :: listener_db where
  "listener_undelivered = run_listener listener_external listener_codec_sample (take 1 listener_script) listener_start"

lemma script_delivery:
  "listener_ingest listener_external listener_codec_sample show_nat ''f'' (listener_ctx 1) listener_message_sample 2
     listener_undelivered = (Inr (Some \<lparr>im_id = 4, im_acked = False, im_pending = [5]\<rparr>), listener_delivered)"
  by code_simp

lemma redelivery_idempotent_witness:
  "listener_ingest listener_external listener_codec_sample show_nat ''f'' (listener_ctx 1) listener_message_sample 9
     listener_delivered = (Inr (Some \<lparr>im_id = 4, im_acked = False, im_pending = [5]\<rparr>), listener_delivered)"
  by (rule redelivery_idempotent [OF script_delivery])

lemma changed_redelivery_refused_witness:
  "listener_ingest listener_external listener_codec_sample show_nat ''f'' (listener_ctx 1)
       (listener_message_sample\<lparr>pm_available := []\<rparr>) 9 listener_delivered
     = (Inl (StoreCorrupt ''redelivered listener message changed contents''), listener_delivered)"
proof -
  have "digest_current listener_external listener_codec_sample (listener_message_sample\<lparr>pm_available := []\<rparr>) = Inr ''0''"
    and "digest_current listener_external listener_codec_sample listener_message_sample = Inr ''1''"
    by code_simp+
  from changed_redelivery_refused [OF script_delivery _ _ this(1)] this(2) show ?thesis
    by (simp add: listener_message_sample_def listener_stats_def)
qed
definition script_ingested :: "store_error + listener_db" where
  "script_ingested = jobs_ingest listener_external show_nat ''f'' (listener_ctx 1) listener_message_sample 2 listener_undelivered"

lemma script_ingested:
  "case script_ingested of Inl _ \<Rightarrow> False
   | Inr db \<Rightarrow> list_all (\<lambda>r. fr_scope r = ''f'' \<and> fr_request r = 5) (ld_facts db)
       \<and> map fr_protocol_job (ld_facts db) = [[], ''j''] \<and> map fr_job (ld_facts db) = [Some ''j'', Some ''j'']"
  by code_simp

lemma script_scope: "observed_scope listener_external ''f'' (listener_ctx 1) listener_undelivered = Some ''f''"
  by code_simp

lemma blank_facts_linked_witness:
  "\<exists>db r. script_ingested = Inr db \<and> r \<in> set (ld_facts db) \<and> fr_protocol_job r = [] \<and>
     {j. \<exists>r'\<in>set (ld_facts db). fr_scope r' = ''f'' \<and> fr_request r' = 5 \<and> fr_protocol_job r' \<noteq> [] \<and> fr_job r' = Some j} = {''j''}"
proof -
  obtain db where db: "script_ingested = Inr db"
  proof (cases script_ingested)
    case (Inl e)
    show thesis using script_ingested unfolding Inl sum.case by simp
  qed (rule that)
  have "list_all (\<lambda>r. fr_scope r = ''f'' \<and> fr_request r = 5) (ld_facts db)
    \<and> map fr_protocol_job (ld_facts db) = [[], ''j''] \<and> map fr_job (ld_facts db) = [Some ''j'', Some ''j'']"
    using script_ingested unfolding db sum.case .
  then have all: "list_all (\<lambda>r. fr_scope r = ''f'' \<and> fr_request r = 5) (ld_facts db)"
    and jobs: "map fr_protocol_job (ld_facts db) = [[], ''j'']" "map fr_job (ld_facts db) = [Some ''j'', Some ''j'']"
    by blast+
  from jobs(1) obtain r r2 where two: "ld_facts db = [r, r2]" by (auto simp: map_eq_Cons_conv)
  with all jobs have r: "ld_facts db = [r, r2]" "fr_scope r = ''f''" "fr_request r = 5" "fr_protocol_job r = []"
    "fr_job r = Some ''j''" by simp_all
  have "5 \<in> set (fact_requests (facts listener_message_sample))" by code_simp
  from blank_facts_linked [OF db [unfolded script_ingested_def] script_scope this _ r(2,3,4), of "''j''"] r(1,5)
  have "{j. \<exists>r'\<in>set (ld_facts db). fr_scope r' = ''f'' \<and> fr_request r' = 5 \<and> fr_protocol_job r' \<noteq> [] \<and> fr_job r' = Some j} = {''j''}"
    by simp
  with db r show ?thesis by (intro exI [of _ db] exI [of _ r]) simp
qed

end
