(* ===== verification/Fleet_Run.thy ===== *)
theory Fleet_Run
  imports Fleet_Head Listener_Run
begin

text \<open>
  Every interleaving of Fleet mutations, handoff acknowledgements, promotions, observations and listener
  transactions, and what the fence of a Fleet head guarantees over them.
\<close>

section \<open>Runs\<close>

datatype fleet_event =
    PutFleet mutation_facts
  | DeleteFleet mutation_facts
  | AckHandoff string string int "string option" handoff_expectation
  | BlockHandoff string "string \<times> int" handoff_expectation string int
  | BlockContext string string int int
  | Promote string int int
  | ObserveFleet string fleet_observation int
  | TombstoneFleet string int
  | ListenerDoes listener_event
  | Surroundings fleet_db

text \<open>Tables that other parts of the program write, at any time and to any contents.\<close>

definition surrounded :: "fleet_db \<Rightarrow> fleet_db \<Rightarrow> fleet_db" where
  "surrounded t db =
     db\<lparr>fd_main := (fd_main t)\<lparr>ld_handoffs := ld_handoffs (fd_main db), ld_contexts := ld_contexts (fd_main db),
            ld_retained := ld_retained (fd_main db), ld_session_auth := ld_session_auth (fd_main db),
            ld_sessions := ld_sessions (fd_main db),
            ld_ledger := (ledger_of t)\<lparr>db_fleets := db_fleets (ledger_of db),
              db_fleet_revisions := db_fleet_revisions (ledger_of db), db_auth_contexts := db_auth_contexts (ledger_of db)\<rparr>\<rparr>,
        fd_auths := fd_auths t, fd_auth_details := fd_auth_details t, fd_templates := fd_templates t,
        fd_pools := (fd_pools t)\<lparr>pool_refs := pool_refs (fd_pools db), inline_rows := inline_rows (fd_pools db)\<rparr>,
        fd_pool_heads := fd_pool_heads t, fd_audit := fd_audit t, fd_outbox := fd_outbox t\<rparr>"

fun fleet_step :: "external \<Rightarrow> listener_codec \<Rightarrow> fleet_codec \<Rightarrow> fleet_event \<Rightarrow> fleet_db \<Rightarrow> fleet_db" where
  "fleet_step E L C (PutFleet mf) db = snd (commit_fleet_mutation C mf db)"
| "fleet_step E L C (DeleteFleet mf) db = snd (commit_decommission C mf db)"
| "fleet_step E L C (AckHandoff key profile revision json expectation) db =
     snd (commit_fleet_tx (handoff_acknowledge E C key profile revision json expectation) db)"
| "fleet_step E L C (BlockHandoff key authority expectation reason retry_at) db =
     snd (commit_fleet_tx (handoff_mark_blocked key authority expectation reason retry_at) db)"
| "fleet_step E L C (BlockContext key reason retry_at now) db = snd (commit_fleet_tx (context_block key reason retry_at now) db)"
| "fleet_step E L C (Promote profile revision now) db = snd (commit_fleet_tx (auth_advance_head C profile revision now) db)"
| "fleet_step E L C (ObserveFleet key ob now) db = snd (commit_fleet_tx (fleet_set_observed E C key ob now) db)"
| "fleet_step E L C (TombstoneFleet key now) db = snd (commit_fleet_tx (fleet_set_tombstone key now) db)"
| "fleet_step E L C (ListenerDoes ev) db =
     (case ev of Elsewhere l hs cs rs ret js fs ob \<Rightarrow> db | _ \<Rightarrow> db\<lparr>fd_main := listener_step E L ev (fd_main db)\<rparr>)"
| "fleet_step E L C (Surroundings t) db = surrounded t db"

definition run_fleet :: "external \<Rightarrow> listener_codec \<Rightarrow> fleet_codec \<Rightarrow> fleet_event list \<Rightarrow> fleet_db \<Rightarrow> fleet_db" where
  "run_fleet E L C es db = fold (fleet_step E L C) es db"

lemma run_fleet_simps [simp]:
  "run_fleet E L C [] db = db"
  "run_fleet E L C (e # es) db = run_fleet E L C es (fleet_step E L C e db)"
  "run_fleet E L C (es @ es') db = run_fleet E L C es' (run_fleet E L C es db)"
  by (simp_all add: run_fleet_def)

lemma commit_fleet_tx_snd: "snd (commit_fleet_tx tx db) = (case tx db of Inl e \<Rightarrow> db | Inr (x, db') \<Rightarrow> db')"
  by (simp add: commit_fleet_tx_def split: sum.split prod.split)

lemma commit_fleet_tx_Inr: "commit_fleet_tx tx db = (Inr x, db') \<longleftrightarrow> tx db = Inr (x, db')"
  by (simp add: commit_fleet_tx_def split: sum.split prod.split)

section \<open>What the listener leaves alone\<close>

definition same_authority :: "listener_db \<Rightarrow> listener_db \<Rightarrow> bool" where
  "same_authority db db' \<longleftrightarrow> db_fleets (ld_ledger db') = db_fleets (ld_ledger db) \<and> ld_handoffs db' = ld_handoffs db
     \<and> ld_contexts db' = ld_contexts db \<and> ld_retained db' = ld_retained db \<and> ld_auth_revisions db' = ld_auth_revisions db"

lemma same_authority_refl [simp]: "same_authority db db"
  by (simp add: same_authority_def)

lemma session_end_authority: "same_authority db (listener_session_end f e db)"
  by (simp add: same_authority_def listener_session_end_def)

lemma ingest_authority:
  assumes "listener_ingest_tx E C uuids f ctx m now db = Inr (x, db')"
  shows "same_authority db db'"
  using assms
proof (cases rule: ingest_Inr)
  case (again digest row)
  from redelivered_Inr(2) [OF again(5)] show ?thesis by (auto simp: same_authority_def)
next
  case (new digest)
  from new(5) show ?thesis by (rule first_delivery_Inr) (simp add: same_authority_def activity_tables)
qed simp

lemma acknowledge_authority:
  assumes "listener_acknowledge_tx E f ctx i now db = Inr (x, db')"
  shows "same_authority db db'"
  using assms by (cases rule: acknowledge_Inr) (auto simp: same_authority_def)

lemma start_authority:
  assumes "listener_acquire_start_tx E f ctx i now db = Inr (x, db')"
  shows "same_authority db db'"
  using assms by (cases rule: acquire_start_Inr) (auto simp: same_authority_def)

lemma confirmed_authority:
  assumes "listener_demand_confirmed_tx E f ctx now db = Inr (x, db')"
  shows "same_authority db db'"
  using confirmed_Inr(1) [OF assms] by (auto simp: same_authority_def)

lemma install_authority:
  assumes "session_install_tx E f install now db = Inr (x, db')"
  shows "same_authority db db'"
  using assms
proof (cases rule: install_Inr)
  case (installed epoch auths)
  show ?thesis unfolding installed(3)
    by (simp add: same_authority_def listener_reconcile_old_def demand_snapshot_def listener_session_end_def split: option.split)
qed simp

lemma clear_authority:
  assumes "session_clear_tx f e now db = Inr (x, db')"
  shows "same_authority db db'"
  using assms by (cases rule: clear_Inr) (auto simp: same_authority_def listener_session_end_def)

lemma complete_authority: "same_authority db (snd (listener_acquire_complete E f ctx i accepted now db))"
  using acquire_complete_snd [of E f ctx i accepted now db] by (auto simp: same_authority_def)

lemma listener_authority:
  assumes "\<And>l hs cs rs ret js fs ob. ev \<noteq> Elsewhere l hs cs rs ret js fs ob"
  shows "same_authority db (listener_step E C ev db)"
proof (cases ev)
  case (SnapshotDemand f amount now)
  then show ?thesis by (simp add: same_authority_def demand_snapshot_def)
next
  case (Elsewhere l hs cs rs ret js fs ob)
  with assms show ?thesis by blast
qed (auto simp: commit_snd listener_ingest_def listener_acknowledge_def listener_acquire_start_def session_install_def
      session_clear_def listener_demand_confirmed_def complete_authority
      intro: ingest_authority acknowledge_authority start_authority confirmed_authority install_authority clear_authority
      split: sum.split prod.split)
section \<open>Which tables an operation touches\<close>

text \<open>Everything but the columns named: of the main tables only handoffs, contexts, retained contexts and projections.\<close>

definition same_heads :: "fleet_db \<Rightarrow> fleet_db \<Rightarrow> bool" where
  "same_heads db db' \<longleftrightarrow> db_fleets (ledger_of db') = db_fleets (ledger_of db) \<and> fd_status db' = fd_status db"

definition same_effects :: "fleet_db \<Rightarrow> fleet_db \<Rightarrow> bool" where
  "same_effects db db' \<longleftrightarrow> db_generations (ledger_of db') = db_generations (ledger_of db)
     \<and> db_operations (ledger_of db') = db_operations (ledger_of db)"

definition same_changes :: "fleet_db \<Rightarrow> fleet_db \<Rightarrow> bool" where
  "same_changes db db' \<longleftrightarrow> fd_changes db' = fd_changes db"

definition same_receipts :: "fleet_db \<Rightarrow> fleet_db \<Rightarrow> bool" where
  "same_receipts db db' \<longleftrightarrow> fd_idempotency db' = fd_idempotency db \<and> fd_legacy_keys db' = fd_legacy_keys db"

definition same_rows :: "fleet_db \<Rightarrow> fleet_db \<Rightarrow> bool" where
  "same_rows db db' \<longleftrightarrow> ld_sessions (fd_main db') = ld_sessions (fd_main db) \<and> ld_messages (fd_main db') = ld_messages (fd_main db)
     \<and> ld_acquisitions (fd_main db') = ld_acquisitions (fd_main db)"

definition auth_only :: "fleet_db \<Rightarrow> fleet_db \<Rightarrow> bool" where
  "auth_only db db' \<longleftrightarrow> same_heads db db' \<and> same_effects db db' \<and> same_changes db db' \<and> same_receipts db db'
     \<and> same_rows db db'"

lemmas same_defs = same_heads_def same_effects_def same_changes_def same_receipts_def same_rows_def

lemma auth_only_refl [simp]: "auth_only db db"
  by (simp add: auth_only_def same_defs)

lemma auth_only_trans: "auth_only db db1 \<Longrightarrow> auth_only db1 db2 \<Longrightarrow> auth_only db db2"
  by (simp add: auth_only_def same_defs)

lemma ledger_of_simps [simp]:
  "ledger_of (db\<lparr>fd_main := m\<rparr>) = ld_ledger m"
  "ledger_of (db\<lparr>fd_status := a\<rparr>) = ledger_of db"
  "ledger_of (db\<lparr>fd_revisions := b\<rparr>) = ledger_of db"
  "ledger_of (db\<lparr>fd_changes := c\<rparr>) = ledger_of db"
  "ledger_of (db\<lparr>fd_auths := d\<rparr>) = ledger_of db"
  "ledger_of (db\<lparr>fd_pools := e\<rparr>) = ledger_of db"
  "ledger_of (db\<lparr>fd_audit := f\<rparr>) = ledger_of db"
  "ledger_of (db\<lparr>fd_outbox := g\<rparr>) = ledger_of db"
  "ledger_of (db\<lparr>fd_idempotency := h\<rparr>) = ledger_of db"
  by (simp_all add: ledger_of_def)

lemma auth_only_put [simp]:
  "auth_only db (put_handoff k h db') = auth_only db db'"
  "auth_only db (put_context k x db') = auth_only db db'"
  "auth_only (put_handoff k h db) db' = auth_only db db'"
  "auth_only (put_context k x db) db' = auth_only db db'"
  by (simp_all add: auth_only_def same_defs put_handoff_def put_context_def ledger_of_def)

lemma auth_only_handoffs [simp]:
  "auth_only db (handoff_set_desired k p r db') = auth_only db db'"
  "auth_only db (handoff_retarget_desired k p r db') = auth_only db db'"
  "auth_only db (handoff_set_cleanup_only k db') = auth_only db db'"
  "auth_only db (context_set_desired k p r json now db') = auth_only db db'"
  "auth_only (handoff_set_desired k p r db) db' = auth_only db db'"
  by (simp_all add: handoff_set_desired_def handoff_retarget_desired_def handoff_set_cleanup_only_def context_set_desired_def
      Let_def split: option.split)

lemma outcome_Inr:
  "(case s of Inl e \<Rightarrow> Inl (f e) | Inr x \<Rightarrow> g x) = Inr y \<longleftrightarrow> (\<exists>x. s = Inr x \<and> g x = Inr y)"
  by (cases s) auto

lemma auth_only_commit: "context_commit C k p r spec now db = Inr (Inr db') \<Longrightarrow> auth_only db db'"
  by (auto simp: context_commit_def split: sum.splits store_error.splits)

lemma auth_only_archive: "archive_context E C k c db = Inr db' \<Longrightarrow> auth_only db db'"
  by (auto simp: archive_context_def and_then_Inr auth_only_def same_defs ledger_of_def split: if_splits)

lemma auth_only_retarget: "retarget_fleets C p r now keys db = Inr db' \<Longrightarrow> auth_only db db'"
proof (induction C p r now keys db arbitrary: db' rule: retarget_fleets.induct)
  case (2 C profile revision now key keys db)
  define db1 where "db1 = handoff_retarget_desired key profile revision db"
  have a: "auth_only db db1" by (simp add: db1_def)
  show ?case
  proof (cases "newest (revisions_of key db1)")
    case None
    with "2.prems" have "retarget_fleets C profile revision now keys db1 = Inr db'" by (simp add: db1_def)
    with None "2.IH"(1) [OF db1_def] a show ?thesis by (auto intro: auth_only_trans)
  next
    case (Some nr)
    obtain n :: int and r :: revision_row where nr: "nr = (n, r)" by (cases nr)
    show ?thesis
    proof (cases "spec_is_pool C (rv_spec r)")
      case True
      with "2.prems" Some nr have "retarget_fleets C profile revision now keys db1 = Inr db'" by (simp add: db1_def)
      with "2.IH"(2) [OF db1_def Some [unfolded nr] refl True] a show ?thesis by (blast intro: auth_only_trans)
    next
      case False
      with "2.prems" Some nr obtain outcome where o: "context_commit C key profile revision (rv_spec r) now db1 = Inr outcome"
        and rest: "(case outcome of Inl reason \<Rightarrow> Inl (StorePolicyDenied reason)
          | Inr db2 \<Rightarrow> retarget_fleets C profile revision now keys db2) = Inr db'"
        by (auto simp: db1_def and_then_Inr)
      then obtain db2 where c: "context_commit C key profile revision (rv_spec r) now db1 = Inr (Inr db2)"
        and rest: "retarget_fleets C profile revision now keys db2 = Inr db'"
        by (cases outcome) auto
      from "2.IH"(3) [OF db1_def Some [unfolded nr] refl False rest]
      have "auth_only db2 db'" .
      with auth_only_commit [OF c] a show ?thesis by (blast intro: auth_only_trans)
    qed
  qed
qed simp

lemma auth_only_advance: "auth_advance_head C p r now db = Inr (u, db') \<Longrightarrow> auth_only db db'"
  by (auto simp: auth_advance_head_def map_ok_Inr Let_def auth_only_def same_defs dest!: auth_only_retarget split: option.splits)

lemma settle_Inr:
  assumes "settle_handoff E C k p r json h x db = Inr (a, db')"
  obtains (refused) "a \<noteq> Acknowledged" "db' = db"
  | (settled) c desired_json desired observed db1 db2 where "a = Acknowledged" "decode_auth_context E json = Some c"
      "xr_desired_context x = Some desired_json" "decode_auth_context E desired_json = Some desired" "completes c desired"
      "(case xr_observed_context x of None \<Rightarrow> Inr None | Some text \<Rightarrow> map_ok Some (observed_evidence E h x text db)) = Inr observed"
      "keeps_pins observed c" "archive_context E C k c db = Inr db1"
      "(case observed of None \<Rightarrow> Inr db1 | Some old \<Rightarrow> archive_context E C k old db1) = Inr db2"
      "db' = observe_handoff k p r json h x db2"
proof -
  from assms [unfolded settle_handoff_def and_then_Inr ok_or_Inr] obtain c where c: "decode_auth_context E json = Some c"
    and rest: "(case xr_desired_context x of None \<Rightarrow> Inr (Stale, db) | Some desired_json \<Rightarrow>
         and_then (ok_or (StoreCorrupt ''desired context intent unreadable'') (decode_auth_context E desired_json)) (\<lambda>desired.
         if \<not> completes c desired then Inr (IdentityDrift, db) else
         and_then (case xr_observed_context x of None \<Rightarrow> Inr None
                   | Some text \<Rightarrow> map_ok Some (observed_evidence E h x text db)) (\<lambda>observed.
         if \<not> keeps_pins observed c then Inr (IdentityDrift, db) else
         and_then (archive_context E C k c db) (\<lambda>db1.
         and_then (case observed of None \<Rightarrow> Inr db1 | Some old \<Rightarrow> archive_context E C k old db1) (\<lambda>db2.
         Inr (Acknowledged, observe_handoff k p r json h x db2)))))) = Inr (a, db')"
    by blast
  show thesis
  proof (cases "xr_desired_context x")
    case None
    with rest show thesis by (intro refused) auto
  next
    case (Some desired_json)
    with rest obtain desired where d: "decode_auth_context E desired_json = Some desired"
      and rest: "(if \<not> completes c desired then Inr (IdentityDrift, db) else
         and_then (case xr_observed_context x of None \<Rightarrow> Inr None
                   | Some text \<Rightarrow> map_ok Some (observed_evidence E h x text db)) (\<lambda>observed.
         if \<not> keeps_pins observed c then Inr (IdentityDrift, db) else
         and_then (archive_context E C k c db) (\<lambda>db1.
         and_then (case observed of None \<Rightarrow> Inr db1 | Some old \<Rightarrow> archive_context E C k old db1) (\<lambda>db2.
         Inr (Acknowledged, observe_handoff k p r json h x db2))))) = Inr (a, db')"
      by (auto simp only: option.case and_then_Inr ok_or_Inr)
    show thesis
    proof (cases "completes c desired")
      case False
      with rest show thesis by (intro refused) auto
    next
      case True
      with rest obtain observed where o: "(case xr_observed_context x of None \<Rightarrow> Inr None
            | Some text \<Rightarrow> map_ok Some (observed_evidence E h x text db)) = Inr observed"
        and rest: "(if \<not> keeps_pins observed c then Inr (IdentityDrift, db) else
         and_then (archive_context E C k c db) (\<lambda>db1.
         and_then (case observed of None \<Rightarrow> Inr db1 | Some old \<Rightarrow> archive_context E C k old db1) (\<lambda>db2.
         Inr (Acknowledged, observe_handoff k p r json h x db2)))) = Inr (a, db')"
        by (auto simp only: and_then_Inr not_True_eq_False if_False)
      with c Some d True show thesis
        by (cases "keeps_pins observed c") (auto simp only: and_then_Inr not_True_eq_False not_False_eq_True if_False if_True
            Inr_inject prod.inject intro: settled refused)
    qed
  qed
qed

lemma auth_only_settle:
  assumes "settle_handoff E C k p r json h x db = Inr (a, db')"
  shows "auth_only db db'"
  using assms
proof (cases rule: settle_Inr)
  case (settled c desired_json desired observed db1 db2)
  have "auth_only db1 db2" using settled(9) by (cases observed) (auto intro: auth_only_archive)
  with auth_only_archive [OF settled(8)] show ?thesis
    unfolding settled(10) observe_handoff_def auth_only_put by (rule auth_only_trans)
qed simp

lemma auth_only_acknowledge: "handoff_acknowledge E C k p r json ex db = Inr (a, db') \<Longrightarrow> auth_only db db'"
  by (auto simp: handoff_acknowledge_def and_then_Inr split: option.splits dest: auth_only_settle)

lemma auth_only_blocked: "handoff_mark_blocked k a ex reason t db = Inr (x, db') \<Longrightarrow> auth_only db db'"
  by (auto simp: handoff_mark_blocked_def split: option.splits if_splits)

lemma auth_only_context_block: "context_block k reason t now db = Inr (u, db') \<Longrightarrow> auth_only db db'"
  by (auto simp: context_block_def split: option.splits)

lemma auth_only_refresh: "context_refresh_fence k now db = Inr db' \<Longrightarrow> auth_only db db'"
  by (auto simp: context_refresh_fence_def and_then_Inr split: option.splits)

lemma auth_only_cleanup: "cleanup_only_auth C mf db = Inr db' \<Longrightarrow> auth_only db db'"
  by (auto simp: cleanup_only_auth_def Let_def map_ok_Inr dest!: auth_only_refresh split: option.splits if_splits)

lemma auth_only_retarget_auth: "retarget_auth C mf db = Inr db' \<Longrightarrow> auth_only db db'"
  by (auto simp: retarget_auth_def infra_def and_then_Inr map_err_Inr Let_def outcome_Inr dest!: auth_only_commit
      split: option.splits if_splits)
section \<open>The head of a Fleet\<close>

text \<open>How a head may move: the fence counts the accepted mutations, and deletion is never taken back.\<close>

definition head_later :: "fleet_row \<Rightarrow> fleet_row \<Rightarrow> bool" where
  "head_later f f' \<longleftrightarrow> fleet_incarnation f' = fleet_incarnation f
     \<and> fleet_mutation_fence f \<le> fleet_mutation_fence f'
     \<and> fleet_desired_revision f' - fleet_desired_revision f = fleet_mutation_fence f' - fleet_mutation_fence f
     \<and> (fleet_deletion_marker f \<longrightarrow> fleet_deletion_marker f') \<and> (fleet_tombstone f \<longrightarrow> fleet_tombstone f')
     \<and> (fleet_mutation_fence f' = fleet_mutation_fence f \<longrightarrow> fleet_deletion_marker f' = fleet_deletion_marker f)"

definition heads_later :: "fleet_db \<Rightarrow> fleet_db \<Rightarrow> bool" where
  "heads_later db db' \<longleftrightarrow> (\<forall>k f. head_of db k = Some f \<longrightarrow> (\<exists>f'. head_of db' k = Some f' \<and> head_later f f'))"

lemma head_later_refl [simp]: "head_later f f"
  by (simp add: head_later_def)

lemma head_later_trans: "head_later f f1 \<Longrightarrow> head_later f1 f2 \<Longrightarrow> head_later f f2"
  by (auto simp: head_later_def)

lemma heads_later_refl [simp]: "heads_later db db"
  by (simp add: heads_later_def)

lemma heads_later_trans: "heads_later db db1 \<Longrightarrow> heads_later db1 db2 \<Longrightarrow> heads_later db db2"
  unfolding heads_later_def by (meson head_later_trans)

lemma head_of_put_head: "head_of (put_head key f s db) k = (if k = key then Some f else head_of db k)"
  by (simp add: put_head_def head_of_def fleet_of_def update_conv')

lemma heads_later_same: "same_heads db db' \<Longrightarrow> heads_later db db'"
  by (simp add: heads_later_def same_heads_def head_of_def fleet_of_def)

lemma heads_later_put:
  assumes "\<And>f. head_of db key = Some f \<Longrightarrow> head_later f f'"
  shows "heads_later db (put_head key f' s db)"
  using assms by (auto simp: heads_later_def head_of_put_head)

lemma same_heads_head: "same_heads db db' \<Longrightarrow> head_of db' k = head_of db k"
  by (simp add: same_heads_def head_of_def fleet_of_def)

lemma same_heads_status: "same_heads db db' \<Longrightarrow> status_of db' k = status_of db k"
  by (simp add: same_heads_def status_of_def)

subsection \<open>Inversion of the commits\<close>

lemma insert_row_auth_only: "insert_revision_row ins auth db = Inr db' \<Longrightarrow> auth_only db db'"
  by (auto simp: insert_revision_row_def Let_def auth_only_def same_defs ledger_of_def split: if_splits)

lemma insert_member_auth_only: "insert_member C ins ex m db = Inr db' \<Longrightarrow> auth_only db db'"
  by (auto simp: insert_member_def Let_def and_then_Inr auth_only_def same_defs split: if_splits)

lemma insert_members_auth_only: "insert_members C ins ex ms db = Inr db' \<Longrightarrow> auth_only db db'"
proof (induction C ins ex ms db arbitrary: db' rule: insert_members.induct)
  case (2 C ins ex m ms db)
  then show ?case by (auto simp: and_then_Inr intro: auth_only_trans dest: insert_member_auth_only)
qed simp

text \<open>A head that a mutation may advance, and the head it becomes.\<close>

definition advanceable :: "fleet_row option \<Rightarrow> string \<Rightarrow> int \<Rightarrow> bool" where
  "advanceable existing incarnation revision \<longleftrightarrow>
     (case existing of None \<Rightarrow> True
      | Some f \<Rightarrow> fleet_incarnation f = incarnation \<and> \<not> fleet_deletion_marker f \<and> fleet_desired_revision f + 1 = revision)"

definition advanced :: "fleet_row option \<Rightarrow> string \<Rightarrow> int \<Rightarrow> fleet_row" where
  "advanced existing incarnation revision =
     (case existing of
        None \<Rightarrow> \<lparr>fleet_incarnation = incarnation, fleet_desired_revision = revision, fleet_mutation_fence = 1,
                 fleet_deletion_marker = False, fleet_tombstone = False\<rparr>
      | Some f \<Rightarrow> f\<lparr>fleet_desired_revision := revision, fleet_mutation_fence := fleet_mutation_fence f + 1\<rparr>)"

lemma advance_head_Inr:
  "advance_head ins existing db = Inr db' \<Longrightarrow>
     advanceable existing (ri_incarnation ins) (ri_revision ins)
     \<and> (\<exists>s. db' = put_head (ri_key ins) (advanced existing (ri_incarnation ins) (ri_revision ins)) s db)"
  by (auto simp: advance_head_def advanceable_def advanced_def Let_def split: option.splits if_splits)

lemma commit_revision_Inr:
  assumes "fleet_commit_revision C ins db = Inr db'"
  obtains db2 s where "auth_only db db2" "advanceable (head_of db (ri_key ins)) (ri_incarnation ins) (ri_revision ins)"
    "db' = put_head (ri_key ins) (advanced (head_of db (ri_key ins)) (ri_incarnation ins) (ri_revision ins)) s db2"
proof -
  from assms obtain auth db1 db2 where 1: "insert_revision_row ins auth db = Inr db1"
    and 2: "insert_members C ins (head_of db (ri_key ins)) (ri_template_pool ins) db1 = Inr db2"
    and 3: "advance_head ins (head_of db (ri_key ins)) db2 = Inr db'"
    by (auto simp: fleet_commit_revision_def and_then_Inr Let_def)
  have "auth_only db db2" using insert_row_auth_only [OF 1] insert_members_auth_only [OF 2] by (rule auth_only_trans)
  with advance_head_Inr [OF 3] that show thesis by blast
qed

lemma tail_others: "commit_tail k a d mf db = Inr db' \<Longrightarrow> fd_main db' = fd_main db \<and> fd_status db' = fd_status db \<and> fd_changes db' = fd_changes db"
  by (auto simp: commit_tail_def Let_def split: option.splits if_splits)

lemma change_insert_Inr:
  "change_insert i key r k now db = Inr db' \<Longrightarrow> map_of (fd_changes db) i = None
     \<and> db' = db\<lparr>fd_changes := (i, \<lparr>ch_fleet = key, ch_revision = r, ch_kind = k, ch_state = ''Pending'', ch_attempts = 0,
           ch_next_retry_at = None, ch_reason = None, ch_created_at = now, ch_updated_at = now\<rparr>) # fd_changes db\<rparr>"
  by (auto simp: change_insert_def split: if_splits)

definition new_change :: "mutation_facts \<Rightarrow> change_row" where
  "new_change mf = \<lparr>ch_fleet = mf_key mf, ch_revision = mf_revision mf, ch_kind = cv_kind (mf_change mf), ch_state = ''Pending'',
     ch_attempts = 0, ch_next_retry_at = None, ch_reason = None, ch_created_at = mf_now mf, ch_updated_at = mf_now mf\<rparr>"

text \<open>What an accepted mutation did to heads and changes.\<close>

definition committed :: "mutation_facts \<Rightarrow> fleet_row \<Rightarrow> fleet_db \<Rightarrow> fleet_db \<Rightarrow> bool" where
  "committed mf f' db db' \<longleftrightarrow>
     (\<forall>k. head_of db' k = (if k = mf_key mf then Some f' else head_of db k))
     \<and> fd_changes db' = (cv_id (mf_change mf), new_change mf) # fd_changes db
     \<and> map_of (fd_changes db) (cv_id (mf_change mf)) = None"

lemma committedI:
  assumes "auth_only db0 db2" "change_insert (cv_id (mf_change mf)) (mf_key mf) (mf_revision mf) (cv_kind (mf_change mf)) (mf_now mf) db2 = Inr db3"
    "commit_tail k a d mf db3 = Inr db'" "fd_changes db0 = fd_changes db"
    "\<And>k. head_of db0 k = (if k = mf_key mf then Some f' else head_of db k)"
  shows "committed mf f' db db'"
proof -
  have "fd_changes db2 = fd_changes db" using assms(1,4) by (simp add: auth_only_def same_defs)
  moreover have "head_of db2 k = head_of db0 k" for k using assms(1) by (simp add: auth_only_def same_heads_head)
  moreover have "head_of db' k = head_of db2 k" for k
    using tail_others [OF assms(3)] change_insert_Inr [OF assms(2)] by (simp add: head_of_def ledger_of_def)
  ultimately show ?thesis
    using assms(5) tail_others [OF assms(3)] change_insert_Inr [OF assms(2)] by (simp add: committed_def new_change_def)
qed

lemma commit_mutation_Inr:
  assumes "commit_fleet_mutation_tx C mf db = Inr (u, db')"
  obtains db1 where "fleet_commit_revision C (revision_insert_of mf) db = Inr db1"
    "replacement_gates C mf (previous_revision (mf_key mf) (mf_revision mf) db1) db1 = Inr ()"
    "advanceable (head_of db (mf_key mf)) (mf_incarnation mf) (mf_revision mf)"
    "committed mf (advanced (head_of db (mf_key mf)) (mf_incarnation mf) (mf_revision mf)) db db'"
proof -
  from assms obtain db1 db2 db3 where 1: "fleet_commit_revision C (revision_insert_of mf) db = Inr db1"
    and gates: "replacement_gates C mf (previous_revision (mf_key mf) (mf_revision mf) db1) db1 = Inr ()"
    and 2: "retarget_auth C mf db1 = Inr db2"
    and 3: "change_insert (cv_id (mf_change mf)) (mf_key mf) (mf_revision mf) (cv_kind (mf_change mf)) (mf_now mf) db2 = Inr db3"
    and 4: "commit_tail (mf_resource_kind mf) ''put'' None mf db3 = Inr db'"
    by (auto simp: commit_fleet_mutation_tx_def and_then_Inr map_err_Inr map_ok_Inr infra_def)
  from 1 obtain db0 s where "auth_only db db0" and a: "advanceable (head_of db (mf_key mf)) (mf_incarnation mf) (mf_revision mf)"
    and db1: "db1 = put_head (mf_key mf) (advanced (head_of db (mf_key mf)) (mf_incarnation mf) (mf_revision mf)) s db0"
    by (rule commit_revision_Inr) (simp add: revision_insert_of_def)
  then have "fd_changes db1 = fd_changes db"
    "head_of db1 k = (if k = mf_key mf then Some (advanced (head_of db (mf_key mf)) (mf_incarnation mf) (mf_revision mf)) else head_of db k)" for k
    by (simp_all add: head_of_put_head auth_only_def same_heads_head same_changes_def) (simp add: put_head_def)
  from committedI [OF auth_only_retarget_auth [OF 2] 3 4 this] 1 gates a that show thesis by blast
qed

lemma decommission_Inr:
  assumes "commit_decommission_tx C mf db = Inr (u, db')"
  obtains f s where "head_of db (mf_key mf) = Some f" "fleet_incarnation f = mf_incarnation mf"
    "fleet_desired_revision f + 1 = mf_revision mf"
    "committed mf (f\<lparr>fleet_deletion_marker := True, fleet_desired_revision := mf_revision mf,
       fleet_mutation_fence := fleet_mutation_fence f + 1\<rparr>) db db'"
    "fd_status db' = AList.update (mf_key mf) (s\<lparr>hs_phase := ''Decommissioning'', hs_updated_at := mf_now mf\<rparr>) (fd_status db)"
proof -
  from assms obtain db1 db2 db3 where 1: "fleet_mark_decommissioning (mf_key mf) (mf_incarnation mf) (mf_revision mf) (mf_now mf) db = Inr db1"
    and 2: "cleanup_only_auth C mf db1 = Inr db2"
    and 3: "change_insert (cv_id (mf_change mf)) (mf_key mf) (mf_revision mf) (cv_kind (mf_change mf)) (mf_now mf) db2 = Inr db3"
    and 4: "commit_tail (mf_resource_kind mf) ''put'' None mf db3 = Inr db'"
    by (auto simp: commit_decommission_tx_def and_then_Inr map_err_Inr map_ok_Inr infra_def split: sum.splits store_error.splits)
  from 1 obtain f where f: "head_of db (mf_key mf) = Some f" "fleet_incarnation f = mf_incarnation mf"
      "fleet_desired_revision f + 1 = mf_revision mf"
    and db1: "db1 = put_head (mf_key mf) (f\<lparr>fleet_deletion_marker := True, fleet_desired_revision := mf_revision mf,
       fleet_mutation_fence := fleet_mutation_fence f + 1\<rparr>)
       ((status_of db (mf_key mf))\<lparr>hs_phase := ''Decommissioning'', hs_updated_at := mf_now mf\<rparr>) db"
    by (auto simp: fleet_mark_decommissioning_def and_then_Inr ok_or_Inr split: if_splits)
  have "fd_changes db1 = fd_changes db" by (simp add: db1 put_head_def)
  from committedI [OF auth_only_cleanup [OF 2] 3 4 this, unfolded db1 head_of_put_head, OF refl] have
    "committed mf (f\<lparr>fleet_deletion_marker := True, fleet_desired_revision := mf_revision mf,
       fleet_mutation_fence := fleet_mutation_fence f + 1\<rparr>) db db'" .
  moreover have "fd_status db' = fd_status db1"
    using auth_only_cleanup [OF 2] change_insert_Inr [OF 3] tail_others [OF 4] by (simp add: auth_only_def same_heads_def)
  ultimately show thesis using f that by (simp add: db1 put_head_def)
qed
subsection \<open>Every step keeps heads in order\<close>

lemma advanced_later: "advanceable (Some f) i r \<Longrightarrow> head_later f (advanced (Some f) i r)"
  by (simp add: advanceable_def advanced_def head_later_def)

lemma committed_later:
  assumes "committed mf f' db db'" "\<And>f. head_of db (mf_key mf) = Some f \<Longrightarrow> head_later f f'"
  shows "heads_later db db'"
  using assms by (auto simp: committed_def heads_later_def)

lemma put_later: "commit_fleet_mutation_tx C mf db = Inr (u, db') \<Longrightarrow> heads_later db db'"
  by (erule commit_mutation_Inr, erule committed_later) (auto intro: advanced_later)

lemma delete_later:
  assumes "commit_decommission_tx C mf db = Inr (u, db')"
  shows "heads_later db db'"
proof (rule decommission_Inr [OF assms])
  fix f s assume f: "head_of db (mf_key mf) = Some f" "fleet_desired_revision f + 1 = mf_revision mf"
    and c: "committed mf (f\<lparr>fleet_deletion_marker := True, fleet_desired_revision := mf_revision mf,
       fleet_mutation_fence := fleet_mutation_fence f + 1\<rparr>) db db'"
  show ?thesis by (rule committed_later [OF c]) (use f in \<open>simp add: head_later_def\<close>)
qed

lemma head_of_progress [simp]: "head_of (progress_changes chosen key ob now db) k = head_of db k"
  by (simp add: progress_changes_def head_of_def)

text \<open>An accepted observation: the head it leaves, and the guard it was made under.\<close>

lemma set_observed_Inr:
  assumes "fleet_set_observed E C key ob now db = Inr (ok, db')"
  obtains (refused) "\<not> ok" "db' = db"
  | (decommissioning) f where "ok" "head_of db key = Some f" "guard_matches f (ob_guard ob)" "\<not> fleet_tombstone f"
      "fleet_deletion_marker f" "db' = observed_decommissioning key f ob now db"
  | (running) f where "ok" "head_of db key = Some f" "guard_matches f (ob_guard ob)" "\<not> fleet_tombstone f"
      "\<not> fleet_deletion_marker f" "active_epoch db key = ob_session_epoch ob" "db' = observed_running key f ob now db"
      "ob_phase ob = Ready \<longrightarrow> (case map_of (fd_revisions db) (key, fg_desired_revision (ob_guard ob)) of
         None \<Rightarrow> False | Some r \<Rightarrow> spec_is_pool C (rv_spec r)) \<or> ready_session E key ob db = Inr True"
proof -
  from assms obtain f where f: "head_of db key = Some f"
    by (auto simp: fleet_set_observed_def and_then_Inr ok_or_Inr)
  show thesis
  proof (cases "fleet_deletion_marker f")
    case True
    with assms f that(1) decommissioning [of f] show thesis
      by (auto simp: fleet_set_observed_def ok_or_def split: if_splits)
  next
    case False
    with assms f that(1) running [of f] show thesis
      by (auto simp: fleet_set_observed_def ok_or_def Let_def and_then_Inr split: if_splits)
  qed
qed

lemma observed_later:
  assumes "fleet_set_observed E C key ob now db = Inr (ok, db')"
  shows "heads_later db db'"
  using assms
proof (cases rule: set_observed_Inr)
  case (decommissioning f)
  then show ?thesis by (auto simp: observed_decommissioning_def Let_def heads_later_def head_of_put_head head_later_def)
next
  case (running f)
  then show ?thesis by (auto simp: observed_running_def heads_later_def head_of_put_head)
qed simp

lemma tombstone_later: "fleet_set_tombstone key now db = Inr (u, db') \<Longrightarrow> heads_later db db'"
  by (auto simp: fleet_set_tombstone_def map_ok_Inr ok_or_Inr intro!: heads_later_put simp: head_later_def)

lemma surrounded_heads: "same_heads db (surrounded t db)"
  by (simp add: same_heads_def surrounded_def ledger_of_def)

lemma listener_heads: "same_heads db (fleet_step E L C (ListenerDoes ev) db)"
  using listener_authority [of ev "fd_main db" E L]
  by (cases ev) (simp_all add: same_heads_def same_authority_def ledger_of_def)

lemma auth_only_heads: "auth_only db db' \<Longrightarrow> heads_later db db'"
  by (simp add: auth_only_def heads_later_same)

lemmas fleet_step_later = put_later delete_later observed_later tombstone_later
  auth_only_heads [OF auth_only_acknowledge] auth_only_heads [OF auth_only_blocked]
  auth_only_heads [OF auth_only_context_block] auth_only_heads [OF auth_only_advance]

lemma heads_step: "heads_later db (fleet_step E L C e db)"
proof (cases e)
  case (ListenerDoes ev)
  then show ?thesis using heads_later_same [OF listener_heads] by simp
next
  case (Surroundings t)
  then show ?thesis using heads_later_same [OF surrounded_heads] by simp
qed (auto simp: commit_fleet_tx_snd commit_fleet_mutation_def commit_decommission_def split: sum.split
      intro: fleet_step_later)

lemma heads_run: "heads_later db (run_fleet E L C es db)"
  by (induction es arbitrary: db) (auto intro: heads_later_trans heads_step)

lemma head_run:
  assumes "head_of db key = Some f"
  obtains f' where "head_of (run_fleet E L C es db) key = Some f'" "head_later f f'"
  using heads_run [of db E L C es] assms by (auto simp: heads_later_def)
section \<open>What an accepted mutation settles\<close>

fun mutation_of :: "fleet_event \<Rightarrow> mutation_facts option" where
  "mutation_of (PutFleet mf) = Some mf"
| "mutation_of (DeleteFleet mf) = Some mf"
| "mutation_of _ = None"

fun accepted :: "fleet_codec \<Rightarrow> fleet_event \<Rightarrow> fleet_db \<Rightarrow> bool" where
  "accepted C (PutFleet mf) db \<longleftrightarrow> fst (commit_fleet_mutation C mf db) = Inr ()"
| "accepted C (DeleteFleet mf) db \<longleftrightarrow> fst (commit_decommission C mf db) = Inr ()"
| "accepted C _ db \<longleftrightarrow> False"

lemma accepted_PutFleet:
  assumes "accepted C (PutFleet mf) db"
  shows "commit_fleet_mutation_tx C mf db = Inr ((), fleet_step E L C (PutFleet mf) db)"
  using assms by (auto simp: commit_fleet_mutation_def commit_fleet_tx_def split: sum.splits)

lemma accepted_DeleteFleet:
  assumes "accepted C (DeleteFleet mf) db"
  shows "commit_decommission_tx C mf db = Inr ((), fleet_step E L C (DeleteFleet mf) db)"
  using assms by (auto simp: commit_decommission_def commit_fleet_tx_def split: sum.splits)

lemma accepted_head:
  assumes "accepted C e db" "mutation_of e = Some mf"
  obtains f' where "head_of (fleet_step E L C e db) (mf_key mf) = Some f'" "fleet_desired_revision f' = mf_revision mf"
    "\<And>f. head_of db (mf_key mf) = Some f \<Longrightarrow>
       fleet_mutation_fence f' = fleet_mutation_fence f + 1 \<and> fleet_desired_revision f + 1 = mf_revision mf"
    "e = DeleteFleet mf \<longrightarrow> fleet_deletion_marker f'"
proof (cases e)
  case (PutFleet m)
  with assms(2) have e: "e = PutFleet mf" by simp
  show thesis
    by (rule commit_mutation_Inr [OF accepted_PutFleet [OF assms(1) [unfolded e]]])
      (use that e in \<open>auto simp: committed_def advanced_def advanceable_def split: option.splits\<close>)
next
  case (DeleteFleet m)
  with assms(2) have e: "e = DeleteFleet mf" by simp
  show thesis
    by (rule decommission_Inr [OF accepted_DeleteFleet [OF assms(1) [unfolded e]]])
      (use that e in \<open>auto simp: committed_def\<close>)
qed (use assms in auto)

lemma superseded_fence:
  assumes "accepted C e db" "mutation_of e = Some mf" "head_of db (mf_key mf) = Some f"
  obtains f' where "head_of (run_fleet E L C es (fleet_step E L C e db)) (mf_key mf) = Some f'"
    "fleet_mutation_fence f < fleet_mutation_fence f'"
proof (rule accepted_head [OF assms(1,2)])
  fix f1 assume f1: "head_of (fleet_step E L C e db) (mf_key mf) = Some f1"
    "\<And>f. head_of db (mf_key mf) = Some f \<Longrightarrow>
       fleet_mutation_fence f1 = fleet_mutation_fence f + 1 \<and> fleet_desired_revision f + 1 = mf_revision mf"
  from head_run [OF f1(1)] obtain f' where "head_of (run_fleet E L C es (fleet_step E L C e db)) (mf_key mf) = Some f'" "head_later f1 f'" .
  with f1(2) [OF assms(3)] that show thesis by (auto simp: head_later_def)
qed

lemma stale_guard:
  assumes "head_of db key = Some f" "fg_mutation_fence g \<noteq> fleet_mutation_fence f"
  shows "\<not> fleet_runtime_guard key g (fd_main db)" "\<not> session_close_authorize key g (fd_main db)"
    "runtime_auth_guard E key g c (fd_main db) = Inr False"
    "ob_guard ob = g \<Longrightarrow> fleet_set_observed E C key ob now db = Inr (False, db)"
proof -
  have f: "fleet_of (ld_ledger (fd_main db)) key = Some f" using assms(1) by (simp add: head_of_def ledger_of_def)
  have g: "\<not> guard_matches f g" using assms(2) by (auto simp: guard_matches_def)
  show "\<not> fleet_runtime_guard key g (fd_main db)" using f g by (simp add: fleet_runtime_guard_def)
  then show "runtime_auth_guard E key g c (fd_main db) = Inr False" by (simp add: runtime_auth_guard_def)
  show "\<not> session_close_authorize key g (fd_main db)" using f g by (simp add: session_close_authorize_def)
  show "ob_guard ob = g \<Longrightarrow> fleet_set_observed E C key ob now db = Inr (False, db)"
    using assms(1) g by (simp add: fleet_set_observed_def ok_or_def)
qed

lemma stale_expectation:
  assumes "head_of db key = Some f" "he_mutation_fence ex \<noteq> fleet_mutation_fence f"
  shows "handoff_acknowledge E C key profile revision json ex db \<in> {Inr (Stale, db), Inl (StoreCorrupt ''handoff missing'')}"
    "handoff_mark_blocked key authority ex reason t db = Inr (False, db)"
  using assms by (auto simp: handoff_acknowledge_def acknowledgeable_def Let_def ok_or_def handoff_mark_blocked_def split: option.splits)

text \<open>C14. A mutation invalidates everything decided before it: once a PUT or DELETE of a Fleet was accepted, in every
  continuation no guard captured before it admits a runtime effect, a session close or an observation,
  and no acknowledgement or refusal of a handoff read before it is taken; each leaves the ledger as it is.\<close>

theorem mutation_supersedes:
  assumes "accepted C e db" "mutation_of e = Some mf" "head_of db (mf_key mf) = Some f"
    and "fg_mutation_fence (ob_guard ob) \<le> fleet_mutation_fence f" "he_mutation_fence ex \<le> fleet_mutation_fence f"
    and "later = run_fleet E L C es (fleet_step E L C e db)"
  shows "\<not> fleet_runtime_guard (mf_key mf) (ob_guard ob) (fd_main later)
    \<and> \<not> session_close_authorize (mf_key mf) (ob_guard ob) (fd_main later)
    \<and> runtime_auth_guard E (mf_key mf) (ob_guard ob) c (fd_main later) = Inr False
    \<and> fleet_set_observed E C (mf_key mf) ob now later = Inr (False, later)
    \<and> handoff_acknowledge E C (mf_key mf) profile revision json ex later
        \<in> {Inr (Stale, later), Inl (StoreCorrupt ''handoff missing'')}
    \<and> handoff_mark_blocked (mf_key mf) authority ex reason t later = Inr (False, later)"
proof -
  from superseded_fence [OF assms(1-3)] obtain f' where f': "head_of later (mf_key mf) = Some f'"
    "fleet_mutation_fence f < fleet_mutation_fence f'" unfolding assms(6) .
  have g: "fg_mutation_fence (ob_guard ob) \<noteq> fleet_mutation_fence f'" and x: "he_mutation_fence ex \<noteq> fleet_mutation_fence f'"
    using f'(2) assms(4,5) by simp_all
  from stale_guard [OF f'(1) g] stale_expectation [OF f'(1) x] show ?thesis by blast
qed

text \<open>C15. Of two mutations prepared against the same head of a Fleet at most one is accepted: once one of them is, the
  other is refused in every continuation, whatever happened between, and so is each prepared earlier.\<close>

theorem no_lost_update:
  assumes "accepted C e1 db" "mutation_of e1 = Some mf1" "mutation_of e2 = Some mf2"
    and "mf_key mf2 = mf_key mf1" "mf_revision mf2 \<le> mf_revision mf1"
  shows "\<not> accepted C e2 (run_fleet E L C es (fleet_step E L C e1 db))"
proof
  let ?later = "run_fleet E L C es (fleet_step E L C e1 db)"
  assume 2: "accepted C e2 ?later"
  from accepted_head [OF assms(1,2)] obtain f1 where f1: "head_of (fleet_step E L C e1 db) (mf_key mf1) = Some f1"
    "fleet_desired_revision f1 = mf_revision mf1" by metis
  from head_run [OF f1(1)] obtain f' where f': "head_of ?later (mf_key mf1) = Some f'" "head_later f1 f'" .
  from accepted_head [OF 2 assms(3)] have "fleet_desired_revision f' + 1 = mf_revision mf2"
    using f'(1) assms(4) by metis
  with f'(2) f1(2) assms(5) show False by (simp add: head_later_def)
qed

section \<open>Changes\<close>

text \<open>A Change only moves by an observation of its own Fleet, and none is accepted of a Fleet with a tombstone.\<close>

definition tombstoned :: "string \<Rightarrow> fleet_db \<Rightarrow> bool" where
  "tombstoned key db \<longleftrightarrow> (case head_of db key of None \<Rightarrow> False | Some f \<Rightarrow> fleet_tombstone f)"

lemma tombstoned_later: "heads_later db db' \<Longrightarrow> tombstoned key db \<Longrightarrow> tombstoned key db'"
  by (fastforce simp: tombstoned_def heads_later_def head_later_def split: option.splits)

definition change_stays :: "string \<Rightarrow> change_row \<Rightarrow> fleet_db \<Rightarrow> fleet_db \<Rightarrow> bool" where
  "change_stays i c db db' \<longleftrightarrow> map_of (fd_changes db) i = Some c \<longrightarrow> map_of (fd_changes db') i = Some c"

lemma same_changes_stays: "fd_changes db' = fd_changes db \<Longrightarrow> change_stays i c db db'"
  by (simp add: change_stays_def)

lemma committed_stays: "committed mf f' db db' \<Longrightarrow> change_stays i c db db'"
  by (auto simp: committed_def change_stays_def)

lemma put_stays: "commit_fleet_mutation_tx C mf db = Inr (u, db') \<Longrightarrow> change_stays i c db db'"
  by (erule commit_mutation_Inr) (rule committed_stays)

lemma delete_stays: "commit_decommission_tx C mf db = Inr (u, db') \<Longrightarrow> change_stays i c db db'"
  by (erule decommission_Inr) (rule committed_stays)

lemma auth_only_stays: "auth_only db db' \<Longrightarrow> change_stays i c db db'"
  by (simp add: auth_only_def same_changes_def same_changes_stays)

lemma progress_stays: "ch_fleet c \<noteq> key \<Longrightarrow> change_stays i c db (progress_changes chosen key ob now db)"
  by (simp add: change_stays_def progress_changes_def map_of_update_rows)

lemma fd_changes_put_head [simp]: "fd_changes (put_head key f s db) = fd_changes db"
  by (simp add: put_head_def)

lemma change_stays_put_head [simp]: "change_stays i c (put_head key f s db) db' = change_stays i c db db'"
  by (simp add: change_stays_def)

lemma observed_stays:
  assumes "fleet_set_observed E C key ob now db = Inr (ok, db')" "tombstoned (ch_fleet c) db"
  shows "change_stays i c db db'"
  using assms(1)
proof (cases rule: set_observed_Inr)
  case refused
  then show ?thesis by (simp add: change_stays_def)
next
  case (decommissioning f)
  then have "ch_fleet c \<noteq> key" using assms(2) by (auto simp: tombstoned_def)
  from progress_stays [OF this] show ?thesis
    unfolding decommissioning(6) observed_decommissioning_def Let_def by (metis change_stays_put_head)
next
  case (running f)
  then have "ch_fleet c \<noteq> key" using assms(2) by (auto simp: tombstoned_def)
  from progress_stays [OF this] show ?thesis
    unfolding running(7) observed_running_def by (metis change_stays_put_head)
qed

lemma set_tombstone_changes: "fleet_set_tombstone key now db = Inr (u, db') \<Longrightarrow> fd_changes db' = fd_changes db"
  by (auto simp: fleet_set_tombstone_def map_ok_Inr ok_or_Inr)

lemma listener_changes: "fd_changes (fleet_step E L C (ListenerDoes ev) db) = fd_changes db"
  by (cases ev) simp_all

lemma change_step:
  assumes "tombstoned (ch_fleet c) db"
  shows "change_stays i c db (fleet_step E L C e db)"
proof (cases e)
  case (ListenerDoes ev)
  then show ?thesis using same_changes_stays [OF listener_changes] by metis
next
  case (Surroundings t)
  then show ?thesis by (simp add: change_stays_def surrounded_def)
next
  case (ObserveFleet key ob now)
  show ?thesis
    by (cases "fleet_set_observed E C key ob now db")
      (auto simp: ObserveFleet commit_fleet_tx_snd change_stays_def dest!: observed_stays [OF _ assms, of _ _ _ _ _ _ _ i])
next
  case (TombstoneFleet key now)
  show ?thesis
    by (cases "fleet_set_tombstone key now db")
      (auto simp: TombstoneFleet commit_fleet_tx_snd change_stays_def dest: set_tombstone_changes)
qed (auto simp: commit_fleet_tx_snd commit_fleet_mutation_def commit_decommission_def same_changes_stays split: sum.split
      intro: put_stays delete_stays auth_only_stays auth_only_acknowledge auth_only_blocked auth_only_context_block auth_only_advance)

lemma change_run:
  assumes "tombstoned (ch_fleet c) db" "map_of (fd_changes db) i = Some c"
  shows "map_of (fd_changes (run_fleet E L C es db)) i = Some c"
  using assms
proof (induction es arbitrary: db)
  case (Cons e es)
  from change_step [OF Cons.prems(1)] Cons.prems(2) have "map_of (fd_changes (fleet_step E L C e db)) i = Some c"
    by (simp add: change_stays_def)
  with Cons.IH [OF tombstoned_later [OF heads_step Cons.prems(1)]] show ?case by simp
qed simp

text \<open>C21. Setting the tombstone alone strands the Changes of a Fleet: \<open>fleet_set_tombstone\<close>, by which the Forgejo and GitLab
  supervisors end a decommission, leaves every Change of the Fleet as it was, and whatever happens
  afterwards it stays so: a Decommission that was pending is never reported as succeeded.\<close>

theorem set_tombstone_strands_changes:
  assumes "head_of db key = Some f" "map_of (fd_changes db) i = Some c" "ch_fleet c = key"
    and "later = run_fleet E L C es (fleet_step E L C (TombstoneFleet key now) db)"
  shows "tombstoned key later \<and> map_of (fd_changes later) i = Some c"
proof -
  let ?db = "fleet_step E L C (TombstoneFleet key now) db"
  have t: "tombstoned key ?db" "map_of (fd_changes ?db) i = Some c"
    using assms(1,2) by (simp_all add: commit_fleet_tx_snd fleet_set_tombstone_def ok_or_def map_ok_def tombstoned_def head_of_put_head)
  show ?thesis unfolding assms(4)
    using tombstoned_later [OF heads_run t(1)] change_run [of c ?db i] t assms(3) by simp
qed

text \<open>Every Change is of a revision the Fleet was asked for; the identifiers are distinct.\<close>

definition changes_bounded :: "fleet_db \<Rightarrow> bool" where
  "changes_bounded db \<longleftrightarrow> (\<forall>i c. map_of (fd_changes db) i = Some c \<longrightarrow>
     (\<exists>f. head_of db (ch_fleet c) = Some f \<and> ch_revision c \<le> fleet_desired_revision f))"

lemma changes_boundedD:
  assumes "changes_bounded db" "map_of (fd_changes db) i = Some c"
  obtains f where "head_of db (ch_fleet c) = Some f" "ch_revision c \<le> fleet_desired_revision f"
  using assms unfolding changes_bounded_def by blast

lemma changes_bounded_later:
  assumes "changes_bounded db" "heads_later db db'"
    and "\<And>i c. map_of (fd_changes db') i = Some c \<Longrightarrow>
      (\<exists>c'. map_of (fd_changes db) i = Some c' \<and> ch_fleet c = ch_fleet c' \<and> ch_revision c = ch_revision c')
      \<or> (\<exists>f. head_of db' (ch_fleet c) = Some f \<and> ch_revision c \<le> fleet_desired_revision f)"
  shows "changes_bounded db'"
  unfolding changes_bounded_def
proof (intro allI impI)
  fix i c assume "map_of (fd_changes db') i = Some c"
  from assms(3) [OF this] show "\<exists>f. head_of db' (ch_fleet c) = Some f \<and> ch_revision c \<le> fleet_desired_revision f"
  proof
    assume "\<exists>c'. map_of (fd_changes db) i = Some c' \<and> ch_fleet c = ch_fleet c' \<and> ch_revision c = ch_revision c'"
    then obtain c' :: change_row and f where "ch_fleet c = ch_fleet c'" "ch_revision c = ch_revision c'"
      "head_of db (ch_fleet c') = Some f" "ch_revision c' \<le> fleet_desired_revision f"
      using changes_boundedD [OF assms(1)] by metis
    with assms(2) show ?thesis by (fastforce simp: heads_later_def head_later_def)
  qed
qed

lemma bounded_same: "changes_bounded db \<Longrightarrow> heads_later db db' \<Longrightarrow> fd_changes db' = fd_changes db \<Longrightarrow> changes_bounded db'"
  by (erule changes_bounded_later) auto

lemma bounded_auth_only: "changes_bounded db \<Longrightarrow> auth_only db db' \<Longrightarrow> changes_bounded db'"
  by (rule bounded_same) (auto simp: auth_only_def same_changes_def intro: heads_later_same)

lemma bounded_committed:
  assumes "changes_bounded db" "committed mf f' db db'" "heads_later db db'" "fleet_desired_revision f' = mf_revision mf"
  shows "changes_bounded db'"
  using assms(1,3)
proof (rule changes_bounded_later)
  fix i c assume "map_of (fd_changes db') i = Some c"
  with assms(2,4) show "(\<exists>c'. map_of (fd_changes db) i = Some c' \<and> ch_fleet c = ch_fleet c' \<and> ch_revision c = ch_revision c')
      \<or> (\<exists>f. head_of db' (ch_fleet c) = Some f \<and> ch_revision c \<le> fleet_desired_revision f)"
    by (auto simp: committed_def new_change_def split: if_splits)
qed

lemma bounded_put: "commit_fleet_mutation_tx C mf db = Inr (u, db') \<Longrightarrow> changes_bounded db \<Longrightarrow> changes_bounded db'"
  by (frule put_later, erule commit_mutation_Inr, erule (1) bounded_committed)
    (auto simp: advanced_def split: option.split)

lemma bounded_delete: "commit_decommission_tx C mf db = Inr (u, db') \<Longrightarrow> changes_bounded db \<Longrightarrow> changes_bounded db'"
  by (frule delete_later, erule decommission_Inr, erule (1) bounded_committed) auto

lemma bounded_progress: "changes_bounded db \<Longrightarrow> changes_bounded (progress_changes chosen key ob now db)"
  by (erule changes_bounded_later)
    (auto simp: map_of_update_rows progress_changes_def heads_later_def head_of_def split: if_splits)

lemma bounded_put_head: "changes_bounded db \<Longrightarrow> heads_later db (put_head key f s db) \<Longrightarrow> changes_bounded (put_head key f s db)"
  by (rule bounded_same) simp_all

lemma bounded_observed:
  assumes "fleet_set_observed E C key ob now db = Inr (ok, db')" "changes_bounded db"
  shows "changes_bounded db'"
  using assms(1)
proof (cases rule: set_observed_Inr)
  case refused
  with assms(2) show ?thesis by simp
next
  case (decommissioning f)
  show ?thesis unfolding decommissioning(6) observed_decommissioning_def Let_def
    by (intro bounded_progress bounded_put_head assms(2) heads_later_put) (use decommissioning(2) in \<open>auto simp: head_later_def\<close>)
next
  case (running f)
  show ?thesis unfolding running(7) observed_running_def
    by (intro bounded_progress bounded_put_head assms(2) heads_later_put) (use running(2) in \<open>auto simp: head_later_def\<close>)
qed

lemma bounded_step:
  assumes "changes_bounded db"
  shows "changes_bounded (fleet_step E L C e db)"
proof (cases e)
  case (ListenerDoes ev)
  then show ?thesis using bounded_same [OF assms heads_step listener_changes] by metis
next
  case (Surroundings t)
  then show ?thesis using bounded_same [OF assms heads_step, of E L C e] by (simp add: surrounded_def)
next
  case (TombstoneFleet key now)
  then show ?thesis using bounded_same [OF assms heads_step, of E L C e]
    by (cases "fleet_set_tombstone key now db") (auto simp: assms commit_fleet_tx_snd dest: set_tombstone_changes)
qed (auto simp: assms commit_fleet_tx_snd commit_fleet_mutation_def commit_decommission_def split: sum.split
      intro: assms bounded_observed bounded_put bounded_delete bounded_auth_only [OF assms] auth_only_acknowledge auth_only_blocked
        auth_only_context_block auth_only_advance)

lemma bounded_run: "changes_bounded db \<Longrightarrow> changes_bounded (run_fleet E L C es db)"
  by (induction es arbitrary: db) (auto intro: bounded_step)

text \<open>C20. A decommission reported complete completes every Change: in each run from tables without a Fleet, an accepted
  \<open>Ready\<close> observation of a Fleet under deletion sets its tombstone, and every Change of the Fleet that
  was open is \<open>Succeeded\<close> and every closed one as it was; so none is left open.\<close>

theorem decommission_closes_changes:
  assumes "fd_changes start = []" "db = run_fleet E L C es start"
    and "fleet_set_observed E C key ob now db = Inr (True, later)" "ob_phase ob = Ready"
    and "head_of db key = Some f" "fleet_deletion_marker f"
    and "map_of (fd_changes db) i = Some c" "ch_fleet c = key"
  shows "tombstoned key later \<and> hs_phase (status_of later key) = ''Decommissioned''
    \<and> (\<exists>c'. map_of (fd_changes later) i = Some c' \<and> ch_state c' \<notin> set open_changes
         \<and> ch_state c' = (if ch_state c \<in> set open_changes then ''Succeeded'' else ch_state c))"
proof -
  have "changes_bounded start" using assms(1) by (simp add: changes_bounded_def)
  then have "changes_bounded db" unfolding assms(2) by (rule bounded_run)
  from changes_boundedD [OF this assms(7)] assms(5,8) have r: "ch_revision c \<le> fleet_desired_revision f" by force
  from assms(3) show ?thesis
  proof (cases rule: set_observed_Inr)
    case (decommissioning f')
    with assms(5) have f: "f' = f" "fg_desired_revision (ob_guard ob) = fleet_desired_revision f" by (auto simp: guard_matches_def)
    have "tombstoned key later" "hs_phase (status_of later key) = ''Decommissioned''"
      by (simp_all add: decommissioning(6) observed_decommissioning_def Let_def assms(4) tombstoned_def head_of_put_head)
        (simp add: status_of_def progress_changes_def put_head_def update_conv')
    moreover have "map_of (fd_changes later) i = Some (if ch_state c \<in> set open_changes
        then c\<lparr>ch_state := ''Succeeded'', ch_reason := map_option reason_as_str (ob_reason ob), ch_next_retry_at := None, ch_updated_at := now\<rparr>
        else c)"
      using assms(4,7,8) r f(2)
      by (auto simp: decommissioning(6) observed_decommissioning_def Let_def progress_changes_def map_of_update_rows)
    ultimately show ?thesis by (auto simp: open_changes_def)
  qed (use assms(5,6) in auto)
qed
section \<open>Replacement\<close>

text \<open>What the commit of a revision leaves of the tables that the gates behind it read.\<close>

definition gates_agree :: "string \<Rightarrow> int \<Rightarrow> fleet_db \<Rightarrow> fleet_db \<Rightarrow> bool" where
  "gates_agree key revision db db' \<longleftrightarrow> same_effects db db'
     \<and> (\<forall>k. k \<noteq> (key, revision) \<longrightarrow> rows_at (inline_rows (fd_pools db')) k = rows_at (inline_rows (fd_pools db)) k)
     \<and> filter (\<lambda>((k, r), row). k \<noteq> key \<or> r < revision) (fd_revisions db')
       = filter (\<lambda>((k, r), row). k \<noteq> key \<or> r < revision) (fd_revisions db)"

lemma gates_agree_refl [simp]: "gates_agree key revision db db"
  by (simp add: gates_agree_def same_effects_def)

lemma gates_agree_trans: "gates_agree k r db db1 \<Longrightarrow> gates_agree k r db1 db2 \<Longrightarrow> gates_agree k r db db2"
  by (simp add: gates_agree_def same_effects_def)

lemma insert_row_agrees: "insert_revision_row ins auth db = Inr db' \<Longrightarrow> gates_agree (ri_key ins) (ri_revision ins) db db'"
  by (auto simp: insert_revision_row_def Let_def gates_agree_def same_effects_def ledger_of_def split: if_splits)

lemma rows_at_update: "k \<noteq> k' \<Longrightarrow> rows_at (AList.update k' v t) k = rows_at t k"
  by (simp add: rows_at_def update_conv')

lemma insert_member_agrees: "insert_member C ins ex m db = Inr db' \<Longrightarrow> gates_agree (ri_key ins) (ri_revision ins) db db'"
  by (auto simp: insert_member_def Let_def and_then_Inr gates_agree_def same_effects_def rows_at_update split: if_splits)

lemma insert_members_agrees: "insert_members C ins ex ms db = Inr db' \<Longrightarrow> gates_agree (ri_key ins) (ri_revision ins) db db'"
proof (induction C ins ex ms db arbitrary: db' rule: insert_members.induct)
  case (2 C ins ex m ms db)
  then show ?case by (auto simp: and_then_Inr intro: gates_agree_trans dest: insert_member_agrees)
qed simp

lemma put_head_agrees: "gates_agree k r db (put_head key f s db)"
  by (simp add: gates_agree_def same_effects_def put_head_def ledger_of_def)

lemma advance_head_agrees: "advance_head ins ex db = Inr db' \<Longrightarrow> gates_agree k r db db'"
  by (auto simp: advance_head_def Let_def split: option.splits if_splits intro: put_head_agrees)

lemma commit_revision_agrees: "fleet_commit_revision C ins db = Inr db' \<Longrightarrow> gates_agree (ri_key ins) (ri_revision ins) db db'"
  by (auto simp: fleet_commit_revision_def and_then_Inr Let_def intro: gates_agree_trans
      dest!: insert_row_agrees insert_members_agrees advance_head_agrees)

lemma revisions_before:
  "filter (\<lambda>(r, _). r < revision) (List.map_filter (\<lambda>((k, r), row). if k = key then Some (r, row) else None) kvs)
   = List.map_filter (\<lambda>((k, r), row). if k = key then Some (r, row) else None)
       (filter (\<lambda>((k, r), row). k \<noteq> key \<or> r < revision) kvs)"
  by (induction kvs) (simp_all add: List.map_filter_simps split: prod.split)

lemma agree_previous: "gates_agree key revision db db' \<Longrightarrow> previous_revision key revision db' = previous_revision key revision db"
  by (simp add: previous_revision_def revisions_of_def revisions_before gates_agree_def)

lemma agree_occupancy: "gates_agree key revision db db' \<Longrightarrow> replacement_occupancy k db' = replacement_occupancy k db"
  by (simp add: gates_agree_def same_effects_def replacement_occupancy_def fleet_counts_def Let_def)

lemma newest_in: "newest xs = Some x \<Longrightarrow> x \<in> set xs"
  by (induction xs arbitrary: x) (auto split: option.splits if_splits)

lemma previous_before: "previous_revision key revision db = Some (r, p) \<Longrightarrow> r < revision"
  by (auto simp: previous_revision_def dest: newest_in)

lemma agree_pool_route:
  assumes "gates_agree (mf_key mf) (mf_revision mf) db db'" "r < mf_revision mf"
  shows "pool_route_changed C mf (Some (r, p)) db' = pool_route_changed C mf (Some (r, p)) db"
  using assms by (simp add: pool_route_changed_def gates_agree_def)

text \<open>No resource of the Fleet is alive and no operation of it is open.\<close>

definition vacant :: "string \<Rightarrow> fleet_db \<Rightarrow> bool" where
  "vacant key db \<longleftrightarrow>
     (\<forall>(i, g)\<in>set (db_generations (ledger_of db)). gen_fleet_key g = key \<longrightarrow> gen_state g = as_str_repr Destroyed)
     \<and> (\<forall>(i, r)\<in>set (db_operations (ledger_of db)). op_state r \<in> set open_operation_states \<longrightarrow>
         (\<forall>(j, g)\<in>set (db_generations (ledger_of db)). gen_fleet_key g = key \<longrightarrow> op_generation_id r \<noteq> j))"

lemma no_occupancy:
  "filter (\<lambda>g. gen_state g \<noteq> as_str_repr Destroyed) (filter (\<lambda>g. gen_fleet_key g = key) (map snd gs)) = []
   \<longleftrightarrow> (\<forall>(i, g)\<in>set gs. gen_fleet_key g = key \<longrightarrow> gen_state g = as_str_repr Destroyed)"
  by (induction gs) auto

lemma no_open_operation:
  "filter (\<lambda>(_, r). op_generation_id r \<in> set (map fst (filter (\<lambda>(_, g). gen_fleet_key g = key) gs)) \<and> op_state r \<in> set open_operation_states) os = []
   \<longleftrightarrow> (\<forall>(i, r)\<in>set os. op_state r \<in> set open_operation_states \<longrightarrow>
         (\<forall>(j, g)\<in>set gs. gen_fleet_key g = key \<longrightarrow> op_generation_id r \<noteq> j))"
proof -
  have owner: "i \<in> set (map fst (filter (\<lambda>(_, g). gen_fleet_key g = key) gs))
      \<longleftrightarrow> \<not> (\<forall>(j, g)\<in>set gs. gen_fleet_key g = key \<longrightarrow> i \<noteq> j)" for i
    by (induction gs) auto
  show ?thesis unfolding owner by (induction os) auto
qed

lemma occupancy_vacant: "replacement_occupancy key db \<le> 0 \<longleftrightarrow> vacant key db"
proof -
  have zero: "int (length xs) + int (length ys) \<le> 0 \<longleftrightarrow> xs = [] \<and> ys = []" for xs :: "'a list" and ys :: "'b list"
    by (cases xs; cases ys) simp_all
  show ?thesis
    by (simp only: replacement_occupancy_def fleet_counts_def Let_def generation_counts.simps zero no_occupancy
        no_open_operation vacant_def)
qed

text \<open>C17. Resources are never replaced under a Fleet that has any: an accepted PUT that changes the template (but for a newer
  revision of the same profile), the auth profile, the template inputs, the template pool or the way
  templates are chosen found every Generation of the Fleet destroyed and no operation open.\<close>

theorem replacement_needs_vacancy:
  assumes "accepted C (PutFleet mf) db" "previous_revision (mf_key mf) (mf_revision mf) db = Some (r, p)"
    and "template_changed (mf_template mf) p \<or> fst (rv_auth p) \<noteq> auth_key mf \<or> inputs_changed C (mf_spec mf) p = Inr True
      \<or> pool_ref_changed (mf_pool_ref mf) p \<or> pool_route_changed C mf (Some (r, p)) db"
  shows "vacant (mf_key mf) db"
proof (rule commit_mutation_Inr [OF accepted_PutFleet [OF assms(1)]])
  fix db1 assume 1: "fleet_commit_revision C (revision_insert_of mf) db = Inr db1"
    and gates: "replacement_gates C mf (previous_revision (mf_key mf) (mf_revision mf) db1) db1 = Inr ()"
  have agree: "gates_agree (mf_key mf) (mf_revision mf) db db1"
    using commit_revision_agrees [OF 1] by (simp add: revision_insert_of_def)
  note route = agree_pool_route [OF agree previous_before [OF assms(2)]]
  from gates have "replacement_occupancy (mf_key mf) db1 \<le> 0"
    unfolding agree_previous [OF agree] assms(2) replacement_gates_def Let_def
    using assms(3) by (auto simp: and_then_Inr refuse_unless_def infra_def map_err_Inr route split: if_splits)
  then show ?thesis by (simp add: agree_occupancy [OF agree] occupancy_vacant)
qed
section \<open>An acknowledged handoff opens the guard\<close>

lemma execution_context_cong:
  "ld_retained db' = ld_retained db \<Longrightarrow> auth_execution_context E key p r db' = auth_execution_context E key p r db"
  by (simp add: auth_execution_context_def)

lemma archive_Inr:
  assumes "archive_context E C key c db = Inr db'"
  obtains json where "fc_context C c = Some json"
    "fd_main db' = (fd_main db)\<lparr>ld_retained := insert_new (key, ctx_profile_key c, ctx_revision c) json (ld_retained (fd_main db))\<rparr>"
    "auth_execution_context E key (ctx_profile_key c) (ctx_revision c) (fd_main db) \<in> {Inr None, Inr (Some c)}"
  using assms by (fastforce simp: archive_context_def and_then_Inr ok_or_Inr split: if_splits)

lemma archive_retains:
  assumes "archive_context E C key c db = Inr db'" "has_complete_identity c"
    and codec: "\<And>t. fc_context C c = Some t \<Longrightarrow> decode_auth_context E t = Some c"
  shows "auth_execution_context E key (ctx_profile_key c) (ctx_revision c) (fd_main db') = Inr (Some c)"
  using assms(1)
proof (rule archive_Inr)
  fix json assume a: "fc_context C c = Some json"
    "fd_main db' = (fd_main db)\<lparr>ld_retained := insert_new (key, ctx_profile_key c, ctx_revision c) json (ld_retained (fd_main db))\<rparr>"
    "auth_execution_context E key (ctx_profile_key c) (ctx_revision c) (fd_main db) \<in> {Inr None, Inr (Some c)}"
  show ?thesis
  proof (cases "map_of (ld_retained (fd_main db)) (key, ctx_profile_key c, ctx_revision c)")
    case None
    with a(1,2) codec assms(2) show ?thesis by (simp add: auth_execution_context_def ok_or_def)
  next
    case (Some t)
    then have "auth_execution_context E key (ctx_profile_key c) (ctx_revision c) (fd_main db') =
        auth_execution_context E key (ctx_profile_key c) (ctx_revision c) (fd_main db)"
      by (simp add: a(2) auth_execution_context_def)
    moreover have "auth_execution_context E key (ctx_profile_key c) (ctx_revision c) (fd_main db) \<noteq> Inr None"
      using Some by (auto simp: auth_execution_context_def and_then_Inr)
    ultimately show ?thesis using a(3) by auto
  qed
qed

lemma archive_keeps:
  assumes "archive_context E C key c db = Inr db'" "auth_execution_context E k p r (fd_main db) = Inr (Some c0)"
  shows "auth_execution_context E k p r (fd_main db') = Inr (Some c0)"
  using assms(1)
proof (rule archive_Inr)
  fix json assume a: "fd_main db' = (fd_main db)\<lparr>ld_retained := insert_new (key, ctx_profile_key c, ctx_revision c) json (ld_retained (fd_main db))\<rparr>"
  show ?thesis
  proof (cases "map_of (ld_retained (fd_main db)) (k, p, r)")
    case None
    with assms(2) show ?thesis by (simp add: auth_execution_context_def)
  next
    case (Some t)
    then have "map_of (ld_retained (fd_main db')) (k, p, r) = Some t" by (auto simp: a)
    with assms(2) Some show ?thesis by (simp only: auth_execution_context_def option.case)
  qed
qed

text \<open>Apart from retained contexts, archiving leaves the main tables alone.\<close>

lemma archive_same:
  assumes "archive_context E C key c db = Inr db'"
  shows "ld_auth_revisions (fd_main db') = ld_auth_revisions (fd_main db)" "ld_handoffs (fd_main db') = ld_handoffs (fd_main db)"
    "ld_contexts (fd_main db') = ld_contexts (fd_main db)" "ledger_of db' = ledger_of db"
  by (rule archive_Inr [OF assms], simp add: ledger_of_def)+

lemma handoff_acknowledge_Inr:
  assumes "handoff_acknowledge E C key profile revision json ex db = Inr (Acknowledged, db')"
  obtains h given x f where "handoff_of db key = Some h" "json = Some given" "context_of db key = Some x" "head_of db key = Some f"
    "ho_desired_profile_key h = profile" "ho_desired_revision h = revision" "he_mutation_fence ex = fleet_mutation_fence f"
    "map_of (ld_auth_revisions (fd_main db)) (profile, revision) = Some (2, ''github_app'')"
    "xr_desired_profile_key x = Some profile" "xr_desired_revision x = Some revision"
    "xr_desired_fence x = Some (fleet_mutation_fence f)" "xr_desired_context x = he_desired_context ex"
    "settle_handoff E C key profile revision given h x db = Inr (Acknowledged, db')"
proof -
  from assms obtain h ready where h: "handoff_of db key = Some h" and r: "acknowledgeable key profile revision json ex h db = Inr ready"
    and rest: "(case ready of None \<Rightarrow> Inr (Stale, db) | Some (text, x) \<Rightarrow> settle_handoff E C key profile revision text h x db)
      = Inr (Acknowledged, db')"
    by (auto simp: handoff_acknowledge_def and_then_Inr ok_or_Inr)
  from rest obtain given x where ready: "ready = Some (given, x)" by (auto split: option.splits)
  from r ready obtain auth where d: "ho_desired_profile_key h = profile" "ho_desired_revision h = revision"
    and f: "Some (he_mutation_fence ex) = map_option fleet_mutation_fence (head_of db key)"
    and auth: "map_of (ld_auth_revisions (fd_main db)) (profile, revision) = Some auth" "supported_revision auth = Inr ()"
    and x: "json = Some given" "context_of db key = Some x" "xr_desired_profile_key x = Some profile" "xr_desired_revision x = Some revision"
      "xr_desired_context x = he_desired_context ex" "xr_desired_fence x = map_option fleet_mutation_fence (head_of db key)"
    by (auto simp: acknowledgeable_def Let_def and_then_Inr split: if_splits option.splits)
  from f obtain fleet where "head_of db key = Some fleet" by (cases "head_of db key") auto
  moreover from auth(2) have "auth = (2, ''github_app'')" by (cases auth) (auto simp: supported_revision_def split: if_splits)
  ultimately show thesis using h d f auth(1) x rest ready by (intro that) auto
qed

lemma settle_effects:
  assumes "settle_handoff E C key profile revision given h x db = Inr (Acknowledged, db')" "decode_auth_context E given = Some c"
    and codec: "\<And>t. fc_context C c = Some t \<Longrightarrow> decode_auth_context E t = Some c"
  obtains desired_json desired db2 where "xr_desired_context x = Some desired_json" "decode_auth_context E desired_json = Some desired"
    "completes c desired" "auth_execution_context E key (ctx_profile_key c) (ctx_revision c) (fd_main db2) = Inr (Some c)"
    "ld_auth_revisions (fd_main db2) = ld_auth_revisions (fd_main db)" "ledger_of db2 = ledger_of db"
    "db' = observe_handoff key profile revision given h x db2"
  using assms(1)
proof (cases rule: settle_Inr)
  case (settled c1 desired_json desired observed db1 db2)
  with assms(2) have c1: "c1 = c" by simp
  have complete: "has_complete_identity c" using settled(5) c1 by (simp add: completes_def)
  have r1: "auth_execution_context E key (ctx_profile_key c) (ctx_revision c) (fd_main db1) = Inr (Some c)"
    using archive_retains [OF settled(8) [unfolded c1] complete codec] .
  have r2: "auth_execution_context E key (ctx_profile_key c) (ctx_revision c) (fd_main db2) = Inr (Some c)
      \<and> ld_auth_revisions (fd_main db2) = ld_auth_revisions (fd_main db1) \<and> ledger_of db2 = ledger_of db1"
  proof (cases observed)
    case (Some old)
    with settled(9) have "archive_context E C key old db1 = Inr db2" by simp
    from archive_same(1,4) [OF this] archive_keeps [OF this r1] show ?thesis by simp
  qed (use settled(9) r1 in simp)
  have same: "ld_auth_revisions (fd_main db2) = ld_auth_revisions (fd_main db)" "ledger_of db2 = ledger_of db"
    using r2 archive_same(1,4) [OF settled(8)] by simp_all
  show thesis
    by (rule that [OF settled(3,4) _ conjunct1 [OF r2] same settled(10)]) (use settled(5) c1 in simp)
qed simp

text \<open>C18. An acknowledged handoff opens the guard, for one context: when a handoff was acknowledged with a resolved context, the
  Fleet is live and its handoff not restricted to cleanup, then the guard of the current head admits
  effects under that very context, and under no other.\<close>

theorem acknowledged_opens_guard:
  assumes "handoff_acknowledge E C key (ctx_profile_key c) (ctx_revision c) (Some text) ex db = Inr (Acknowledged, db')"
    and "decode_auth_context E text = Some c"
    and codec: "\<And>t. fc_context C c = Some t \<Longrightarrow> decode_auth_context E t = Some c"
    and "head_of db key = Some f" "\<not> fleet_deletion_marker f" "\<not> fleet_tombstone f"
    and "handoff_of db key = Some h" "\<not> ho_cleanup_only h" "guard_matches f g"
  shows "runtime_auth_guard E key g c' (fd_main db') = Inr True \<longleftrightarrow> c' = c"
proof (rule handoff_acknowledge_Inr [OF assms(1)])
  fix h1 text1 x f1
  assume a: "handoff_of db key = Some h1" "Some text = Some text1" "context_of db key = Some x" "head_of db key = Some f1"
    "ho_desired_profile_key h1 = ctx_profile_key c" "ho_desired_revision h1 = ctx_revision c"
    "map_of (ld_auth_revisions (fd_main db)) (ctx_profile_key c, ctx_revision c) = Some (2, ''github_app'')"
    "xr_desired_profile_key x = Some (ctx_profile_key c)" "xr_desired_revision x = Some (ctx_revision c)"
    "xr_desired_fence x = Some (fleet_mutation_fence f1)"
    "settle_handoff E C key (ctx_profile_key c) (ctx_revision c) text1 h1 x db = Inr (Acknowledged, db')"
  from a(2) assms(2) have "decode_auth_context E text1 = Some c" by simp
  from a(11) this codec show ?thesis
  proof (rule settle_effects)
    fix desired_json desired db2
    assume settled: "xr_desired_context x = Some desired_json" "decode_auth_context E desired_json = Some desired"
      "completes c desired" "auth_execution_context E key (ctx_profile_key c) (ctx_revision c) (fd_main db2) = Inr (Some c)"
      "ld_auth_revisions (fd_main db2) = ld_auth_revisions (fd_main db)" "ledger_of db2 = ledger_of db"
      "db' = observe_handoff key (ctx_profile_key c) (ctx_revision c) text1 h1 x db2"
    have complete: "has_complete_identity c" using settled(3) by (simp add: completes_def)
    have live: "fleet_runtime_guard key g (fd_main db')"
      using assms(4-6,9) settled(6)
      by (simp add: settled(7) observe_handoff_def put_context_def put_handoff_def fleet_runtime_guard_def fleet_of_def
          head_of_def ledger_of_def)
    have execution: "auth_execution_context E key p r (fd_main db') = auth_execution_context E key p r (fd_main db2)" for p r
      by (rule execution_context_cong) (simp add: settled(7) observe_handoff_def put_context_def put_handoff_def)
    note g = assms(9) [unfolded guard_matches_def]
    obtain x' where x': "map_of (ld_contexts (fd_main db')) key = Some x'" "xr_desired_context x' = Some desired_json"
        "xr_observed_context x' = Some text" and row: "context_row_observed x' g c"
      using a(2,4,8-10) assms(4) g settled(1)
      by (simp add: settled(7) observe_handoff_def put_context_def put_handoff_def update_conv' context_row_observed_def)
    have handoff: "\<exists>h'. map_of (ld_handoffs (fd_main db')) key = Some h' \<and> handoff_observed h' c"
      using a(1,5,6) assms(7,8)
      by (simp add: settled(7) observe_handoff_def put_context_def put_handoff_def update_conv' handoff_observed_def)
    have auth: "ld_auth_revisions (fd_main db') = ld_auth_revisions (fd_main db)"
      by (simp add: settled(7) observe_handoff_def put_context_def put_handoff_def settled(5))
    show ?thesis
    proof
      assume "runtime_auth_guard E key g c' (fd_main db') = Inr True"
      then show "c' = c" using x'(1,3) assms(2)
        by (auto simp: runtime_auth_guard_def and_then_Inr decode_context_def map_ok_Inr ok_or_Inr split: if_splits option.splits)
    next
      assume "c' = c"
      then show "runtime_auth_guard E key g c' (fd_main db') = Inr True"
        using live complete x' row handoff auth a(7) assms(2) settled(2-4)
        by (auto simp: runtime_auth_guard_def execution decode_context_def map_ok_def ok_or_def)
    qed
  qed
qed
section \<open>Retried requests\<close>

definition receipts_later :: "fleet_db \<Rightarrow> fleet_db \<Rightarrow> bool" where
  "receipts_later db db' \<longleftrightarrow> fd_legacy_keys db' = fd_legacy_keys db
     \<and> (\<forall>k r. map_of (fd_idempotency db) k = Some r \<longrightarrow> map_of (fd_idempotency db') k = Some r)"

lemma receipts_later_trans: "receipts_later db db1 \<Longrightarrow> receipts_later db1 db2 \<Longrightarrow> receipts_later db db2"
  by (simp add: receipts_later_def)

lemma same_receipts_later: "same_receipts db db' \<Longrightarrow> receipts_later db db'"
  by (simp add: receipts_later_def same_receipts_def)

lemma auth_only_receipts: "auth_only db db' \<Longrightarrow> receipts_later db db'"
  by (simp add: auth_only_def same_receipts_later)

lemma put_head_receipts: "receipts_later db (put_head key f s db)"
  by (simp add: receipts_later_def put_head_def)

lemma change_insert_receipts: "change_insert i key r k now db = Inr db' \<Longrightarrow> receipts_later db db'"
  by (auto dest!: change_insert_Inr simp: receipts_later_def)

lemma tail_receipts:
  assumes "commit_tail k a d mf db = Inr db'"
  shows "receipts_later db db'"
    and "mf_idempotency mf = Some (ck, h, st, body) \<Longrightarrow>
      \<exists>r. map_of (fd_idempotency db') (mf_actor mf, mf_operation mf, mf_resource_kind mf, mf_key mf, ck) = Some r
        \<and> id_request_hash r = h \<and> id_body r = Some body"
  using assms by (auto simp: commit_tail_def Let_def receipts_later_def split: option.splits if_splits)

lemma put_receipts:
  assumes "commit_fleet_mutation_tx C mf db = Inr (u, db')"
  shows "receipts_later db db'"
proof -
  from assms obtain db1 db2 db3 where 1: "fleet_commit_revision C (revision_insert_of mf) db = Inr db1"
    and 2: "retarget_auth C mf db1 = Inr db2"
    and 3: "change_insert (cv_id (mf_change mf)) (mf_key mf) (mf_revision mf) (cv_kind (mf_change mf)) (mf_now mf) db2 = Inr db3"
    and 4: "commit_tail (mf_resource_kind mf) ''put'' None mf db3 = Inr db'"
    by (auto simp: commit_fleet_mutation_tx_def and_then_Inr map_err_Inr map_ok_Inr infra_def)
  have "receipts_later db db1"
    by (rule commit_revision_Inr [OF 1]) (auto intro: receipts_later_trans auth_only_receipts put_head_receipts)
  from receipts_later_trans [OF receipts_later_trans [OF this auth_only_receipts [OF auth_only_retarget_auth [OF 2]]]
      receipts_later_trans [OF change_insert_receipts [OF 3] tail_receipts(1) [OF 4]]]
  show ?thesis .
qed

lemma decommission_receipts:
  assumes "commit_decommission_tx C mf db = Inr (u, db')"
  shows "receipts_later db db'"
    and "mf_idempotency mf = Some (ck, h, st, body) \<Longrightarrow>
      \<exists>r. map_of (fd_idempotency db') (mf_actor mf, mf_operation mf, mf_resource_kind mf, mf_key mf, ck) = Some r
        \<and> id_request_hash r = h \<and> id_body r = Some body"
proof -
  from assms obtain db1 db2 db3 where 1: "fleet_mark_decommissioning (mf_key mf) (mf_incarnation mf) (mf_revision mf) (mf_now mf) db = Inr db1"
    and 2: "cleanup_only_auth C mf db1 = Inr db2"
    and 3: "change_insert (cv_id (mf_change mf)) (mf_key mf) (mf_revision mf) (cv_kind (mf_change mf)) (mf_now mf) db2 = Inr db3"
    and 4: "commit_tail (mf_resource_kind mf) ''put'' None mf db3 = Inr db'"
    by (auto simp: commit_decommission_tx_def and_then_Inr map_err_Inr map_ok_Inr infra_def split: sum.splits store_error.splits)
  from 1 have "receipts_later db db1"
    by (auto simp: fleet_mark_decommissioning_def and_then_Inr put_head_receipts split: if_splits)
  from receipts_later_trans [OF receipts_later_trans [OF this auth_only_receipts [OF auth_only_cleanup [OF 2]]]
      receipts_later_trans [OF change_insert_receipts [OF 3] tail_receipts(1) [OF 4]]]
  show "receipts_later db db'" .
  show "mf_idempotency mf = Some (ck, h, st, body) \<Longrightarrow>
      \<exists>r. map_of (fd_idempotency db') (mf_actor mf, mf_operation mf, mf_resource_kind mf, mf_key mf, ck) = Some r
        \<and> id_request_hash r = h \<and> id_body r = Some body"
    by (rule tail_receipts(2) [OF 4])
qed

lemma receipts_later_refl [simp]: "receipts_later db db"
  by (simp add: receipts_later_def)

lemma observed_receipts: "fleet_set_observed E C key ob now db = Inr (ok, db') \<Longrightarrow> receipts_later db db'"
  by (erule set_observed_Inr)
    (auto simp: observed_decommissioning_def observed_running_def Let_def progress_changes_def receipts_later_def put_head_def)

lemma tombstone_receipts: "fleet_set_tombstone key now db = Inr (u, db') \<Longrightarrow> receipts_later db db'"
  by (auto simp: fleet_set_tombstone_def map_ok_Inr ok_or_Inr put_head_receipts)

lemma receipts_step: "receipts_later db (fleet_step E L C e db)"
proof (cases e)
  case (ListenerDoes ev)
  then show ?thesis by (cases ev) (simp_all add: receipts_later_def)
next
  case (Surroundings t)
  then show ?thesis by (simp add: receipts_later_def surrounded_def)
qed (auto simp: commit_fleet_tx_snd commit_fleet_mutation_def commit_decommission_def split: sum.split
      intro: put_receipts decommission_receipts(1) observed_receipts tombstone_receipts auth_only_receipts auth_only_acknowledge
        auth_only_blocked auth_only_context_block auth_only_advance)

lemma receipts_run: "receipts_later db (run_fleet E L C es db)"
  by (induction es arbitrary: db) (auto intro: receipts_later_trans receipts_step)

text \<open>The record that answers a request.\<close>

definition answers :: "service_codec \<Rightarrow> idempotency_key \<Rightarrow> string \<Rightarrow> mutation_accepted \<Rightarrow> fleet_db \<Rightarrow> bool" where
  "answers S k request_hash a db \<longleftrightarrow> (\<exists>r body. map_of (fd_idempotency db) k = Some r \<and> id_request_hash r = request_hash
     \<and> id_body r = Some body \<and> sc_decode S body = Some a)
     \<and> (case k of (actor, operation, kind_name, key, client_key) \<Rightarrow> (kind_name, key, client_key) \<notin> set (fd_legacy_keys db))"

lemma answers_later: "receipts_later db db' \<Longrightarrow> answers S k h a db \<Longrightarrow> answers S k h a db'"
  by (fastforce simp: answers_def receipts_later_def)

lemma replay_iff:
  "delete_replay S actor key if_match (Some ck) db = Inr (Some a)
   \<longleftrightarrow> answers S (delete_key actor key ck) (delete_hash S key ck if_match) a db"
  by (auto simp: delete_replay_def idempotency_find_def answers_def delete_key_def split: option.splits if_splits)

lemma delete_admit_Inr:
  assumes "delete_admit S actor may key if_match (Some ck) change_id now db = Inr (a, outcome)"
  obtains (replayed) "may" "outcome = None" "delete_replay S actor key if_match (Some ck) db = Inr (Some a)"
  | (fresh) f body where "may" "head_of db key = Some f" "a = delete_accepted key f change_id" "sc_encode S a = Some body"
      "outcome = Some (delete_facts actor key f change_id now (Some (ck, delete_hash S key ck if_match, 202, body)))"
      "(''fleet'', key, ck) \<notin> set (fd_legacy_keys db)" "\<not> fleet_tombstone f"
      "if_match = Some (fleet_incarnation f, fleet_desired_revision f)"
proof -
  from assms have may: "may" by (simp add: delete_admit_def split: if_splits)
  with assms obtain answer where r: "delete_replay S actor key if_match (Some ck) db = Inr answer"
    by (auto simp: delete_admit_def and_then_Inr)
  show thesis
  proof (cases answer)
    case (Some x)
    with assms may r show thesis by (intro replayed) (auto simp: delete_admit_def)
  next
    case None
    have legacy: "(''fleet'', key, ck) \<notin> set (fd_legacy_keys db)"
      using r by (auto simp: delete_replay_def idempotency_find_def delete_key_def split: if_splits)
    show thesis
      using assms may r None legacy
      by (auto simp: delete_admit_def and_then_Inr Let_def split: option.splits if_splits intro!: fresh)
  qed
qed

text \<open>C23. An exact retry of a DELETE repeats its answer and nothing else: after a DELETE with a client key was accepted, the same
  request, whenever it is repeated and whatever happened between (the Fleet may be gone by then), is
  given the first answer again, and the ledger stays as it is.\<close>

theorem delete_retry_replays:
  assumes "db = run_fleet E L C es0 seen"
    and "fleet_delete S C actor True key if_match (Some ck) change_id now seen db = (Inr a, db')"
    and codec: "\<And>t. sc_encode S a = Some t \<Longrightarrow> sc_decode S t = Some a"
    and "later = run_fleet E L C es db'"
  shows "fleet_delete S C actor True key if_match (Some ck) change_id' now' later later = (Inr a, later)"
proof -
  let ?k = "delete_key actor key ck" and ?h = "delete_hash S key ck if_match"
  from assms(2) obtain outcome where admit: "delete_admit S actor True key if_match (Some ck) change_id now seen = Inr (a, outcome)"
    and rest: "(case outcome of None \<Rightarrow> (Inr a, db) | Some mf \<Rightarrow> (case commit_decommission C mf db of
      (Inl e, db') \<Rightarrow> (Inl e, db') | (Inr _, db') \<Rightarrow> (Inr a, db'))) = (Inr a, db')"
    by (auto simp: fleet_delete_def split: sum.splits option.splits prod.splits)
  from admit have "answers S ?k ?h a db'"
  proof (cases rule: delete_admit_Inr)
    case replayed
    with rest have "db' = db" by simp
    with replayed(3) answers_later [OF receipts_run] show ?thesis by (simp add: replay_iff assms(1))
  next
    case (fresh f body)
    let ?mf = "delete_facts actor key f change_id now (Some (ck, ?h, 202, body))"
    from rest fresh(5) have c: "commit_decommission_tx C ?mf db = Inr ((), db')"
      by (auto simp: commit_decommission_def commit_fleet_tx_def split: sum.splits)
    from decommission_receipts(2) [OF c, of ck ?h 202 body] codec [OF fresh(4)]
    have "\<exists>r body. map_of (fd_idempotency db') ?k = Some r \<and> id_request_hash r = ?h \<and> id_body r = Some body \<and> sc_decode S body = Some a"
      by (auto simp: delete_facts_def delete_key_def)
    moreover have "fd_legacy_keys db' = fd_legacy_keys seen"
      using decommission_receipts(1) [OF c] receipts_run [of seen E L C es0] by (simp add: receipts_later_def assms(1))
    ultimately show ?thesis using fresh(6) by (simp add: answers_def delete_key_def)
  qed
  from answers_later [OF receipts_run this] have "answers S ?k ?h a later" by (simp add: assms(4))
  then show ?thesis
    by (simp add: fleet_delete_def delete_admit_def replay_iff [symmetric])
qed
text \<open>C22. A decommission accepted over a tombstone never ends: \<open>fleet_mark_decommissioning\<close> compares the incarnation and the
  revision but does not look at the tombstone, so a DELETE admitted before the Fleet was retired and
  committed after it sets the phase back to \<open>Decommissioning\<close> and leaves a Change that stays pending
  in every continuation.\<close>

theorem delete_over_tombstone_strands:
  assumes "accepted C (DeleteFleet mf) db" "tombstoned (mf_key mf) db" "now_db = fleet_step E L C (DeleteFleet mf) db"
  shows "tombstoned (mf_key mf) now_db \<and> hs_phase (status_of now_db (mf_key mf)) = ''Decommissioning''
    \<and> map_of (fd_changes (run_fleet E L C es now_db)) (cv_id (mf_change mf)) = Some (new_change mf)
    \<and> ch_state (new_change mf) = ''Pending''"
proof (rule decommission_Inr [OF accepted_DeleteFleet [OF assms(1), of E L]])
  fix f s assume c: "committed mf (f\<lparr>fleet_deletion_marker := True, fleet_desired_revision := mf_revision mf,
       fleet_mutation_fence := fleet_mutation_fence f + 1\<rparr>) db (fleet_step E L C (DeleteFleet mf) db)"
    and p: "fd_status (fleet_step E L C (DeleteFleet mf) db) =
      AList.update (mf_key mf) (s\<lparr>hs_phase := ''Decommissioning'', hs_updated_at := mf_now mf\<rparr>) (fd_status db)"
  have t: "tombstoned (mf_key mf) now_db" unfolding assms(3) by (rule tombstoned_later [OF heads_step assms(2)])
  have "map_of (fd_changes now_db) (cv_id (mf_change mf)) = Some (new_change mf)"
    using c by (simp add: committed_def assms(3))
  from change_run [OF _ this] t have "map_of (fd_changes (run_fleet E L C es now_db)) (cv_id (mf_change mf)) = Some (new_change mf)"
    by (simp add: new_change_def)
  moreover have "hs_phase (status_of now_db (mf_key mf)) = ''Decommissioning''"
    using p by (simp add: status_of_def update_conv' assms(3))
  ultimately show ?thesis using t by (simp add: new_change_def)
qed

section \<open>What a Ready observation means\<close>

section \<open>A Fleet at work\<close>

definition head_codec :: fleet_codec where
  "head_codec = \<lparr>fc_spec = (\<lambda>t. Some (False, False)), fc_inputs = (\<lambda>t. Some (if t = ''s'' then [] else [(''k'', JNull)])),
     fc_target = (\<lambda>t. Some (TargetOrganization ''o'')), fc_policy = (\<lambda>t. Some [SelOrganization ''o'']),
     fc_snapshot = (\<lambda>t. Some \<lparr>vs_candidate = (''p'', 1), vs_identities = []\<rparr>), fc_decode_inputs = (\<lambda>t. Some []),
     fc_encode_inputs = (\<lambda>i. Some ''i''), fc_context = (\<lambda>c. if c = listener_context then Some ''c'' else None)\<rparr>"

definition head_service :: service_codec where
  "head_service = \<lparr>sc_hash = concat, sc_encode = (\<lambda>a. Some (acc_etag a)),
     sc_decode = (\<lambda>t. Some (delete_accepted ''f'' sample_fleet ''c1''))\<rparr>"

definition fleet_start :: fleet_db where
  "fleet_start = \<lparr>fd_main = listener_start\<lparr>ld_ledger := (sample_ledger (sample_generation ''Destroyed''))
       \<lparr>db_scale_sets := [(''f'', (Some 3, ''Adopted''))]\<rparr>\<rparr>,
     fd_status = [(''f'', \<lparr>hs_observed_revision = 0, hs_phase = ''Pending'', hs_reason = None, hs_created_at = 0, hs_updated_at = 0\<rparr>)],
     fd_revisions = [((''f'', 1), \<lparr>rv_incarnation = ''x'', rv_spec = ''s'', rv_template = Some (''t'', 1, ''d'', ''a''),
       rv_pool_ref = None, rv_auth = (''p'', 1), rv_inputs_digest = ''i'', rv_actor = ''u'', rv_created_at = 0\<rparr>)],
     fd_changes = [], fd_auths = [(''p'', \<lparr>ah_active = Some 1, ah_deletion_requested = False\<rparr>)],
     fd_auth_details = [((''p'', 1), \<lparr>ad_app_id = Some ''a'', ad_policy = Some ''q'', ad_snapshot = Some ''v'',
       ad_bindings = [\<lparr>br_account_id = 7, br_account_kind = ''organization'', br_login = ''o'', br_installation_id = 9,
         br_repository_selection = ''all'', br_validated_at = 0\<rparr>]\<rparr>)],
     fd_templates = [(''t'', \<lparr>th_active = Some 1, th_deletion_requested = False\<rparr>)],
     fd_pools = \<lparr>pool_refs = [], inline_rows = [], pool_rows = [], pool_policies = []\<rparr>,
     fd_pool_heads = [], fd_audit = [], fd_outbox = [], fd_idempotency = [], fd_legacy_keys = []\<rparr>"

definition put_sample :: "string \<Rightarrow> string \<Rightarrow> mutation_facts" where
  "put_sample change_id spec = \<lparr>mf_operation = ''v1:PUT'', mf_resource_kind = ''fleet'', mf_key = ''f'', mf_incarnation = ''x'',
     mf_revision = 2, mf_spec = spec, mf_template = Some (''t'', 1, ''d'', ''a''), mf_template_pool = [], mf_pool_ref = None,
     mf_auth = Some (''p'', 1), mf_inputs_digest = ''i'', mf_actor = ''u'', mf_now = 5,
     mf_change = \<lparr>cv_id = change_id, cv_resource_kind = ''fleet'', cv_resource_key = ''f'', cv_revision = 2,
       cv_kind = ''Update'', cv_state = ''Pending'', cv_reason = None\<rparr>, mf_outbox_topic = ''fleet.change'', mf_outbox_payload = [],
     mf_idempotency = None\<rparr>"

definition delete_sample :: "string \<Rightarrow> mutation_facts" where
  "delete_sample change_id = delete_facts ''u'' ''f'' sample_fleet change_id 6 None"

definition ready_sample :: "int option \<Rightarrow> runtime_guard \<Rightarrow> fleet_observation" where
  "ready_sample epoch g = \<lparr>ob_guard = g, ob_session_epoch = epoch, ob_phase = Ready, ob_reason = None\<rparr>"

lemma sample_accepted:
  "accepted head_codec (PutFleet (put_sample ''c1'' ''s2'')) fleet_start"
  "accepted head_codec (DeleteFleet (delete_sample ''c1'')) fleet_start"
  by code_simp+

lemma sample_head: "head_of fleet_start ''f'' = Some sample_fleet"
  by code_simp

lemma mutation_supersedes_witness:
  "fleet_set_observed listener_external head_codec ''f'' (ready_sample None listener_guard) 9
      (fleet_step listener_external listener_codec_sample head_codec (PutFleet (put_sample ''c1'' ''s2'')) fleet_start)
   = Inr (False, fleet_step listener_external listener_codec_sample head_codec (PutFleet (put_sample ''c1'' ''s2'')) fleet_start)"
  using mutation_supersedes [OF sample_accepted(1) mutation_of.simps(1), of sample_fleet "ready_sample None listener_guard"
      "\<lparr>he_mutation_fence = 1, he_desired_context = None\<rparr>" _ listener_external listener_codec_sample "[]"]
  by (simp add: sample_head put_sample_def ready_sample_def listener_guard_def sample_fleet_def)

lemma no_lost_update_witness:
  "\<not> accepted head_codec (DeleteFleet (delete_sample ''c2''))
     (fleet_step listener_external listener_codec_sample head_codec (PutFleet (put_sample ''c1'' ''s2'')) fleet_start)"
  using no_lost_update [OF sample_accepted(1) mutation_of.simps(1) mutation_of.simps(2), of "delete_sample ''c2''"
      listener_external listener_codec_sample "[]"]
  by (simp add: put_sample_def delete_sample_def delete_facts_def sample_fleet_def)


lemma replacement_needs_vacancy_witness: "vacant ''f'' fleet_start"
proof -
  have "previous_revision ''f'' 2 fleet_start = Some (1, snd (hd (fd_revisions fleet_start)))"
    and "inputs_changed head_codec ''s2'' (snd (hd (fd_revisions fleet_start))) = Inr True"
    by code_simp+
  with replacement_needs_vacancy [OF sample_accepted(1)] show ?thesis by (simp add: put_sample_def)
qed
definition deleting :: fleet_db where
  "deleting = fleet_step listener_external listener_codec_sample head_codec (DeleteFleet (delete_sample ''c1'')) fleet_start"

lemma set_tombstone_strands_changes_witness:
  "map_of (fd_changes (fleet_step listener_external listener_codec_sample head_codec (TombstoneFleet ''f'' 9) deleting)) ''c1''
   = Some (new_change (delete_sample ''c1''))"
proof -
  have "head_of deleting ''f'' = Some (sample_fleet\<lparr>fleet_deletion_marker := True, fleet_desired_revision := 2, fleet_mutation_fence := 2\<rparr>)"
    and "map_of (fd_changes deleting) ''c1'' = Some (new_change (delete_sample ''c1''))"
    and "ch_fleet (new_change (delete_sample ''c1'')) = ''f''"
    by code_simp+
  from set_tombstone_strands_changes [OF this refl, of listener_external listener_codec_sample head_codec "[]" 9]
  show ?thesis by simp
qed

lemma decommission_closes_changes_witness:
  "\<exists>later. fleet_set_observed listener_external head_codec ''f'' (ready_sample None \<lparr>fg_incarnation = ''x'', fg_desired_revision = 2,
       fg_mutation_fence = 2\<rparr>) 9 deleting = Inr (True, later)
     \<and> tombstoned ''f'' later \<and> map_option ch_state (map_of (fd_changes later) ''c1'') = Some ''Succeeded''"
proof -
  let ?ob = "ready_sample None \<lparr>fg_incarnation = ''x'', fg_desired_revision = 2, fg_mutation_fence = 2\<rparr>"
  let ?f = "sample_fleet\<lparr>fleet_deletion_marker := True, fleet_desired_revision := 2, fleet_mutation_fence := 2\<rparr>"
  have start: "fd_changes fleet_start = []" by (simp add: fleet_start_def)
  have run: "deleting = run_fleet listener_external listener_codec_sample head_codec [DeleteFleet (delete_sample ''c1'')] fleet_start"
    by (simp add: deleting_def)
  have ob: "fleet_set_observed listener_external head_codec ''f'' ?ob 9 deleting = Inr (True, observed_decommissioning ''f'' ?f ?ob 9 deleting)"
    and head: "head_of deleting ''f'' = Some ?f"
    and ch: "map_of (fd_changes deleting) ''c1'' = Some (new_change (delete_sample ''c1''))"
      "ch_fleet (new_change (delete_sample ''c1'')) = ''f''"
    by code_simp+
  have "ob_phase ?ob = Ready" "fleet_deletion_marker ?f" by (simp_all add: ready_sample_def)
  from decommission_closes_changes [OF start run ob this(1) head this(2) ch] ob show ?thesis
    by (auto simp: new_change_def open_changes_def)
qed

lemma acknowledged_opens_guard_witness:
  "\<exists>db'. handoff_acknowledge listener_external head_codec ''f'' ''p'' 1 (Some ''c'')
      \<lparr>he_mutation_fence = 2, he_desired_context = Some ''c''\<rparr>
      (fleet_step listener_external listener_codec_sample head_codec (PutFleet (put_sample ''c1'' ''s2'')) fleet_start)
      = Inr (Acknowledged, db')
    \<and> runtime_auth_guard listener_external ''f'' \<lparr>fg_incarnation = ''x'', fg_desired_revision = 2, fg_mutation_fence = 2\<rparr>
        listener_context (fd_main db') = Inr True"
proof -
  let ?db = "fleet_step listener_external listener_codec_sample head_codec (PutFleet (put_sample ''c1'' ''s2'')) fleet_start"
  let ?ack = "handoff_acknowledge listener_external head_codec ''f'' ''p'' 1 (Some ''c'')
      \<lparr>he_mutation_fence = 2, he_desired_context = Some ''c''\<rparr> ?db"
  let ?f = "sample_fleet\<lparr>fleet_desired_revision := 2, fleet_mutation_fence := 2\<rparr>"
  let ?h = "\<lparr>ho_desired_profile_key = ''p'', ho_desired_revision = 1, ho_observed_profile_key = Some ''p'',
       ho_observed_revision = Some 1, ho_state = ''Pending'', ho_cleanup_only = False,
       ho_attempts = 0, ho_next_retry_at = None, ho_reason = None\<rparr>"
  have ok: "(case ?ack of Inl e \<Rightarrow> False | Inr (a, db') \<Rightarrow> a = Acknowledged)" "head_of ?db ''f'' = Some ?f" "handoff_of ?db ''f'' = Some ?h"
    by code_simp+
  then obtain db' where ack: "?ack = Inr (Acknowledged, db')" by (auto split: sum.splits)
  have c: "ctx_profile_key listener_context = ''p''" "ctx_revision listener_context = 1"
      "decode_auth_context listener_external ''c'' = Some listener_context"
      "\<And>t. fc_context head_codec listener_context = Some t \<Longrightarrow> decode_auth_context listener_external t = Some listener_context"
    by (simp_all add: listener_context_def listener_external_def head_codec_def)
  have "guard_matches ?f \<lparr>fg_incarnation = ''x'', fg_desired_revision = 2, fg_mutation_fence = 2\<rparr>"
    by (simp add: guard_matches_def sample_fleet_def)
  with acknowledged_opens_guard [OF ack [folded c(1,2)] c(3,4) ok(2) _ _ ok(3)] ack show ?thesis
    by (simp add: sample_fleet_def)
qed

lemma delete_retry_replays_witness:
  "fleet_delete head_service head_codec ''u'' True ''f'' (Some (''x'', 1)) (Some ''k'') ''c9'' 99
      (snd (fleet_delete head_service head_codec ''u'' True ''f'' (Some (''x'', 1)) (Some ''k'') ''c1'' 6 fleet_start fleet_start))
      (snd (fleet_delete head_service head_codec ''u'' True ''f'' (Some (''x'', 1)) (Some ''k'') ''c1'' 6 fleet_start fleet_start))
   = (Inr (delete_accepted ''f'' sample_fleet ''c1''),
      snd (fleet_delete head_service head_codec ''u'' True ''f'' (Some (''x'', 1)) (Some ''k'') ''c1'' 6 fleet_start fleet_start))"
proof -
  let ?first = "fleet_delete head_service head_codec ''u'' True ''f'' (Some (''x'', 1)) (Some ''k'') ''c1'' 6 fleet_start fleet_start"
  have "fst ?first = Inr (delete_accepted ''f'' sample_fleet ''c1'')" by code_simp
  then have first: "?first = (Inr (delete_accepted ''f'' sample_fleet ''c1''), snd ?first)" by (metis prod.collapse)
  have run: "fleet_start = run_fleet listener_external listener_codec_sample head_codec [] fleet_start" by simp
  have codec: "sc_encode head_service (delete_accepted ''f'' sample_fleet ''c1'') = Some t
      \<Longrightarrow> sc_decode head_service t = Some (delete_accepted ''f'' sample_fleet ''c1'')" for t
    by (simp add: head_service_def)
  from delete_retry_replays [OF run first codec, of "snd ?first" "[]"] show ?thesis by simp
qed

definition retired :: fleet_db where
  "retired = fleet_step listener_external listener_codec_sample head_codec (TombstoneFleet ''f'' 9) deleting"

lemma delete_over_tombstone_strands_witness:
  "hs_phase (status_of (fleet_step listener_external listener_codec_sample head_codec
     (DeleteFleet ((delete_sample ''c2'')\<lparr>mf_revision := 3\<rparr>)) retired) ''f'') = ''Decommissioning''"
proof -
  have a: "accepted head_codec (DeleteFleet ((delete_sample ''c2'')\<lparr>mf_revision := 3\<rparr>)) retired" by code_simp
  have "tombstoned ''f'' retired" by code_simp
  with delete_over_tombstone_strands [OF a _ refl, of listener_external listener_codec_sample] show ?thesis
    by (simp add: delete_sample_def delete_facts_def)
qed

definition serving :: fleet_db where
  "serving = run_fleet listener_external listener_codec_sample head_codec
     [ListenerDoes (InstallSession ''f'' (listener_install None) 1)]
     (fleet_start\<lparr>fd_changes := [(''c0'', \<lparr>ch_fleet = ''f'', ch_revision = 1, ch_kind = ''Create'', ch_state = ''Running'',
        ch_attempts = 0, ch_next_retry_at = None, ch_reason = None, ch_created_at = 0, ch_updated_at = 0\<rparr>)]\<rparr>)"


end
