(* ===== verification/Listener_Task.thy ===== *)
theory Listener_Task
  imports Fleet_Head
begin

text \<open>
  How the tasks of a listener run.  An asynchronous function is a tree of the points at which it gives way
  to other tasks: critical sections of its memory, transactions of the store, calls of GitHub, the gate of
  the Fleet (\<open>effect_gate.rs\<close>).  Tasks of any number of listeners of one Fleet interleave at these points;
  between two of them the rest of the program changes the store as it likes, and a crash ends every task
  and forgets every memory.
\<close>

section \<open>Answers of GitHub\<close>

text \<open>A duration is its \<open>as_millis\<close>.\<close>

datatype access_failure =
    AccessUnauthenticated | AccessSessionExpired | AccessPermissionDenied | AccessHidden
  | AccessRateLimited "nat option" | AccessUnavailable string | AccessUncertain string

datatype 'a effect_outcome = Definite 'a | Uncertain string

datatype poll_outcome = NoMessage | NewMessage poll_message | PollExpired

section \<open>Memory and calls\<close>

record listener_memory =
  ls_session :: "persisted_session option"
  ls_uncommitted :: "(int \<times> session_handle) option"
  ls_retry_at :: int
  ls_failures :: nat
  ls_reason :: "reason_code option"
  ls_enabled :: bool
  ls_reconnect :: bool
  ls_stopped :: bool

definition fresh_memory :: listener_memory where
  "fresh_memory = \<lparr>ls_session = None, ls_uncommitted = None, ls_retry_at = 0, ls_failures = 0, ls_reason = None,
     ls_enabled = False, ls_reconnect = False, ls_stopped = False\<rparr>"

datatype gate_mode = SharedClaim | ExclusiveGate

datatype github_client = OwnClient | RetainedClient string int

text \<open>The calls of the store that answer yes or no.\<close>

datatype store_query =
    ListenerCurrent session_effect_context
  | AuthorizeSession runtime_guard resolved_auth_context
  | AuthorizeClose runtime_guard
  | AcknowledgeMessage session_effect_context int int
  | CompleteAcquisition session_effect_context int "int list option" int
  | ConfirmEmptyPoll session_effect_context int
  | ForgetSession int int
  | PublishObservation fleet_observation int

text \<open>The ports \<open>LifecycleStore\<close> and \<open>ListenerMessageStore\<close>, for one Fleet.\<close>

record 's message_store =
  ms_ask :: "store_query \<Rightarrow> 's \<Rightarrow> (core_error + bool) \<times> 's"
  ms_pending :: "session_effect_context \<Rightarrow> 's \<Rightarrow> core_error + ingested_message list"
  ms_session :: "'s \<Rightarrow> core_error + persisted_session option"
  ms_epoch :: "'s \<Rightarrow> core_error + int option"
  ms_ingest :: "session_effect_context \<Rightarrow> poll_message \<Rightarrow> int \<Rightarrow> 's \<Rightarrow> (core_error + ingested_message option) \<times> 's"
  ms_start :: "session_effect_context \<Rightarrow> int \<Rightarrow> int \<Rightarrow> 's \<Rightarrow> (core_error + int list option) \<times> 's"
  ms_install :: "session_install_request \<Rightarrow> int \<Rightarrow> 's \<Rightarrow> (core_error + int option) \<times> 's"

section \<open>Programs\<close>

datatype 'a prog =
    Done 'a
  | Memory "listener_memory \<Rightarrow> listener_memory" "listener_memory \<Rightarrow> 'a prog"
  | Hold "'a prog"
  | Release "'a prog"
  | TakeGate gate_mode "'a prog"
  | DropGate "'a prog"
  | Now "int \<Rightarrow> 'a prog"
  | AskStore store_query "core_error + bool \<Rightarrow> 'a prog"
  | LoadPending session_effect_context "core_error + ingested_message list \<Rightarrow> 'a prog"
  | LoadSession "core_error + persisted_session option \<Rightarrow> 'a prog"
  | LoadEpoch "core_error + int option \<Rightarrow> 'a prog"
  | StoreMessage session_effect_context poll_message int "core_error + ingested_message option \<Rightarrow> 'a prog"
  | StartAcquisition session_effect_context int int "core_error + int list option \<Rightarrow> 'a prog"
  | StoreSession session_install_request int "core_error + int option \<Rightarrow> 'a prog"
  | RemotePoll session_handle int int "access_failure + poll_outcome \<Rightarrow> 'a prog"
  | RemoteAck persisted_session int "access_failure + unit \<Rightarrow> 'a prog"
  | RemoteAcquire persisted_session "int list" "access_failure + int list effect_outcome \<Rightarrow> 'a prog"
  | RemoteEstablish int string "access_failure + session_handle effect_outcome \<Rightarrow> 'a prog"
  | RemoteDelete github_client int string "access_failure + unit \<Rightarrow> 'a prog"

primrec bind :: "'a prog \<Rightarrow> ('a \<Rightarrow> 'b prog) \<Rightarrow> 'b prog" where
  "bind (Done a) g = g a"
| "bind (Memory f k) g = Memory f (\<lambda>m. bind (k m) g)"
| "bind (Hold p) g = Hold (bind p g)"
| "bind (Release p) g = Release (bind p g)"
| "bind (TakeGate mode p) g = TakeGate mode (bind p g)"
| "bind (DropGate p) g = DropGate (bind p g)"
| "bind (Now k) g = Now (\<lambda>t. bind (k t) g)"
| "bind (AskStore q k) g = AskStore q (\<lambda>r. bind (k r) g)"
| "bind (LoadPending c k) g = LoadPending c (\<lambda>r. bind (k r) g)"
| "bind (LoadSession k) g = LoadSession (\<lambda>r. bind (k r) g)"
| "bind (LoadEpoch k) g = LoadEpoch (\<lambda>r. bind (k r) g)"
| "bind (StoreMessage c m t k) g = StoreMessage c m t (\<lambda>r. bind (k r) g)"
| "bind (StartAcquisition c i t k) g = StartAcquisition c i t (\<lambda>r. bind (k r) g)"
| "bind (StoreSession install t k) g = StoreSession install t (\<lambda>r. bind (k r) g)"
| "bind (RemotePoll h l n k) g = RemotePoll h l n (\<lambda>r. bind (k r) g)"
| "bind (RemoteAck h i k) g = RemoteAck h i (\<lambda>r. bind (k r) g)"
| "bind (RemoteAcquire h ids k) g = RemoteAcquire h ids (\<lambda>r. bind (k r) g)"
| "bind (RemoteEstablish s w k) g = RemoteEstablish s w (\<lambda>r. bind (k r) g)"
| "bind (RemoteDelete c s i k) g = RemoteDelete c s i (\<lambda>r. bind (k r) g)"

text \<open>The \<open>?\<close> operator on the result of a call.\<close>

definition attempt :: "('e + 'a) prog \<Rightarrow> ('a \<Rightarrow> ('e + 'b) prog) \<Rightarrow> ('e + 'b) prog" where
  "attempt p g = bind p (\<lambda>r. case r of Inl e \<Rightarrow> Done (Inl e) | Inr x \<Rightarrow> g x)"

text \<open>A body whose guard is dropped on every way out.\<close>

definition with_gate :: "gate_mode \<Rightarrow> 'a prog \<Rightarrow> 'a prog" where
  "with_gate mode p = TakeGate mode (bind p (\<lambda>r. DropGate (Done r)))"

definition with_lock :: "'a prog \<Rightarrow> 'a prog" where
  "with_lock p = Hold (bind p (\<lambda>r. Release (Done r)))"

definition ask :: "store_query \<Rightarrow> (core_error + bool) prog" where
  "ask q = AskStore q Done"

definition look :: "(listener_memory \<Rightarrow> 'a) \<Rightarrow> 'a prog" where
  "look g = Memory id (\<lambda>m. Done (g m))"

definition remember :: "(listener_memory \<Rightarrow> listener_memory) \<Rightarrow> unit prog" where
  "remember f = Memory f (\<lambda>m. Done ())"

section \<open>What a task knows and holds\<close>

text \<open>
  The proof side of a task: the gate and the lock it holds, what it knows of its memory under them, the
  messages it was shown by the store, the acknowledgements GitHub confirmed, the requests it owes an
  acquisition, the session it established and has not put into memory, and, while it holds the gate, the
  sessions it may forget and the epoch it was told is current.
\<close>

record view =
  v_gate :: "gate_mode option"
  v_held :: bool
  v_seen :: "listener_memory option"
  v_slot :: "(int \<times> session_handle) option option"
  v_known :: "(int \<times> int) set"
  v_confirmed :: "(int \<times> int) set"
  v_owed :: "(int \<times> int list) option"
  v_hand :: "(int \<times> session_handle) option"
  v_settled :: "string set"
  v_live :: "int option"

definition fresh_view :: view where
  "fresh_view = \<lparr>v_gate = None, v_held = False, v_seen = None, v_slot = None, v_known = {}, v_confirmed = {}, v_owed = None,
     v_hand = None, v_settled = {}, v_live = None\<rparr>"

definition at_rest :: "view \<Rightarrow> bool" where
  "at_rest v \<longleftrightarrow> v_gate v = None \<and> \<not> v_held v \<and> v_owed v = None \<and> v_hand v = None"

lemma fresh_view_rest [simp]: "at_rest fresh_view"
  by (simp add: at_rest_def fresh_view_def)

text \<open>The memories a task may find, and the changes it may make.\<close>

definition expects :: "view \<Rightarrow> listener_memory \<Rightarrow> bool" where
  "expects v m \<longleftrightarrow> (\<forall>m'. v_seen v = Some m' \<longrightarrow> m = m') \<and> (\<forall>s. v_slot v = Some s \<longrightarrow> ls_uncommitted m = s)"

definition may_change :: "view \<Rightarrow> listener_memory \<Rightarrow> listener_memory \<Rightarrow> bool" where
  "may_change v m m' \<longleftrightarrow>
     (case v_hand v of
        Some x \<Rightarrow> ls_uncommitted m' = Some x \<and> ls_uncommitted m = None
      | None \<Rightarrow> ls_uncommitted m' = ls_uncommitted m
          \<or> v_gate v = Some ExclusiveGate \<and> ls_uncommitted m' = None
            \<and> (\<forall>s h. ls_uncommitted m = Some (s, h) \<longrightarrow> sh_session_id h \<in> v_settled v))"

definition changed :: "listener_memory \<Rightarrow> view \<Rightarrow> view" where
  "changed m v = v\<lparr>v_seen := (if v_held v then Some m else None),
     v_slot := (if v_gate v = Some ExclusiveGate then Some (ls_uncommitted m) else None), v_hand := None\<rparr>"

definition may_ask :: "view \<Rightarrow> store_query \<Rightarrow> bool" where
  "may_ask v q \<longleftrightarrow> (case q of
       AcknowledgeMessage c i t \<Rightarrow> (se_epoch c, i) \<in> v_confirmed v
     | ForgetSession e t \<Rightarrow> v_gate v = Some ExclusiveGate
     | PublishObservation ob t \<Rightarrow> ob_phase ob = Ready \<longrightarrow> (\<exists>m. v_held v \<and> v_seen v = Some m \<and> ls_reason m = None)
     | _ \<Rightarrow> True)"

definition asked_view :: "store_query \<Rightarrow> core_error + bool \<Rightarrow> view \<Rightarrow> view" where
  "asked_view q r v = (case q of
       ListenerCurrent c \<Rightarrow> if r = Inr True \<and> v_gate v \<noteq> None then v\<lparr>v_live := Some (se_epoch c)\<rparr> else v
     | ForgetSession e t \<Rightarrow> v\<lparr>v_live := None\<rparr>
     | _ \<Rightarrow> v)"

definition shown :: "session_effect_context \<Rightarrow> core_error + ingested_message list \<Rightarrow> view \<Rightarrow> view" where
  "shown c r v = (case r of Inl e \<Rightarrow> v | Inr ms \<Rightarrow> v\<lparr>v_known := v_known v \<union> (\<lambda>m. (se_epoch c, im_id m)) ` set ms\<rparr>)"

definition stored :: "session_effect_context \<Rightarrow> core_error + ingested_message option \<Rightarrow> view \<Rightarrow> view" where
  "stored c r v = (case r of Inr (Some m) \<Rightarrow> v\<lparr>v_known := insert (se_epoch c, im_id m) (v_known v)\<rparr> | _ \<Rightarrow> v)"

definition started_view :: "session_effect_context \<Rightarrow> core_error + int list option \<Rightarrow> view \<Rightarrow> view" where
  "started_view c r v = (case r of
       Inr (Some ids) \<Rightarrow> v\<lparr>v_owed := (if ids = [] then None else Some (se_epoch c, ids)), v_live := Some (se_epoch c)\<rparr>
     | _ \<Rightarrow> v)"

definition installed_view :: "session_install_request \<Rightarrow> core_error + int option \<Rightarrow> view \<Rightarrow> view" where
  "installed_view install r v =
     (case r of Inr (Some _) \<Rightarrow> v\<lparr>v_settled := insert (sh_session_id (in_handle install)) (v_settled v)\<rparr> | _ \<Rightarrow> v)\<lparr>v_live := None\<rparr>"

definition confirmed_view :: "int \<times> int \<Rightarrow> access_failure + unit \<Rightarrow> view \<Rightarrow> view" where
  "confirmed_view i r v = (case r of Inr _ \<Rightarrow> v\<lparr>v_confirmed := insert i (v_confirmed v)\<rparr> | _ \<Rightarrow> v)"

definition established_view :: "int \<Rightarrow> access_failure + session_handle effect_outcome \<Rightarrow> view \<Rightarrow> view" where
  "established_view s r v = v\<lparr>v_hand := (case r of Inr (Definite h) \<Rightarrow> Some (s, h) | _ \<Rightarrow> None), v_settled := {}\<rparr>"

text \<open>A session whose deletion was accepted, or answered as expired, is gone.\<close>

definition gone :: "access_failure + unit \<Rightarrow> bool" where
  "gone r \<longleftrightarrow> (case r of Inr _ \<Rightarrow> True | Inl e \<Rightarrow> e = AccessSessionExpired)"

definition deleted_view :: "string \<Rightarrow> access_failure + unit \<Rightarrow> view \<Rightarrow> view" where
  "deleted_view i r v = (if gone r then v\<lparr>v_settled := insert i (v_settled v)\<rparr> else v)"

section \<open>Weakest preconditions\<close>

primrec wp :: "'a prog \<Rightarrow> ('a \<Rightarrow> view \<Rightarrow> bool) \<Rightarrow> view \<Rightarrow> bool" where
  "wp (Done a) Q v \<longleftrightarrow> Q a v"
| "wp (Memory f k) Q v \<longleftrightarrow> (\<forall>m. expects v m \<longrightarrow> may_change v m (f m) \<and> wp (k m) Q (changed (f m) v))"
| "wp (Hold p) Q v \<longleftrightarrow> \<not> v_held v \<and> wp p Q (v\<lparr>v_held := True, v_seen := None\<rparr>)"
| "wp (Release p) Q v \<longleftrightarrow> v_held v \<and> v_hand v = None \<and> wp p Q (v\<lparr>v_held := False, v_seen := None\<rparr>)"
| "wp (TakeGate mode p) Q v \<longleftrightarrow> v_gate v = None \<and> \<not> v_held v \<and> wp p Q (v\<lparr>v_gate := Some mode, v_slot := None, v_settled := {}, v_live := None\<rparr>)"
| "wp (DropGate p) Q v \<longleftrightarrow> v_gate v \<noteq> None \<and> v_hand v = None \<and> v_owed v = None \<and> wp p Q (v\<lparr>v_gate := None, v_slot := None, v_live := None\<rparr>)"
| "wp (Now k) Q v \<longleftrightarrow> (\<forall>t. wp (k t) Q v)"
| "wp (AskStore q k) Q v \<longleftrightarrow> may_ask v q \<and> (\<forall>r. wp (k r) Q (asked_view q r v))"
| "wp (LoadPending c k) Q v \<longleftrightarrow> (\<forall>r. wp (k r) Q (shown c r v))"
| "wp (LoadSession k) Q v \<longleftrightarrow> (\<forall>r. wp (k r) Q v)"
| "wp (LoadEpoch k) Q v \<longleftrightarrow> (\<forall>r. wp (k r) Q v)"
| "wp (StoreMessage c m t k) Q v \<longleftrightarrow> v_gate v = Some SharedClaim \<and> (\<forall>r. wp (k r) Q (stored c r v))"
| "wp (StartAcquisition c i t k) Q v \<longleftrightarrow> v_gate v = Some SharedClaim \<and> v_owed v = None \<and> (\<forall>r. wp (k r) Q (started_view c r v))"
| "wp (StoreSession install t k) Q v \<longleftrightarrow> v_gate v = Some ExclusiveGate \<and> (\<forall>r. wp (k r) Q (installed_view install r v))"
| "wp (RemotePoll h l n k) Q v \<longleftrightarrow> v_gate v = None \<and> \<not> v_held v \<and> (\<forall>r. wp (k r) Q v)"
| "wp (RemoteAck h i k) Q v \<longleftrightarrow> v_gate v = Some SharedClaim \<and> \<not> v_held v \<and> (ps_epoch h, i) \<in> v_known v \<and> v_live v = Some (ps_epoch h)
     \<and> (\<forall>r. wp (k r) Q (confirmed_view (ps_epoch h, i) r v))"
| "wp (RemoteAcquire h ids k) Q v \<longleftrightarrow> v_gate v = Some SharedClaim \<and> \<not> v_held v \<and> v_owed v = Some (ps_epoch h, ids) \<and> v_live v = Some (ps_epoch h)
     \<and> (\<forall>r. wp (k r) Q (v\<lparr>v_owed := None\<rparr>))"
| "wp (RemoteEstablish s w k) Q v \<longleftrightarrow> v_gate v = Some ExclusiveGate \<and> \<not> v_held v \<and> v_hand v = None \<and> v_slot v = Some None
     \<and> (\<forall>r. wp (k r) Q (established_view s r v))"
| "wp (RemoteDelete c s i k) Q v \<longleftrightarrow> v_gate v = Some ExclusiveGate \<and> \<not> v_held v \<and> v_hand v = None
     \<and> (\<forall>r. wp (k r) Q (deleted_view i r v))"

lemma wp_bind: "wp (bind p g) Q v = wp p (\<lambda>a. wp (g a) Q) v"
  by (induction p arbitrary: v) simp_all

lemma wp_mono:
  assumes "wp p Q v" "\<And>a v. Q a v \<Longrightarrow> Q' a v"
  shows "wp p Q' v"
  using assms(1) by (induction p arbitrary: v) (use assms(2) in auto)

lemma wp_attempt: "wp (attempt p g) Q v = wp p (\<lambda>r. case r of Inl e \<Rightarrow> Q (Inl e) | Inr x \<Rightarrow> wp (g x) Q) v"
  by (auto simp: attempt_def wp_bind elim!: wp_mono split: sum.splits)

end
