(* ===== verification/Listener_Loop.thy ===== *)
theory Listener_Loop
  imports Listener_Task
begin

text \<open>
  The listener of a Fleet in the daemon: \<open>listener.rs\<close>, \<open>listener_poll.rs\<close> and \<open>listener_session.rs\<close> of
  \<open>shaula-daemon\<close>, every function with its locks, gates, calls and early returns, as programs of
  \<open>Listener_Task\<close>; and that each of them keeps the discipline the interleaving relies on.
\<close>

section \<open>Configuration and failures\<close>

text \<open>Of the retained clients of other credentials the listener asks whether there is one.\<close>

record listener_config =
  lf_fleet :: string
  lf_guard :: runtime_guard
  lf_auth :: resolved_auth_context
  lf_max_capacity :: int
  lf_retained :: "(string \<times> int) list"

definition listener_matches :: "listener_config \<Rightarrow> runtime_guard \<Rightarrow> resolved_auth_context \<Rightarrow> bool" where
  "listener_matches F g auth \<longleftrightarrow> lf_guard F = g \<and> lf_auth F = auth"

definition effect_context :: "listener_config \<Rightarrow> int \<Rightarrow> session_effect_context" where
  "effect_context F epoch = \<lparr>se_guard = lf_guard F, se_auth = lf_auth F, se_epoch = epoch\<rparr>"

fun access_reason :: "access_failure \<Rightarrow> reason_code" where
  "access_reason AccessUnauthenticated = Unauthenticated"
| "access_reason AccessSessionExpired = Unauthenticated"
| "access_reason AccessPermissionDenied = PermissionDenied"
| "access_reason AccessHidden = TargetHiddenOrNotFound"
| "access_reason (AccessRateLimited d) = RateLimited"
| "access_reason (AccessUnavailable s) = AccessVerificationFailed"
| "access_reason (AccessUncertain s) = AccessVerificationFailed"

text \<open>The backoff in milliseconds, from the number of failures with the new one counted.\<close>

definition backoff_seconds :: "nat \<Rightarrow> int" where
  "backoff_seconds failures = 5 * 2 ^ min failures 5"

definition retry_delay :: "access_failure \<Rightarrow> nat \<Rightarrow> int" where
  "retry_delay failure failures =
     (case failure of
        AccessRateLimited (Some delay) \<Rightarrow>
          max (if int delay \<le> i64_max then int delay else i64_max) (backoff_seconds failures * 1000)
      | _ \<Rightarrow> backoff_seconds failures * 1000)"

definition fleet_jitter :: "string \<Rightarrow> int" where
  "fleet_jitter key = fold (\<lambda>b n. (n + of_char b) mod 1000) key 0"

definition retry_deadline :: "string \<Rightarrow> access_failure \<Rightarrow> nat \<Rightarrow> int \<Rightarrow> int" where
  "retry_deadline key failure failures now =
     saturating_add (saturating_add now (retry_delay failure failures)) (fleet_jitter key)"

definition session_epoch_of :: "listener_memory \<Rightarrow> int option" where
  "session_epoch_of m = map_option ps_epoch (ls_session m)"

definition count_failure :: "access_failure \<Rightarrow> listener_memory \<Rightarrow> listener_memory" where
  "count_failure failure m =
     (if failure = AccessSessionExpired then m\<lparr>ls_reconnect := True, ls_enabled := False\<rparr> else m)
       \<lparr>ls_failures := min (ls_failures m + 1) u32_max\<rparr>"

definition set_failure :: "listener_config \<Rightarrow> access_failure \<Rightarrow> int option \<Rightarrow> bool prog" where
  "set_failure F failure epoch = with_lock (
     bind (look session_epoch_of) (\<lambda>current.
     if epoch \<noteq> None \<and> current \<noteq> epoch then Done False else
     bind (remember (count_failure failure)) (\<lambda>_.
     Now (\<lambda>t.
     bind (remember (\<lambda>m. m\<lparr>ls_retry_at := retry_deadline (lf_fleet F) failure (ls_failures m) t,
             ls_reason := Some (access_reason failure)\<rparr>)) (\<lambda>_.
     Done True)))))"

definition failed :: "listener_config \<Rightarrow> access_failure \<Rightarrow> unit prog" where
  "failed F failure = bind (set_failure F failure None) (\<lambda>_. Done ())"

definition failed_session :: "listener_config \<Rightarrow> int \<Rightarrow> access_failure \<Rightarrow> bool prog" where
  "failed_session F epoch failure = set_failure F failure (Some epoch)"

definition listener_reason :: "reason_code option prog" where
  "listener_reason = look ls_reason"

definition authorize_runtime :: "listener_config \<Rightarrow> (core_error + bool) prog" where
  "authorize_runtime F = ask (AuthorizeSession (lf_guard F) (lf_auth F))"

definition current :: "listener_config \<Rightarrow> int \<Rightarrow> (core_error + bool) prog" where
  "current F epoch = ask (ListenerCurrent (effect_context F epoch))"

section \<open>Observations\<close>

definition observe_failure :: "listener_config \<Rightarrow> int \<Rightarrow> reason_code \<Rightarrow> (core_error + unit) prog" where
  "observe_failure F epoch reason = with_lock (
     bind (look ls_reason) (\<lambda>seen.
     if seen = None then Done (Inr ()) else
     Now (\<lambda>t.
     attempt (ask (PublishObservation
         \<lparr>ob_guard = lf_guard F, ob_session_epoch = Some epoch, ob_phase = Degraded, ob_reason = Some reason\<rparr> t)) (\<lambda>_.
     Done (Inr ())))))"

definition publish_observation :: "fleet_observation \<Rightarrow> int \<Rightarrow> (core_error + unit) prog" where
  "publish_observation ob now = with_lock (
     bind (look ls_reason) (\<lambda>reason.
     attempt (ask (PublishObservation
         (if ob_phase ob = Ready \<and> reason \<noteq> None then ob\<lparr>ob_phase := Degraded, ob_reason := reason\<rparr> else ob) now)) (\<lambda>_.
     Done (Inr ()))))"

section \<open>Polling\<close>

definition poll_failed :: "listener_config \<Rightarrow> int \<Rightarrow> access_failure \<Rightarrow> (core_error + unit) prog" where
  "poll_failed F epoch failure =
     attempt (current F epoch) (\<lambda>ok.
     if \<not> ok then Done (Inr ()) else
     bind (failed_session F epoch failure) (\<lambda>marked.
     if \<not> marked then Done (Inr ()) else observe_failure F epoch (access_reason failure)))"

definition recovered :: "listener_config \<Rightarrow> int \<Rightarrow> (core_error + unit) prog" where
  "recovered F epoch =
     attempt (current F epoch) (\<lambda>ok.
     if \<not> ok then Done (Inr ()) else
     bind (remember (\<lambda>m. if session_epoch_of m \<noteq> Some epoch then m
        else m\<lparr>ls_retry_at := 0, ls_reason := None, ls_failures := 0\<rparr>)) (\<lambda>_. Done (Inr ())))"

definition lost_reply :: "access_failure \<Rightarrow> bool" where
  "lost_reply failure \<longleftrightarrow> (case failure of AccessUncertain s \<Rightarrow> True | AccessHidden \<Rightarrow> True | _ \<Rightarrow> False)"

definition acknowledge :: "listener_config \<Rightarrow> persisted_session \<Rightarrow> ingested_message \<Rightarrow> (core_error + bool) prog" where
  "acknowledge F session message =
     (if im_acked message then Done (Inr True) else
      RemoteAck session (im_id message) (\<lambda>r. case r of
        Inl failure \<Rightarrow>
          bind (if lost_reply failure then remember (\<lambda>m. m\<lparr>ls_reconnect := True\<rparr>) else Done ()) (\<lambda>_.
          attempt (poll_failed F (ps_epoch session) failure) (\<lambda>_. Done (Inr False)))
      | Inr _ \<Rightarrow> Now (\<lambda>t. ask (AcknowledgeMessage (effect_context F (ps_epoch session)) (im_id message) t))))"

text \<open>The accepted requests, \<open>None\<close> when it is not known, and the failure to report.\<close>

fun acquisition_answer :: "access_failure + int list effect_outcome \<Rightarrow> int list option \<times> access_failure option" where
  "acquisition_answer (Inr (Definite ids)) = (Some ids, None)"
| "acquisition_answer (Inr (Uncertain s)) = (None, Some (AccessUncertain ''acquisition outcome uncertain''))"
| "acquisition_answer (Inl failure) = ((case failure of AccessUncertain s \<Rightarrow> None | _ \<Rightarrow> Some []), Some failure)"

definition acquire :: "listener_config \<Rightarrow> persisted_session \<Rightarrow> ingested_message \<Rightarrow> (core_error + bool) prog" where
  "acquire F session message =
     Now (\<lambda>t. StartAcquisition (effect_context F (ps_epoch session)) (im_id message) t (\<lambda>r. case r of
       Inl e \<Rightarrow> Done (Inl e)
     | Inr None \<Rightarrow> Done (Inr False)
     | Inr (Some requests) \<Rightarrow>
         if requests = [] then Done (Inr True) else
         RemoteAcquire session requests (\<lambda>outcome.
         let (accepted, failure) = acquisition_answer outcome in
         bind (if accepted = None then remember (\<lambda>m. m\<lparr>ls_reconnect := True\<rparr>) else Done ()) (\<lambda>_.
         Now (\<lambda>t.
         attempt (ask (CompleteAcquisition (effect_context F (ps_epoch session)) (im_id message) accepted t)) (\<lambda>ok.
         case failure of
           Some f \<Rightarrow> attempt (poll_failed F (ps_epoch session) f) (\<lambda>_. Done (Inr False))
         | None \<Rightarrow> Done (Inr ok)))))))"

definition finish_message :: "listener_config \<Rightarrow> persisted_session \<Rightarrow> ingested_message \<Rightarrow> (core_error + bool) prog" where
  "finish_message F session message = with_gate SharedClaim (
     attempt (current F (ps_epoch session)) (\<lambda>ok.
     if \<not> ok then Done (Inr False) else
     attempt (acknowledge F session message) (\<lambda>acked.
     if \<not> acked then Done (Inr False) else acquire F session message)))"

fun finish_messages :: "listener_config \<Rightarrow> persisted_session \<Rightarrow> ingested_message list \<Rightarrow> (core_error + bool) prog" where
  "finish_messages F session [] = Done (Inr True)"
| "finish_messages F session (m # ms) =
     attempt (finish_message F session m) (\<lambda>ok. if \<not> ok then Done (Inr False) else finish_messages F session ms)"

definition poll_answer :: "listener_config \<Rightarrow> persisted_session \<Rightarrow> access_failure + poll_outcome \<Rightarrow> (core_error + unit) prog" where
  "poll_answer F session answer =
     (case answer of
        Inr NoMessage \<Rightarrow>
          Now (\<lambda>t. AskStore (ConfirmEmptyPoll (effect_context F (ps_epoch session)) t) (\<lambda>_. recovered F (ps_epoch session)))
      | Inr (NewMessage message) \<Rightarrow>
          attempt (with_gate SharedClaim (Now (\<lambda>t. StoreMessage (effect_context F (ps_epoch session)) message t Done))) (\<lambda>committed.
          case committed of
            None \<Rightarrow> Done (Inr ())
          | Some message \<Rightarrow>
              attempt (finish_message F session message) (\<lambda>ok.
              if ok then recovered F (ps_epoch session) else Done (Inr ())))
      | Inr PollExpired \<Rightarrow> poll_failed F (ps_epoch session) AccessSessionExpired
      | Inl failure \<Rightarrow> poll_failed F (ps_epoch session) failure)"

definition poll_ready :: "persisted_session option prog" where
  "poll_ready = with_lock (
     bind (look id) (\<lambda>m.
     if \<not> ls_enabled m \<or> ls_reconnect m then Done None else
     Now (\<lambda>t. if t < ls_retry_at m then Done None else Done (ls_session m))))"

definition poll_next :: "listener_config \<Rightarrow> persisted_session \<Rightarrow> (core_error + unit) prog" where
  "poll_next F remembered =
     attempt (LoadSession Done) (\<lambda>session. case session of None \<Rightarrow> Done (Inr ()) | Some session \<Rightarrow>
     if ps_epoch session \<noteq> ps_epoch remembered then Done (Inr ()) else
     RemotePoll (ps_handle session) (ps_last_message_id session) (lf_max_capacity F) (poll_answer F session))"

definition poll_pending :: "listener_config \<Rightarrow> persisted_session \<Rightarrow> (core_error + unit) prog" where
  "poll_pending F remembered =
     attempt (LoadPending (effect_context F (ps_epoch remembered)) Done) (\<lambda>pending.
     attempt (finish_messages F remembered pending) (\<lambda>finished.
     if \<not> finished then Done (Inr ()) else poll_next F remembered))"

definition poll_inner :: "listener_config \<Rightarrow> (core_error + unit) prog" where
  "poll_inner F =
     bind poll_ready (\<lambda>remembered. case remembered of None \<Rightarrow> Done (Inr ()) | Some remembered \<Rightarrow>
     attempt (current F (ps_epoch remembered)) (\<lambda>ok.
     if \<not> ok then Done (Inr ()) else poll_pending F remembered))"

definition poll_once :: "listener_config \<Rightarrow> (core_error + unit) prog" where
  "poll_once F =
     bind (look session_epoch_of) (\<lambda>epoch.
     bind (poll_inner F) (\<lambda>result.
     case (result, epoch) of
       (Inl e, Some epoch) \<Rightarrow>
         bind (failed_session F epoch (AccessUnavailable (reason_as_str (code e)))) (\<lambda>marked.
         if marked then attempt (observe_failure F epoch (code e)) (\<lambda>_. Done result) else Done result)
     | _ \<Rightarrow> Done result))"

section \<open>Sessions\<close>

definition clear_uncommitted :: "listener_config \<Rightarrow> bool prog" where
  "clear_uncommitted F =
     bind (look ls_uncommitted) (\<lambda>candidate. case candidate of None \<Rightarrow> Done True | Some (scale_set, handle) \<Rightarrow>
     RemoteDelete OwnClient scale_set (sh_session_id handle) (\<lambda>r.
     if gone r then bind (remember (\<lambda>m. m\<lparr>ls_uncommitted := None\<rparr>)) (\<lambda>_. Done True)
     else (case r of Inl failure \<Rightarrow> bind (failed F failure) (\<lambda>_. Done False) | Inr _ \<Rightarrow> Done True)))"

definition client_for :: "listener_config \<Rightarrow> persisted_session \<Rightarrow> github_client option" where
  "client_for F session =
     (if ps_auth session = lf_auth F then Some OwnClient
      else if (ctx_profile_key (ps_auth session), ctx_revision (ps_auth session)) \<in> set (lf_retained F)
      then Some (RetainedClient (ctx_profile_key (ps_auth session)) (ctx_revision (ps_auth session))) else None)"

text \<open>Which session a listener may close: a current one whatever is stored, a retired one only its own.\<close>

definition session_to_clear :: "listener_config \<Rightarrow> bool \<Rightarrow> persisted_session option \<Rightarrow> persisted_session option
    \<Rightarrow> (core_error + persisted_session option) prog" where
  "session_to_clear F replace stored_session remembered =
     (if replace then Done (Inr (case stored_session of Some s \<Rightarrow> Some s | None \<Rightarrow> remembered))
      else if remembered = None
      then attempt (ask (AuthorizeClose (lf_guard F))) (\<lambda>ok. Done (Inr (if ok then stored_session else remembered)))
      else Done (Inr remembered))"

definition close_session :: "listener_config \<Rightarrow> persisted_session \<Rightarrow> (core_error + bool) prog" where
  "close_session F session = (case client_for F session of
     None \<Rightarrow> bind (remember (\<lambda>m. m\<lparr>ls_reason := Some OwnershipProofFailed\<rparr>)) (\<lambda>_. Done (Inr False))
   | Some client \<Rightarrow>
       RemoteDelete client (ps_scale_set_id session) (sh_session_id (ps_handle session)) (\<lambda>r.
       if \<not> gone r then (case r of Inl failure \<Rightarrow> bind (failed F failure) (\<lambda>_. Done (Inr False)) | Inr _ \<Rightarrow> Done (Inr False)) else
       Now (\<lambda>t.
       attempt (ask (ForgetSession (ps_epoch session) t)) (\<lambda>_.
       bind (remember (\<lambda>m. m\<lparr>ls_session := None\<rparr>)) (\<lambda>_. Done (Inr True))))))"

definition clear_session :: "listener_config \<Rightarrow> bool \<Rightarrow> (core_error + bool) prog" where
  "clear_session F replace =
     bind (remember (\<lambda>m. m\<lparr>ls_enabled := False\<rparr>)) (\<lambda>_.
     attempt (LoadSession Done) (\<lambda>stored_session.
     bind (look ls_session) (\<lambda>remembered.
     attempt (session_to_clear F replace stored_session remembered) (\<lambda>session.
     case session of None \<Rightarrow> Done (Inr True) | Some session \<Rightarrow> close_session F session))))"

text \<open>The deadline and the session are looked at again under the lock, which is held while the store is asked.\<close>

definition reuse_session :: "listener_config \<Rightarrow> int \<Rightarrow> int \<Rightarrow> (core_error + int option option) prog" where
  "reuse_session F scale_set now = with_lock (
     bind (look id) (\<lambda>m.
     if now < ls_retry_at m then Done (Inr (Some None)) else
     case ls_session m of
       None \<Rightarrow> Done (Inr None)
     | Some session \<Rightarrow>
         if ls_reconnect m \<or> ps_scale_set_id session \<noteq> scale_set then Done (Inr None) else
         attempt (current F (ps_epoch session)) (\<lambda>ok. Done (Inr (if ok then Some (Some (ps_epoch session)) else None)))))"

definition session_owner :: "listener_config \<Rightarrow> int option \<Rightarrow> string" where
  "session_owner F epoch =
     ''shaula-'' @ fg_incarnation (lf_guard F) @ ''-'' @ show_int (case epoch of None \<Rightarrow> 0 | Some e \<Rightarrow> e)"

definition adopt_session :: "listener_config \<Rightarrow> int \<Rightarrow> int \<Rightarrow> session_handle \<Rightarrow> listener_memory \<Rightarrow> listener_memory" where
  "adopt_session F scale_set epoch handle m =
     m\<lparr>ls_uncommitted := None,
       ls_session := Some \<lparr>ps_epoch = epoch, ps_last_message_id = 0, ps_scale_set_id = scale_set, ps_auth = lf_auth F,
         ps_handle = handle\<rparr>,
       ls_enabled := True, ls_stopped := False, ls_reconnect := False, ls_reason := None, ls_failures := 0, ls_retry_at := 0\<rparr>"

definition install_session :: "listener_config \<Rightarrow> int \<Rightarrow> int option \<Rightarrow> int \<Rightarrow> session_handle \<Rightarrow> (core_error + int option) prog" where
  "install_session F scale_set expected now handle =
     bind (remember (\<lambda>m. m\<lparr>ls_uncommitted := Some (scale_set, handle)\<rparr>)) (\<lambda>_.
     StoreSession \<lparr>in_guard = lf_guard F, in_expected_epoch = expected, in_auth = lf_auth F, in_scale_set = scale_set,
         in_handle = handle\<rparr> now (\<lambda>r. case r of
       Inr (Some epoch) \<Rightarrow> bind (remember (adopt_session F scale_set epoch handle)) (\<lambda>_. Done (Inr (Some epoch)))
     | _ \<Rightarrow> bind (clear_uncommitted F) (\<lambda>_. Done r)))"

definition establish_session :: "listener_config \<Rightarrow> int \<Rightarrow> int \<Rightarrow> (core_error + int option) prog" where
  "establish_session F scale_set now =
     attempt (LoadEpoch Done) (\<lambda>expected.
     RemoteEstablish scale_set (session_owner F expected) (\<lambda>r. case r of
       Inr (Definite handle) \<Rightarrow> install_session F scale_set expected now handle
     | Inr (Uncertain s) \<Rightarrow> bind (failed F (AccessUncertain ''session establishment uncertain'')) (\<lambda>_. Done (Inr None))
     | Inl failure \<Rightarrow> bind (failed F failure) (\<lambda>_. Done (Inr None))))"

definition ensure_session :: "listener_config \<Rightarrow> int \<Rightarrow> (core_error + int option) prog" where
  "ensure_session F scale_set = with_gate ExclusiveGate (
     Now (\<lambda>now.
     bind (look ls_retry_at) (\<lambda>retry_at.
     if now < retry_at then Done (Inr None) else
     bind (clear_uncommitted F) (\<lambda>cleared.
     if \<not> cleared then Done (Inr None) else
     attempt (authorize_runtime F) (\<lambda>ok.
     if \<not> ok then Done (Inr None) else
     attempt (reuse_session F scale_set now) (\<lambda>reused. case reused of
       Some None \<Rightarrow> Done (Inr None)
     | Some (Some epoch) \<Rightarrow> bind (remember (\<lambda>m. m\<lparr>ls_enabled := True\<rparr>)) (\<lambda>_. Done (Inr (Some epoch)))
     | None \<Rightarrow>
         attempt (clear_session F True) (\<lambda>cleared.
         if \<not> cleared then Done (Inr None) else
         attempt (authorize_runtime F) (\<lambda>ok.
         if \<not> ok then Done (Inr None) else establish_session F scale_set now))))))))"

definition stop :: "listener_config \<Rightarrow> (core_error + bool) prog" where
  "stop F = with_gate ExclusiveGate (
     bind (clear_uncommitted F) (\<lambda>cleared.
     if \<not> cleared then Done (Inr False) else
     bind (look ls_stopped) (\<lambda>stopped.
     if stopped then Done (Inr True) else
     attempt (clear_session F False) (\<lambda>stopped.
     bind (remember (\<lambda>m. m\<lparr>ls_stopped := stopped\<rparr>)) (\<lambda>_. Done (Inr stopped))))))"

text \<open>A reconcile pass that holds the gate of the listener, and an effect of another part that holds a claim.\<close>

definition handoff_gate :: "unit prog" where
  "handoff_gate = with_gate ExclusiveGate (Done ())"

definition effect_claim :: "unit prog" where
  "effect_claim = with_gate SharedClaim (Done ())"

end
