(* ===== verification/Listener_Discipline.thy ===== *)
theory Listener_Discipline
  imports Listener_Loop
begin

text \<open>
  Every entry point of the listener keeps the discipline of \<open>Listener_Task\<close>: it acknowledges and acquires
  under a claim and only what the store showed or gave it, establishes, deletes and records sessions under
  the exclusive gate and with none left uncommitted, publishes \<open>Ready\<close> only over a memory without a
  failure, and ends with every guard dropped.
\<close>

section \<open>Programs that leave the session alone\<close>

definition kept :: "view \<Rightarrow> view \<Rightarrow> bool" where
  "kept v v' \<longleftrightarrow> v_gate v' = v_gate v \<and> v_held v' = v_held v \<and> v_owed v' = v_owed v \<and> v_hand v' = v_hand v
     \<and> v_known v \<subseteq> v_known v'"

definition calm :: "view \<Rightarrow> view \<Rightarrow> bool" where
  "calm v v' \<longleftrightarrow> kept v v' \<and> (\<forall>s. v_gate v = Some ExclusiveGate \<and> v_slot v = Some s \<longrightarrow> v_slot v' = Some s)"

definition free :: "view \<Rightarrow> bool" where
  "free v \<longleftrightarrow> \<not> v_held v \<and> v_hand v = None"

definition tame :: "'a prog \<Rightarrow> bool" where
  "tame p \<longleftrightarrow> (\<forall>v. free v \<longrightarrow> wp p (\<lambda>a v'. calm v v') v)"

lemma kept_refl [simp]: "kept v v"
  by (simp add: kept_def)

lemma kept_trans: "kept v v1 \<Longrightarrow> kept v1 v2 \<Longrightarrow> kept v v2"
  by (auto simp: kept_def)

lemma calm_refl [simp]: "calm v v"
  by (simp add: calm_def)

lemma calm_trans: "calm v v1 \<Longrightarrow> calm v1 v2 \<Longrightarrow> calm v v2"
  by (auto simp: calm_def kept_def)

lemma calm_kept: "calm v v' \<Longrightarrow> kept v v'"
  by (simp add: calm_def)

lemma kept_free: "kept v v' \<Longrightarrow> free v \<Longrightarrow> free v'"
  by (simp add: kept_def free_def)

lemma kept_rest: "kept v v' \<Longrightarrow> at_rest v \<Longrightarrow> at_rest v'"
  by (simp add: kept_def at_rest_def)

lemma rest_free: "at_rest v \<Longrightarrow> free v"
  by (simp add: at_rest_def free_def)

lemma tameD: "tame p \<Longrightarrow> free v \<Longrightarrow> (\<And>a v'. calm v v' \<Longrightarrow> Q a v') \<Longrightarrow> wp p Q v"
  unfolding tame_def by (blast intro: wp_mono)

lemma tame_Done [simp]: "tame (Done a)"
  by (simp add: tame_def)

lemma tame_bind: "tame p \<Longrightarrow> (\<And>a. tame (g a)) \<Longrightarrow> tame (bind p g)"
  unfolding tame_def wp_bind
  by (blast intro: wp_mono calm_trans kept_free calm_kept)

lemma tame_attempt: "tame p \<Longrightarrow> (\<And>a. tame (g a)) \<Longrightarrow> tame (attempt p g)"
  unfolding attempt_def by (rule tame_bind) (auto split: sum.split)

lemma tame_Now: "(\<And>t. tame (k t)) \<Longrightarrow> tame (Now k)"
  by (simp add: tame_def)

lemma asked_fields [simp]:
  "v_gate (asked_view q r v) = v_gate v" "v_held (asked_view q r v) = v_held v" "v_owed (asked_view q r v) = v_owed v"
  "v_hand (asked_view q r v) = v_hand v" "v_slot (asked_view q r v) = v_slot v" "v_known (asked_view q r v) = v_known v"
  "v_seen (asked_view q r v) = v_seen v" "v_confirmed (asked_view q r v) = v_confirmed v" "v_settled (asked_view q r v) = v_settled v"
  by (simp_all add: asked_view_def split: store_query.split)

lemma asked_calm [simp]: "calm v (asked_view q r v)"
  by (simp add: calm_def kept_def)

lemma tame_ask: "(\<And>v. may_ask v q) \<Longrightarrow> tame (ask q)"
  by (simp add: tame_def ask_def)

lemma tame_look [simp]: "tame (look g)"
  by (auto simp: tame_def look_def free_def may_change_def calm_def kept_def changed_def expects_def)

lemma tame_remember: "(\<And>m. ls_uncommitted (f m) = ls_uncommitted m) \<Longrightarrow> tame (remember f)"
  by (auto simp: tame_def remember_def free_def may_change_def calm_def kept_def changed_def expects_def)

text \<open>Under the lock a program is judged with what it has seen; outside nothing of that is left.\<close>

lemma tame_lock:
  assumes "\<And>v. v_held v \<Longrightarrow> v_hand v = None \<Longrightarrow> wp p (\<lambda>a v'. calm v v') v"
  shows "tame (with_lock p)"
  unfolding tame_def with_lock_def
proof (intro allI impI)
  fix v assume v: "free v"
  let ?u = "v\<lparr>v_held := True, v_seen := None\<rparr>"
  have "wp p (\<lambda>a v'. calm ?u v') ?u" using v by (intro assms) (simp_all add: free_def)
  then have "wp p (\<lambda>a. wp (Release (Done a)) (\<lambda>b v'. calm v v')) ?u"
    by (rule wp_mono) (use v in \<open>auto simp: calm_def kept_def free_def\<close>)
  then show "wp (Hold (bind p (\<lambda>r. Release (Done r)))) (\<lambda>a v'. calm v v') v"
    using v by (simp only: wp.simps(3) wp_bind free_def) simp
qed

section \<open>Failures and observations\<close>

lemma uncommitted_simps [simp]:
  "ls_uncommitted (count_failure f m) = ls_uncommitted m"
  by (simp add: count_failure_def)

lemma may_ask_simps [simp]:
  "may_ask v (ListenerCurrent c)" "may_ask v (AuthorizeSession g a)" "may_ask v (AuthorizeClose g)"
  "may_ask v (CompleteAcquisition c i acc t)" "may_ask v (ConfirmEmptyPoll c t)"
  "may_ask v (AcknowledgeMessage c i t) = ((se_epoch c, i) \<in> v_confirmed v)"
  "ob_phase ob \<noteq> Ready \<Longrightarrow> may_ask v (PublishObservation ob t)"
  by (simp_all add: may_ask_def)

lemmas memory_simps = look_def remember_def expects_def may_change_def changed_def calm_def kept_def

lemma tame_set_failure: "tame (set_failure F failure epoch)"
  unfolding set_failure_def by (rule tame_lock) (auto simp: wp_bind memory_simps)

lemma tame_failed: "tame (failed F failure)"
  by (simp add: failed_def tame_bind tame_set_failure)

lemma tame_current: "tame (current F epoch)"
  by (simp add: current_def tame_ask)

lemma tame_authorize: "tame (authorize_runtime F)"
  by (simp add: authorize_runtime_def tame_ask)

lemma tame_observe_failure: "tame (observe_failure F epoch reason)"
  unfolding observe_failure_def
  by (rule tame_lock) (auto simp: wp_bind wp_attempt ask_def memory_simps split: sum.split)

lemma tame_publish: "tame (publish_observation ob now)"
  unfolding publish_observation_def
  by (rule tame_lock) (auto simp: wp_bind wp_attempt ask_def may_ask_def memory_simps split: sum.split)

lemma tame_if: "(b \<Longrightarrow> tame p) \<Longrightarrow> (\<not> b \<Longrightarrow> tame q) \<Longrightarrow> tame (if b then p else q)"
  by simp

lemmas tame_intros = tame_Done tame_bind tame_attempt tame_Now tame_look tame_set_failure tame_failed tame_current
  tame_authorize tame_observe_failure tame_if

lemma effect_context_epoch [simp]: "se_epoch (effect_context F epoch) = epoch"
  by (simp add: effect_context_def)

lemma tame_poll_failed: "tame (poll_failed F epoch failure)"
  unfolding poll_failed_def failed_session_def by (intro tame_intros)

lemma tame_recovered: "tame (recovered F epoch)"
  unfolding recovered_def by (intro tame_intros tame_remember) simp

lemma tame_poll_ready: "tame poll_ready"
  unfolding poll_ready_def by (rule tame_lock) (auto simp: wp_bind memory_simps)

section \<open>Messages\<close>

definition claimed :: "view \<Rightarrow> bool" where
  "claimed v \<longleftrightarrow> v_gate v = Some SharedClaim \<and> \<not> v_held v \<and> v_hand v = None \<and> v_owed v = None"

lemma claimed_free: "claimed v \<Longrightarrow> free v"
  by (simp add: claimed_def free_def)

lemma kept_claimed: "kept v v' \<Longrightarrow> claimed v \<Longrightarrow> claimed v'"
  by (simp add: kept_def claimed_def)

lemma wp_acknowledge:
  assumes "claimed v" "(ps_epoch session, im_id message) \<in> v_known v" "v_live v = Some (ps_epoch session)"
  shows "wp (acknowledge F session message) (\<lambda>r v'. kept v v') v"
proof (cases "im_acked message")
  case False
  have sad: "wp (bind (if lost_reply failure then remember (\<lambda>m. m\<lparr>ls_reconnect := True\<rparr>) else Done ()) (\<lambda>_.
      attempt (poll_failed F (ps_epoch session) failure) (\<lambda>_. Done (Inr False)))) (\<lambda>(r :: core_error + bool) v'. kept v v') v" for failure
    by (rule tameD) (use assms in \<open>auto intro!: tame_intros tame_poll_failed tame_remember simp: claimed_free intro: calm_kept\<close>)
  have "v_gate v = Some SharedClaim" "\<not> v_held v" using assms(1) by (simp_all add: claimed_def)
  with False assms(2,3) sad show ?thesis
    by (auto simp: acknowledge_def ask_def confirmed_view_def kept_def split: sum.split)
qed (simp add: acknowledge_def)

lemma wp_acquire:
  assumes "claimed v"
  shows "wp (acquire F session message) (\<lambda>r v'. kept v v') v"
proof -
  have rest: "tame (let (accepted, failure) = acquisition_answer outcome in
         bind (if accepted = None then remember (\<lambda>m. m\<lparr>ls_reconnect := True\<rparr>) else Done ()) (\<lambda>_.
         Now (\<lambda>t.
         attempt (ask (CompleteAcquisition (effect_context F (ps_epoch session)) (im_id message) accepted t)) (\<lambda>ok.
         case failure of
           Some f \<Rightarrow> attempt (poll_failed F (ps_epoch session) f) (\<lambda>_. Done (Inr False))
         | None \<Rightarrow> Done (Inr ok)))))" (is "tame (?after outcome)") for outcome
    by (cases "acquisition_answer outcome")
      (auto intro!: tame_intros tame_poll_failed tame_remember tame_ask split: option.split)
  have after: "wp (?after outcome) (\<lambda>r v'. kept v v') (v\<lparr>v_live := Some (ps_epoch session), v_owed := None\<rparr>)" for outcome
  proof (rule tameD [OF rest])
    show "free (v\<lparr>v_live := Some (ps_epoch session), v_owed := None\<rparr>)" using assms by (simp add: claimed_def free_def)
  next
    fix v' assume "calm (v\<lparr>v_live := Some (ps_epoch session), v_owed := None\<rparr>) v'"
    with assms show "kept v v'" by (simp add: calm_def kept_def claimed_def)
  qed
  have "v_gate v = Some SharedClaim" "\<not> v_held v" "v_owed v = None" using assms by (simp_all add: claimed_def)
  with after show ?thesis
    by (auto simp: acquire_def started_view_def kept_def split: sum.split option.split)
qed
text \<open>A body under the gate is judged with the gate held, and leaves it behind.\<close>

lemma wp_claim:
  assumes "at_rest v"
    and "wp p (\<lambda>a v'. claimed v' \<and> Q a (v'\<lparr>v_gate := None, v_slot := None, v_live := None\<rparr>)) (v\<lparr>v_gate := Some SharedClaim, v_slot := None, v_settled := {}, v_live := None\<rparr>)"
  shows "wp (with_gate SharedClaim p) Q v"
proof -
  have "wp p (\<lambda>a. wp (DropGate (Done a)) Q) (v\<lparr>v_gate := Some SharedClaim, v_slot := None, v_settled := {}, v_live := None\<rparr>)"
    by (rule wp_mono [OF assms(2)]) (simp add: claimed_def)
  with assms(1) show ?thesis
    by (simp only: with_gate_def wp.simps(5) wp_bind at_rest_def) simp
qed

lemma claimed_start: "at_rest v \<Longrightarrow> claimed (v\<lparr>v_gate := Some SharedClaim, v_slot := None, v_settled := {}, v_live := None\<rparr>)"
  by (simp add: at_rest_def claimed_def)

lemma kept_dropped:
  assumes "kept (v\<lparr>v_gate := Some mode, v_slot := None, v_settled := {}, v_live := None\<rparr>) v'" "at_rest v"
  shows "kept v (v'\<lparr>v_gate := None, v_slot := None, v_live := None\<rparr>)"
  using assms by (simp add: kept_def at_rest_def)

lemma wp_current: "wp (current F epoch) (\<lambda>r v'. calm v v' \<and> (r = Inr True \<and> v_gate v \<noteq> None \<longrightarrow> v_live v' = Some epoch)) v"
  by (simp add: current_def ask_def) (simp add: asked_view_def)

lemma wp_attemptI:
  assumes "wp p R v" "\<And>e v'. R (Inl e) v' \<Longrightarrow> Q (Inl e) v'" "\<And>x v'. R (Inr x) v' \<Longrightarrow> wp (g x) Q v'"
  shows "wp (attempt p g) Q v"
  unfolding wp_attempt by (rule wp_mono [OF assms(1)]) (use assms(2,3) in \<open>auto split: sum.split\<close>)

lemma wp_bindI: "wp p R v \<Longrightarrow> (\<And>x v'. R x v' \<Longrightarrow> wp (g x) Q v') \<Longrightarrow> wp (bind p g) Q v"
  unfolding wp_bind by (rule wp_mono)

lemma wp_finish_message:
  assumes "at_rest v" "(ps_epoch session, im_id message) \<in> v_known v"
  shows "wp (finish_message F session message) (\<lambda>r v'. kept v v') v"
  unfolding finish_message_def
proof (rule wp_claim [OF assms(1)])
  let ?u = "v\<lparr>v_gate := Some SharedClaim, v_slot := None, v_settled := {}, v_live := None\<rparr>"
  let ?R = "\<lambda>(r :: core_error + bool) v'. kept ?u v'"
  let ?acquire = "\<lambda>acked. if \<not> acked then Done (Inr False) else acquire F session message"
  let ?rest = "\<lambda>ok. if \<not> ok then Done (Inr False) else attempt (acknowledge F session message) ?acquire"
  have u: "claimed ?u" by (rule claimed_start) (fact assms)
  have more: "wp (?rest ok) ?R v1" if v1: "kept ?u v1" "ok \<longrightarrow> v_live v1 = Some (ps_epoch session)" for ok v1
  proof (cases ok)
    case True
    have c: "claimed v1" by (rule kept_claimed [OF v1(1) u])
    have k: "(ps_epoch session, im_id message) \<in> v_known v1" using v1(1) assms(2) by (auto simp: kept_def)
    have "wp (?acquire acked) ?R v2" if "kept v1 v2" for acked v2
      using that v1(1) wp_acquire [OF kept_claimed [OF that c], of F session message]
      by (auto elim!: wp_mono intro: kept_trans)
    with True v1 show ?thesis
      by (auto simp: wp_attempt intro!: wp_mono [OF wp_acknowledge [OF c k]] intro: kept_trans split: sum.split)
  qed (use v1 in simp)
  have "wp (attempt (current F (ps_epoch session)) ?rest) ?R ?u"
    by (rule wp_attemptI [OF wp_current]) (auto intro: more dest: calm_kept simp del: wp.simps split del: if_split)
  then show "wp (attempt (current F (ps_epoch session)) ?rest)
      (\<lambda>a v'. claimed v' \<and> kept v (v'\<lparr>v_gate := None, v_slot := None, v_live := None\<rparr>)) ?u"
    by (rule wp_mono) (use u assms(1) in \<open>auto intro: kept_claimed kept_dropped\<close>)
qed

lemma wp_finish_messages:
  assumes "at_rest v" "\<forall>m \<in> set ms. (ps_epoch session, im_id m) \<in> v_known v"
  shows "wp (finish_messages F session ms) (\<lambda>r v'. kept v v') v"
  using assms
proof (induction ms arbitrary: v)
  case (Cons m ms)
  have "wp (finish_messages F session ms) (\<lambda>r v''. kept v v'') v'" if "kept v v'" for v'
    by (rule wp_mono [OF Cons.IH]) (use that Cons.prems in \<open>auto intro: kept_trans kept_rest simp: kept_def\<close>)
  with wp_finish_message [of v session m F] Cons.prems show ?case
    by (auto simp: wp_attempt elim!: wp_mono split: sum.split)
qed simp
lemma tame_kept: "tame p \<Longrightarrow> free v \<Longrightarrow> wp p (\<lambda>r v'. kept v v') v"
  by (rule tameD) (auto intro: calm_kept)

lemma wp_ingest:
  assumes "at_rest v"
  shows "wp (with_gate SharedClaim (Now (\<lambda>t. StoreMessage c message t Done)))
    (\<lambda>r v'. kept v v' \<and> (\<forall>m. r = Inr (Some m) \<longrightarrow> (se_epoch c, im_id m) \<in> v_known v')) v"
proof (rule wp_claim [OF assms])
  let ?u = "v\<lparr>v_gate := Some SharedClaim, v_slot := None, v_settled := {}, v_live := None\<rparr>"
  have "kept ?u (stored c r ?u)" for r
    by (auto simp: stored_def kept_def split: sum.split option.split)
  then have "claimed (stored c r ?u)" "kept v ((stored c r ?u)\<lparr>v_gate := None, v_slot := None, v_live := None\<rparr>)" for r
    using assms by (blast intro: kept_claimed claimed_start kept_dropped)+
  then show "wp (Now (\<lambda>t. StoreMessage c message t Done)) (\<lambda>a v'. claimed v' \<and> kept v (v'\<lparr>v_gate := None, v_slot := None, v_live := None\<rparr>)
      \<and> (\<forall>m. a = Inr (Some m) \<longrightarrow> (se_epoch c, im_id m) \<in> v_known (v'\<lparr>v_gate := None, v_slot := None, v_live := None\<rparr>))) ?u"
    by (auto simp: stored_def)
qed

lemma wp_poll_answer:
  assumes "at_rest v"
  shows "wp (poll_answer F session answer) (\<lambda>r v'. kept v v') v"
proof -
  have f: "free v" using assms by (rule rest_free)
  have recov: "wp (recovered F epoch) (\<lambda>r v''. kept v v'') v'" if "kept v v'" for epoch v'
    using that f by (blast intro: tameD [OF tame_recovered] kept_free kept_trans calm_kept)
  have message: "wp (finish_message F session m) (\<lambda>r v''. kept v v'') v'"
    if "kept v v'" "(ps_epoch session, im_id m) \<in> v_known v'" for m v'
    by (rule wp_mono [OF wp_finish_message [OF _ that(2)]]) (use that assms in \<open>auto intro: kept_trans kept_rest\<close>)
  have new: "wp (attempt (with_gate SharedClaim (Now (\<lambda>t. StoreMessage (effect_context F (ps_epoch session)) message t Done)))
      (\<lambda>committed. case committed of
            None \<Rightarrow> Done (Inr ())
          | Some message \<Rightarrow>
              attempt (finish_message F session message) (\<lambda>ok.
              if ok then recovered F (ps_epoch session) else Done (Inr ())))) (\<lambda>r v'. kept v v') v" for message
    by (rule wp_attemptI [OF wp_ingest [OF assms]])
      (auto simp: effect_context_def simp del: wp.simps intro!: wp_attemptI [OF message] split: option.split
        split del: if_split, auto intro: recov)
  have failing: "wp (poll_failed F epoch failure) (\<lambda>r v'. kept v v') v" for epoch failure
    by (rule tame_kept [OF tame_poll_failed f])
  have empty: "wp (recovered F epoch) (\<lambda>r v'. kept v v') (asked_view q r v)" for epoch q r
    by (rule recov) (simp add: calm_kept)
  show ?thesis
    using new failing empty by (auto simp: poll_answer_def split: sum.split poll_outcome.split)
qed
lemma rest_kept: "at_rest v \<Longrightarrow> kept v v' \<Longrightarrow> at_rest v' \<and> free v'"
  by (blast intro: kept_rest rest_free)

lemma wp_poll_messages:
  assumes "at_rest v"
  shows "wp (attempt (LoadPending (effect_context F (ps_epoch session)) Done) (\<lambda>pending. finish_messages F session pending)) (\<lambda>r v'. kept v v') v"
proof (rule wp_attemptI [where R = "\<lambda>r v'. kept v v' \<and> (\<forall>ms :: ingested_message list. r = Inr ms \<longrightarrow> (\<forall>m \<in> set ms. (ps_epoch session, im_id m) \<in> v_known v'))"])
  show "wp (LoadPending (effect_context F (ps_epoch session)) Done) (\<lambda>r v'. kept v v' \<and> (\<forall>ms :: ingested_message list. r = Inr ms \<longrightarrow> (\<forall>m \<in> set ms. (ps_epoch session, im_id m) \<in> v_known v'))) v"
    by (auto simp: shown_def kept_def split: sum.split)
next
  fix pending :: "ingested_message list" and v' assume "kept v v' \<and> (\<forall>ms. Inr pending = Inr ms \<longrightarrow> (\<forall>m \<in> set ms. (ps_epoch session, im_id m) \<in> v_known v'))"
  with assms show "wp (finish_messages F session pending) (\<lambda>r v'. kept v v') v'"
    by (intro wp_mono [OF wp_finish_messages]) (auto intro: kept_rest kept_trans)
qed simp

lemma attempt_attempt: "attempt (attempt p f) g = attempt p (\<lambda>x. attempt (f x) g)"
proof -
  have assoc: "bind (bind p f) g = bind p (\<lambda>x. bind (f x) g)" for p :: "'x prog" and f :: "'x \<Rightarrow> 'y prog" and g :: "'y \<Rightarrow> 'z prog"
    by (induction p) simp_all
  show ?thesis unfolding attempt_def assoc by (rule arg_cong [where f = "bind p"]) (auto split: sum.split)
qed

lemma wp_poll_next:
  assumes "at_rest v"
  shows "wp (poll_next F remembered) (\<lambda>r v'. kept v v') v"
proof -
  have poll: "wp (RemotePoll h l n (poll_answer F session)) (\<lambda>r v'. kept v v') v" for h l n session
    using assms by (simp add: at_rest_def wp_poll_answer)
  show ?thesis
    unfolding poll_next_def
    by (rule wp_attemptI [where R = "\<lambda>r v'. v' = v"]) (use poll in \<open>auto simp del: wp.simps(15) split: option.split\<close>)
qed

lemma wp_poll_pending:
  assumes "at_rest v"
  shows "wp (poll_pending F remembered) (\<lambda>r v'. kept v v') v"
  unfolding poll_pending_def attempt_attempt [symmetric]
proof (rule wp_attemptI [OF wp_poll_messages [OF assms]])
  fix finished v' assume "kept v v'"
  then show "wp (if \<not> finished then Done (Inr ()) else poll_next F remembered) (\<lambda>r v''. kept v v'') v'"
    using rest_kept [OF assms] by (cases finished) (auto intro: wp_mono [OF wp_poll_next] kept_trans)
qed

lemma wp_poll_inner:
  assumes "at_rest v"
  shows "wp (poll_inner F) (\<lambda>r v'. kept v v') v"
  unfolding poll_inner_def
proof (rule wp_bindI [OF tame_kept [OF tame_poll_ready rest_free [OF assms]]])
  fix remembered v' assume k: "kept v v'"
  have pending: "wp (if \<not> ok then Done (Inr ()) else poll_pending F s) (\<lambda>r v2. kept v v2) v1" if "kept v' v1" for ok s v1
    using rest_kept [OF assms kept_trans [OF k that]] kept_trans [OF k that]
    by (cases ok) (auto intro: wp_mono [OF wp_poll_pending] kept_trans)
  have "wp (attempt (current F (ps_epoch s)) (\<lambda>ok. if \<not> ok then Done (Inr ()) else poll_pending F s)) (\<lambda>r v2. kept v v2) v'"
    for s :: persisted_session
    by (rule wp_attemptI [OF tame_kept [OF tame_current]]) (use rest_kept [OF assms k] pending kept_trans [OF k] in blast)+
  with k show "wp (case remembered of None \<Rightarrow> Done (Inr ()) | Some remembered \<Rightarrow> attempt (current F (ps_epoch remembered))
      (\<lambda>ok. if \<not> ok then Done (Inr ()) else poll_pending F remembered)) (\<lambda>r v2. kept v v2) v'"
    by (cases remembered) simp_all
qed

lemma wp_poll_once:
  assumes "at_rest v"
  shows "wp (poll_once F) (\<lambda>r v'. kept v v') v"
  unfolding poll_once_def
proof (rule wp_bindI [OF tame_kept [OF tame_look rest_free [OF assms]]], rule wp_bindI)
  fix epoch v' assume "kept v v'"
  then show "wp (poll_inner F) (\<lambda>r v''. kept v v'') v'"
    using rest_kept [OF assms] by (auto intro: wp_mono [OF wp_poll_inner] kept_trans)
next
  fix epoch result v' assume k: "kept v v'"
  have "tame (case (result, epoch) of (Inl e, Some epoch) \<Rightarrow>
         bind (failed_session F epoch (AccessUnavailable (reason_as_str (code e)))) (\<lambda>marked.
         if marked then attempt (observe_failure F epoch (code e)) (\<lambda>_. Done result) else Done result)
     | _ \<Rightarrow> Done result)"
    by (auto simp: failed_session_def intro!: tame_intros split: sum.split option.split)
  then show "wp (case (result, epoch) of (Inl e, Some epoch) \<Rightarrow>
         bind (failed_session F epoch (AccessUnavailable (reason_as_str (code e)))) (\<lambda>marked.
         if marked then attempt (observe_failure F epoch (code e)) (\<lambda>_. Done result) else Done result)
     | _ \<Rightarrow> Done result) (\<lambda>r v''. kept v v'') v'"
    by (rule tameD) (use k rest_kept [OF assms k] in \<open>auto intro: kept_trans calm_kept\<close>)
qed

section \<open>Sessions\<close>

text \<open>The gate taken exclusively, with nothing in hand.\<close>

definition excl :: "view \<Rightarrow> bool" where
  "excl v \<longleftrightarrow> v_gate v = Some ExclusiveGate \<and> \<not> v_held v \<and> v_hand v = None \<and> v_owed v = None"

lemma excl_free: "excl v \<Longrightarrow> free v"
  by (simp add: excl_def free_def)

lemma kept_excl: "kept v v' \<Longrightarrow> excl v \<Longrightarrow> excl v'"
  by (simp add: kept_def excl_def)

lemma calm_slot: "calm v v' \<Longrightarrow> excl v \<Longrightarrow> v_slot v = Some s \<Longrightarrow> v_slot v' = Some s"
  by (simp add: calm_def excl_def)

lemma wp_exclusive:
  assumes "at_rest v"
    and "wp p (\<lambda>a v'. kept (v\<lparr>v_gate := Some ExclusiveGate, v_slot := None, v_settled := {}, v_live := None\<rparr>) v')
      (v\<lparr>v_gate := Some ExclusiveGate, v_slot := None, v_settled := {}, v_live := None\<rparr>)"
  shows "wp (with_gate ExclusiveGate p) (\<lambda>a v'. kept v v') v"
proof -
  have "wp p (\<lambda>a. wp (DropGate (Done a)) (\<lambda>a v'. kept v v')) (v\<lparr>v_gate := Some ExclusiveGate, v_slot := None, v_settled := {}, v_live := None\<rparr>)"
    by (rule wp_mono [OF assms(2)]) (use assms(1) in \<open>auto simp: kept_def at_rest_def\<close>)
  with assms(1) show ?thesis
    by (simp only: with_gate_def wp.simps(5) wp_bind at_rest_def) simp
qed

lemma deleted_calm [simp]: "calm v (deleted_view i r v)"
  by (simp add: deleted_view_def calm_def kept_def)

lemma wp_clear_uncommitted:
  assumes "excl v"
  shows "wp (clear_uncommitted F) (\<lambda>r v'. kept v v' \<and> (r \<longrightarrow> v_slot v' = Some None)) v"
proof -
  have failing: "wp (bind (failed F failure) (\<lambda>_. Done False)) (\<lambda>r v''. kept v v'' \<and> (r \<longrightarrow> v_slot v'' = Some None)) v'"
    if "kept v v'" for failure v'
    unfolding wp_bind
    by (rule tameD [OF tame_failed]) (use that assms in \<open>auto intro: kept_trans calm_kept excl_free kept_excl\<close>)
  show ?thesis
    using assms failing
    by (auto simp: clear_uncommitted_def wp_bind look_def remember_def expects_def may_change_def changed_def excl_def
        deleted_view_def gone_def kept_def split: option.split sum.split)
qed
lemma tame_load_session: "tame (LoadSession Done)"
  by (simp add: tame_def)

lemma tame_load_epoch: "tame (LoadEpoch Done)"
  by (simp add: tame_def)

lemma tame_session_to_clear: "tame (session_to_clear F replace stored_session remembered)"
  by (auto simp: session_to_clear_def intro!: tame_intros tame_ask)

text \<open>Sequencing under the exclusive gate.\<close>

lemma calm_excl: "calm v v' \<Longrightarrow> excl v \<Longrightarrow> excl v'"
  by (blast intro: kept_excl calm_kept)

lemma calm_tame: "tame p \<Longrightarrow> excl v \<Longrightarrow> calm v v' \<Longrightarrow> wp p (\<lambda>r v''. calm v v'') v'"
  by (rule tameD) (auto intro: calm_trans excl_free calm_excl)

lemma calm_bindI:
  "tame p \<Longrightarrow> excl v \<Longrightarrow> calm v v' \<Longrightarrow> (\<And>a v''. calm v v'' \<Longrightarrow> wp (g a) (\<lambda>r v''. calm v v'') v'')
    \<Longrightarrow> wp (bind p g) (\<lambda>r v''. calm v v'') v'"
  by (rule wp_bindI [OF calm_tame])

lemma calm_attemptI:
  "tame p \<Longrightarrow> excl v \<Longrightarrow> calm v v' \<Longrightarrow> (\<And>a v''. calm v v'' \<Longrightarrow> wp (g a) (\<lambda>r v''. calm v v'') v'')
    \<Longrightarrow> wp (attempt p g) (\<lambda>r v''. calm v v'') v'"
  by (rule wp_attemptI [OF calm_tame])

lemma wp_close_session:
  assumes "excl v" "calm v v'"
  shows "wp (close_session F session) (\<lambda>r v''. calm v v'') v'"
proof (cases "client_for F session")
  case None
  then show ?thesis
    using assms by (auto simp: close_session_def simp del: wp.simps intro!: calm_tame tame_intros tame_remember)
next
  case (Some client)
  let ?forgotten = "bind (remember (\<lambda>m. m\<lparr>ls_session := None\<rparr>)) (\<lambda>_. Done (Inr True :: core_error + bool))"
  have deleted: "calm v (deleted_view i r v')" "excl (deleted_view i r v')" for i and r :: "access_failure + unit"
    using calm_trans [OF assms(2) deleted_calm] by (blast intro: calm_excl assms(1))+
  have "wp ?forgotten (\<lambda>r v''. calm v v'') v''" if "calm v v''" for v''
    by (rule calm_tame [OF _ assms(1) that]) (auto intro!: tame_intros tame_remember)
  then have forget: "wp (Now (\<lambda>t. attempt (ask (ForgetSession e t)) (\<lambda>_. ?forgotten))) (\<lambda>r v''. calm v v'') (deleted_view i r v')"
    for e i and r :: "access_failure + unit"
    using deleted [of i r] by (auto simp: wp_attempt ask_def may_ask_def excl_def intro: calm_trans [OF _ asked_calm] split: sum.split)
  have lost: "wp (case r of Inl failure \<Rightarrow> bind (failed F failure) (\<lambda>_. Done (Inr False)) | Inr _ \<Rightarrow> Done (Inr False :: core_error + bool))
      (\<lambda>r v''. calm v v'') (deleted_view i r v')" for i and r :: "access_failure + unit"
    by (rule calm_tame [OF _ assms(1) deleted(1)]) (auto intro!: tame_intros split: sum.split)
  from forget lost show ?thesis
    using calm_excl [OF assms(2,1)] by (simp add: close_session_def Some excl_def)
qed

lemma wp_clear_session:
  assumes "excl v" "calm v v'"
  shows "wp (clear_session F replace) (\<lambda>r v''. calm v v'') v'"
proof -
  have "wp (case session of None \<Rightarrow> Done (Inr True) | Some session \<Rightarrow> close_session F session) (\<lambda>r v''. calm v v'') v''"
    if "calm v v''" for session v''
    using that assms(1) by (cases session) (simp_all add: wp_close_session)
  then show ?thesis
    unfolding clear_session_def
    by (intro calm_bindI calm_attemptI assms tame_remember tame_load_session tame_look tame_session_to_clear) simp_all
qed

lemma tame_reuse_session: "tame (reuse_session F scale_set now)"
  unfolding reuse_session_def
  by (rule tame_lock) (auto simp: wp_bind wp_attempt current_def ask_def memory_simps split: sum.split option.split)

lemma wp_install_session:
  assumes "excl v" "v_slot v = Some None"
  shows "wp (install_session F scale_set expected now handle) (\<lambda>r v'. kept v v') (v\<lparr>v_hand := Some (scale_set, handle), v_settled := {}\<rparr>)"
proof -
  have clear: "wp (bind (clear_uncommitted F) (\<lambda>_. Done r)) (\<lambda>r v''. kept v v'') v'"
    if "kept v v'" for r :: "core_error + int option" and v'
    unfolding wp_bind by (rule wp_mono [OF wp_clear_uncommitted]) (use that assms(1) in \<open>auto intro: kept_excl kept_trans\<close>)
  let ?w = "v\<lparr>v_hand := None, v_settled := {}, v_seen := None, v_slot := Some (Some (scale_set, handle))\<rparr>"
  have w: "kept v ?w" "excl ?w" using assms(1) by (simp_all add: kept_def excl_def)
  have put: "wp (remember (\<lambda>m. m\<lparr>ls_uncommitted := Some (scale_set, handle)\<rparr>)) (\<lambda>_ v'. v' = ?w)
      (v\<lparr>v_hand := Some (scale_set, handle), v_settled := {}\<rparr>)"
    using assms by (simp add: remember_def expects_def may_change_def changed_def excl_def)
  have adopt: "wp (bind (remember (adopt_session F scale_set epoch handle)) (\<lambda>_. Done r)) (\<lambda>_ v'. kept v v')
      (?w\<lparr>v_settled := {sh_session_id handle}, v_live := None\<rparr>)" for epoch and r :: "core_error + int option"
    using w by (simp add: wp_bind remember_def expects_def may_change_def changed_def excl_def adopt_session_def kept_def)
  have "wp (case r of Inr (Some epoch) \<Rightarrow> bind (remember (adopt_session F scale_set epoch handle)) (\<lambda>_. Done (Inr (Some epoch)))
     | _ \<Rightarrow> bind (clear_uncommitted F) (\<lambda>_. Done r)) (\<lambda>r v'. kept v v')
     (installed_view \<lparr>in_guard = lf_guard F, in_expected_epoch = expected, in_auth = lf_auth F, in_scale_set = scale_set,
         in_handle = handle\<rparr> r ?w)" for r
    using clear [of "?w\<lparr>v_live := None\<rparr>"] adopt w(1) by (auto simp: installed_view_def kept_def split: sum.split option.split)
  then show ?thesis
    unfolding install_session_def by (intro wp_bindI [OF put]) (use w(2) in \<open>simp add: excl_def\<close>)
qed
lemma wp_establish_session:
  assumes "excl v" "v_slot v = Some None"
  shows "wp (establish_session F scale_set now) (\<lambda>r v'. kept v v') v"
proof -
  have failing: "wp (bind (failed F failure) (\<lambda>_. Done r)) (\<lambda>r v'. kept v v') (v\<lparr>v_hand := None, v_settled := {}\<rparr>)"
    for failure and r :: "core_error + int option"
    by (rule tameD) (use assms(1) in \<open>auto intro!: tame_intros simp: calm_def kept_def excl_def free_def\<close>)
  have "wp (RemoteEstablish scale_set (session_owner F expected) (\<lambda>r. case r of
       Inr (Definite handle) \<Rightarrow> install_session F scale_set expected now handle
     | Inr (Uncertain s) \<Rightarrow> bind (failed F (AccessUncertain ''session establishment uncertain'')) (\<lambda>_. Done (Inr None))
     | Inl failure \<Rightarrow> bind (failed F failure) (\<lambda>_. Done (Inr None)))) (\<lambda>r v'. kept v v') v" for expected
    using assms(1) wp_install_session [OF assms] failing assms(2)
    by (auto simp: established_view_def excl_def split: sum.split effect_outcome.split)
  then show ?thesis
    unfolding establish_session_def
    by (intro wp_attemptI [where p = "LoadEpoch Done" and R = "\<lambda>r v'. v' = v"]) auto
qed

text \<open>Once nothing is left uncommitted the rest of a reconcile pass may establish a session.\<close>

lemma wp_establish_after:
  assumes "excl v" "v_slot v = Some None" "calm v v'"
  shows "wp (attempt (clear_session F True) (\<lambda>cleared. if \<not> cleared then Done (Inr None) else
      attempt (authorize_runtime F) (\<lambda>ok. if \<not> ok then Done (Inr None) else establish_session F scale_set now)))
    (\<lambda>r v''. kept v v'') v'"
proof (rule wp_attemptI [OF wp_clear_session [OF assms(1,3)]])
  fix cleared v1 assume c: "calm v v1"
  have "wp (if \<not> ok then Done (Inr None) else establish_session F scale_set now) (\<lambda>r v''. kept v v'') v2" if "calm v v2" for ok v2
    using that assms(1,2) by (cases ok) (auto intro!: wp_mono [OF wp_establish_session] intro: calm_excl calm_slot calm_kept kept_trans)
  then have "wp (attempt (authorize_runtime F) (\<lambda>ok. if \<not> ok then Done (Inr None) else establish_session F scale_set now))
      (\<lambda>r v''. kept v v'') v1"
    by (intro wp_attemptI [OF calm_tame [OF tame_authorize assms(1) c]]) (auto intro: calm_kept)
  with c show "wp (if \<not> cleared then Done (Inr None) else attempt (authorize_runtime F) (\<lambda>ok. if \<not> ok then Done (Inr None)
      else establish_session F scale_set now)) (\<lambda>r v''. kept v v'') v1"
    by (cases cleared) (simp_all add: calm_kept)
qed (rule calm_kept)

lemma wp_reuse_or_establish:
  assumes "excl v" "v_slot v = Some None"
  shows "wp (attempt (authorize_runtime F) (\<lambda>ok. if \<not> ok then Done (Inr None) else
     attempt (reuse_session F scale_set now) (\<lambda>reused. case reused of
       Some None \<Rightarrow> Done (Inr None)
     | Some (Some epoch) \<Rightarrow> bind (remember (\<lambda>m. m\<lparr>ls_enabled := True\<rparr>)) (\<lambda>_. Done (Inr (Some epoch)))
     | None \<Rightarrow>
         attempt (clear_session F True) (\<lambda>cleared. if \<not> cleared then Done (Inr None) else
         attempt (authorize_runtime F) (\<lambda>ok. if \<not> ok then Done (Inr None) else establish_session F scale_set now)))))
    (\<lambda>r v'. kept v v') v" (is "wp (attempt _ (\<lambda>ok. if \<not> ok then _ else attempt _ ?reused)) _ _")
proof (rule wp_attemptI [OF calm_tame [OF tame_authorize assms(1) calm_refl]])
  fix ok v1 assume c: "calm v v1"
  have enable: "wp (bind (remember (\<lambda>m. m\<lparr>ls_enabled := True\<rparr>)) (\<lambda>_. Done r)) (\<lambda>r v''. kept v v'') v2"
    if "calm v v2" for r :: "core_error + int option" and v2
    by (rule wp_mono [OF calm_tame [OF _ assms(1) that]]) (auto intro!: tame_intros tame_remember calm_kept)
  have "wp (?reused reused) (\<lambda>r v''. kept v v'') v2" if "calm v v2" for reused v2
    using wp_establish_after [OF assms that] enable [OF that] calm_kept [OF that] by (auto split: option.split)
  then have "wp (attempt (reuse_session F scale_set now) ?reused) (\<lambda>r v''. kept v v'') v1"
    by (intro wp_attemptI [OF calm_tame [OF tame_reuse_session assms(1) c]]) (auto intro: calm_kept)
  with c show "wp (if \<not> ok then Done (Inr None) else attempt (reuse_session F scale_set now) ?reused) (\<lambda>r v''. kept v v'') v1"
    by (cases ok) (simp_all add: calm_kept)
qed (rule calm_kept)

lemma excl_start: "at_rest v \<Longrightarrow> excl (v\<lparr>v_gate := Some ExclusiveGate, v_slot := None, v_settled := {}, v_live := None\<rparr>)"
  by (simp add: at_rest_def excl_def)

lemma wp_ensure_session:
  assumes "at_rest v"
  shows "wp (ensure_session F scale_set) (\<lambda>r v'. kept v v') v"
  unfolding ensure_session_def
proof (rule wp_exclusive [OF assms])
  let ?u = "v\<lparr>v_gate := Some ExclusiveGate, v_slot := None, v_settled := {}, v_live := None\<rparr>"
  let ?establish = "\<lambda>now. attempt (authorize_runtime F) (\<lambda>ok. if \<not> ok then Done (Inr None) else
     attempt (reuse_session F scale_set now) (\<lambda>reused. case reused of
       Some None \<Rightarrow> Done (Inr None)
     | Some (Some epoch) \<Rightarrow> bind (remember (\<lambda>m. m\<lparr>ls_enabled := True\<rparr>)) (\<lambda>_. Done (Inr (Some epoch)))
     | None \<Rightarrow>
         attempt (clear_session F True) (\<lambda>cleared. if \<not> cleared then Done (Inr None) else
         attempt (authorize_runtime F) (\<lambda>ok. if \<not> ok then Done (Inr None) else establish_session F scale_set now))))"
  have u: "excl ?u" by (rule excl_start [OF assms])
  have first: "wp (bind (clear_uncommitted F) (\<lambda>cleared. if \<not> cleared then Done (Inr None) else ?establish now))
      (\<lambda>r v'. kept ?u v') v1" if k: "kept ?u v1" for now v1
  proof (rule wp_bindI [OF wp_clear_uncommitted [OF kept_excl [OF k u]]])
    fix cleared v2 assume c: "kept v1 v2 \<and> (cleared \<longrightarrow> v_slot v2 = Some None)"
    then have "kept ?u v2" "excl v2" by (blast intro: kept_trans [OF k] kept_excl [OF _ kept_excl [OF k u]])+
    with c show "wp (if \<not> cleared then Done (Inr None) else ?establish now) (\<lambda>r v'. kept ?u v') v2"
      by (cases cleared) (auto intro!: wp_mono [OF wp_reuse_or_establish] intro: kept_trans)
  qed
  show "wp (Now (\<lambda>now. bind (look ls_retry_at) (\<lambda>retry_at. if now < retry_at then Done (Inr None) else
      bind (clear_uncommitted F) (\<lambda>cleared. if \<not> cleared then Done (Inr None) else ?establish now)))) (\<lambda>r v'. kept ?u v') ?u"
    by (auto intro!: wp_bindI [OF tame_kept [OF tame_look excl_free [OF u]]] simp del: wp.simps simp: wp.simps(1,7) first split del: if_split
      split: if_split)
qed

lemma wp_stop:
  assumes "at_rest v"
  shows "wp (stop F) (\<lambda>r v'. kept v v') v"
  unfolding stop_def
proof (rule wp_exclusive [OF assms])
  let ?u = "v\<lparr>v_gate := Some ExclusiveGate, v_slot := None, v_settled := {}, v_live := None\<rparr>"
  let ?rest = "bind (look ls_stopped) (\<lambda>stopped. if stopped then Done (Inr True) else
     attempt (clear_session F False) (\<lambda>stopped. bind (remember (\<lambda>m. m\<lparr>ls_stopped := stopped\<rparr>)) (\<lambda>_. Done (Inr stopped))))"
  have u: "excl ?u" by (rule excl_start [OF assms])
  show "wp (bind (clear_uncommitted F) (\<lambda>cleared. if \<not> cleared then Done (Inr False) else ?rest)) (\<lambda>r v'. kept ?u v') ?u"
  proof (rule wp_bindI [OF wp_clear_uncommitted [OF u]])
    fix cleared v1 assume c: "kept ?u v1 \<and> (cleared \<longrightarrow> v_slot v1 = Some None)"
    then have e: "excl v1" by (blast intro: kept_excl [OF _ u])
    have "wp (if stopped then Done (Inr True) else attempt (clear_session F False) (\<lambda>stopped.
        bind (remember (\<lambda>m. m\<lparr>ls_stopped := stopped\<rparr>)) (\<lambda>_. Done (Inr stopped)))) (\<lambda>r v'. calm v1 v') v2"
      if "calm v1 v2" for stopped v2
      using that e by (cases stopped) (auto intro!: wp_attemptI [OF wp_clear_session] calm_bindI tame_remember)
    then have "wp ?rest (\<lambda>r v'. calm v1 v') v1"
      by (intro calm_bindI [OF tame_look e calm_refl])
    with c show "wp (if \<not> cleared then Done (Inr False) else ?rest) (\<lambda>r v'. kept ?u v') v1"
      by (cases cleared) (auto elim!: wp_mono intro: kept_trans calm_kept)
  qed
qed

lemma wp_handoff_gate: "at_rest v \<Longrightarrow> wp handoff_gate (\<lambda>r v'. kept v v') v"
  unfolding handoff_gate_def by (rule wp_exclusive) simp_all

lemma wp_effect_claim: "at_rest v \<Longrightarrow> wp effect_claim (\<lambda>r v'. kept v v') v"
  unfolding effect_claim_def by (rule wp_claim) (simp_all add: claimed_start kept_def at_rest_def)

end
