(* ===== verification/Listener_Gate.thy ===== *)
theory Listener_Gate
  imports Listener_Discipline "HOL-Library.Multiset"
begin

text \<open>
  The daemon of one Fleet: any number of tasks over any number of listeners of the Fleet, in every
  interleaving at the points where they give way, with GitHub answering as it likes, the rest of the program
  changing the store between two steps, tasks being dropped with the process, and crashes; over any store
  that keeps the contract of \<open>message_laws\<close>.
\<close>

section \<open>Configurations\<close>

text \<open>What happened towards GitHub, and the sessions the store recorded, latest first.\<close>

datatype remote_event =
    AckSent int int bool
  | AcquireSent int "int list"
  | Established string
  | Recorded string
  | Deleted string bool

text \<open>Of the view of a task a step reads the guards it holds, and nothing else.\<close>

record task =
  tk_owner :: nat
  tk_view :: view
  tk_prog :: "unit prog"

record 's daemon =
  dm_store :: 's
  dm_memory :: "nat \<Rightarrow> listener_memory"
  dm_tasks :: "task list"
  dm_log :: "remote_event list"

definition fresh_daemon :: "'s \<Rightarrow> 's daemon" where
  "fresh_daemon s = \<lparr>dm_store = s, dm_memory = (\<lambda>_. fresh_memory), dm_tasks = [], dm_log = []\<rparr>"

text \<open>The lock of the gate is a read-write lock, the lock of a memory a mutex.\<close>

definition gate_open :: "gate_mode \<Rightarrow> task list \<Rightarrow> bool" where
  "gate_open mode ts \<longleftrightarrow>
     list_all (\<lambda>t. v_gate (tk_view t) = None \<or> mode = SharedClaim \<and> v_gate (tk_view t) = Some SharedClaim) ts"

definition lock_open :: "nat \<Rightarrow> task list \<Rightarrow> bool" where
  "lock_open k ts \<longleftrightarrow> list_all (\<lambda>t. tk_owner t = k \<longrightarrow> \<not> v_held (tk_view t)) ts"

datatype answer =
    Continue
  | Clock int
  | PollAnswer "access_failure + poll_outcome"
  | AckAnswer "access_failure + unit"
  | AcquireAnswer "access_failure + int list effect_outcome"
  | EstablishAnswer "access_failure + session_handle effect_outcome"
  | DeleteAnswer "access_failure + unit"

section \<open>Steps\<close>

record 's moved =
  mv_prog :: "unit prog"
  mv_view :: view
  mv_store :: 's
  mv_memory :: listener_memory
  mv_log :: "remote_event list"

text \<open>One step of a program, or \<open>None\<close> while it is blocked, finished or waiting for another answer.\<close>

primrec move :: "unit prog \<Rightarrow> 's message_store \<Rightarrow> task list \<Rightarrow> nat \<Rightarrow> answer \<Rightarrow> 's \<Rightarrow> listener_memory \<Rightarrow> view \<Rightarrow> 's moved option" where
  "move (Done x) S ts o' a s m v = None"
| "move (Memory f k) S ts o' a s m v =
     (if v_held v \<or> lock_open o' ts then Some \<lparr>mv_prog = k m, mv_view = changed (f m) v, mv_store = s, mv_memory = f m, mv_log = []\<rparr> else None)"
| "move (Hold p) S ts o' a s m v =
     (if lock_open o' ts
      then Some \<lparr>mv_prog = p, mv_view = v\<lparr>v_held := True, v_seen := None\<rparr>, mv_store = s, mv_memory = m, mv_log = []\<rparr> else None)"
| "move (Release p) S ts o' a s m v =
     Some \<lparr>mv_prog = p, mv_view = v\<lparr>v_held := False, v_seen := None\<rparr>, mv_store = s, mv_memory = m, mv_log = []\<rparr>"
| "move (TakeGate mode p) S ts o' a s m v =
     (if gate_open mode ts
      then Some \<lparr>mv_prog = p, mv_view = v\<lparr>v_gate := Some mode, v_slot := None, v_settled := {}, v_live := None\<rparr>,
             mv_store = s, mv_memory = m, mv_log = []\<rparr> else None)"
| "move (DropGate p) S ts o' a s m v =
     Some \<lparr>mv_prog = p, mv_view = v\<lparr>v_gate := None, v_slot := None, v_live := None\<rparr>, mv_store = s, mv_memory = m, mv_log = []\<rparr>"
| "move (Now k) S ts o' a s m v =
     (case a of Clock t \<Rightarrow> Some \<lparr>mv_prog = k t, mv_view = v, mv_store = s, mv_memory = m, mv_log = []\<rparr> | _ \<Rightarrow> None)"
| "move (AskStore q k) S ts o' a s m v =
     (let (r, s') = ms_ask S q s in
      Some \<lparr>mv_prog = k r, mv_view = asked_view q r v, mv_store = s', mv_memory = m, mv_log = []\<rparr>)"
| "move (LoadPending c k) S ts o' a s m v =
     (let r = ms_pending S c s in
      Some \<lparr>mv_prog = k r, mv_view = shown c r v, mv_store = s, mv_memory = m, mv_log = []\<rparr>)"
| "move (LoadSession k) S ts o' a s m v =
     Some \<lparr>mv_prog = k (ms_session S s), mv_view = v, mv_store = s, mv_memory = m, mv_log = []\<rparr>"
| "move (LoadEpoch k) S ts o' a s m v =
     Some \<lparr>mv_prog = k (ms_epoch S s), mv_view = v, mv_store = s, mv_memory = m, mv_log = []\<rparr>"
| "move (StoreMessage c x t k) S ts o' a s m v =
     (let (r, s') = ms_ingest S c x t s in
      Some \<lparr>mv_prog = k r, mv_view = stored c r v, mv_store = s', mv_memory = m, mv_log = []\<rparr>)"
| "move (StartAcquisition c i t k) S ts o' a s m v =
     (let (r, s') = ms_start S c i t s in
      Some \<lparr>mv_prog = k r, mv_view = started_view c r v, mv_store = s', mv_memory = m, mv_log = []\<rparr>)"
| "move (StoreSession install t k) S ts o' a s m v =
     (let (r, s') = ms_install S install t s in
      Some \<lparr>mv_prog = k r, mv_view = installed_view install r v, mv_store = s', mv_memory = m,
        mv_log = (case r of Inr (Some _) \<Rightarrow> [Recorded (sh_session_id (in_handle install))] | _ \<Rightarrow> [])\<rparr>)"
| "move (RemotePoll h l n k) S ts o' a s m v =
     (case a of PollAnswer r \<Rightarrow> Some \<lparr>mv_prog = k r, mv_view = v, mv_store = s, mv_memory = m, mv_log = []\<rparr> | _ \<Rightarrow> None)"
| "move (RemoteAck h i k) S ts o' a s m v =
     (case a of AckAnswer r \<Rightarrow> Some \<lparr>mv_prog = k r, mv_view = confirmed_view (ps_epoch h, i) r v, mv_store = s, mv_memory = m,
        mv_log = [AckSent (ps_epoch h) i (\<exists>x. r = Inr x)]\<rparr> | _ \<Rightarrow> None)"
| "move (RemoteAcquire h ids k) S ts o' a s m v =
     (case a of AcquireAnswer r \<Rightarrow> Some \<lparr>mv_prog = k r, mv_view = v\<lparr>v_owed := None\<rparr>, mv_store = s, mv_memory = m,
        mv_log = [AcquireSent (ps_epoch h) ids]\<rparr> | _ \<Rightarrow> None)"
| "move (RemoteEstablish x w k) S ts o' a s m v =
     (case a of EstablishAnswer r \<Rightarrow> Some \<lparr>mv_prog = k r, mv_view = established_view x r v, mv_store = s, mv_memory = m,
        mv_log = (case r of Inr (Definite h) \<Rightarrow> [Established (sh_session_id h)] | _ \<Rightarrow> [])\<rparr> | _ \<Rightarrow> None)"
| "move (RemoteDelete c x i k) S ts o' a s m v =
     (case a of DeleteAnswer r \<Rightarrow> Some \<lparr>mv_prog = k r, mv_view = deleted_view i r v, mv_store = s, mv_memory = m,
        mv_log = [Deleted i (gone r)]\<rparr> | _ \<Rightarrow> None)"

definition advance :: "'s message_store \<Rightarrow> nat \<Rightarrow> answer \<Rightarrow> 's daemon \<Rightarrow> 's daemon option" where
  "advance S i a d =
     (if i < length (dm_tasks d) then
        let t = dm_tasks d ! i in
        map_option (\<lambda>mv. d\<lparr>dm_store := mv_store mv, dm_memory := (dm_memory d)(tk_owner t := mv_memory mv),
            dm_tasks := (dm_tasks d)[i := t\<lparr>tk_view := mv_view mv, tk_prog := mv_prog mv\<rparr>],
            dm_log := mv_log mv @ dm_log d\<rparr>)
          (move (tk_prog t) S (dm_tasks d) (tk_owner t) a (dm_store d) (dm_memory d (tk_owner t)) (tk_view t))
      else None)"

text \<open>The entry points the daemon calls, each in a task of its own.\<close>

datatype entry =
    PollOnce listener_config
  | EnsureSession listener_config int
  | StopListener listener_config
  | PublishStatus fleet_observation int
  | ReadReason
  | HandOff
  | OtherEffect

fun program_of :: "entry \<Rightarrow> unit prog" where
  "program_of (PollOnce F) = bind (poll_once F) (\<lambda>_. Done ())"
| "program_of (EnsureSession F scale_set) = bind (ensure_session F scale_set) (\<lambda>_. Done ())"
| "program_of (StopListener F) = bind (stop F) (\<lambda>_. Done ())"
| "program_of (PublishStatus ob now) = bind (publish_observation ob now) (\<lambda>_. Done ())"
| "program_of ReadReason = bind listener_reason (\<lambda>_. Done ())"
| "program_of HandOff = handoff_gate"
| "program_of OtherEffect = effect_claim"

datatype 'e daemon_event = Call nat entry | Advance nat answer | Around 'e | Crash

definition daemon_step :: "'s message_store \<Rightarrow> ('e \<Rightarrow> 's \<Rightarrow> 's) \<Rightarrow> 'e daemon_event \<Rightarrow> 's daemon \<Rightarrow> 's daemon" where
  "daemon_step S env ev d = (case ev of
       Call k entry \<Rightarrow> d\<lparr>dm_tasks := dm_tasks d @ [\<lparr>tk_owner = k, tk_view = fresh_view, tk_prog = program_of entry\<rparr>]\<rparr>
     | Advance i a \<Rightarrow> (case advance S i a d of None \<Rightarrow> d | Some d' \<Rightarrow> d')
     | Around e \<Rightarrow> d\<lparr>dm_store := env e (dm_store d)\<rparr>
     | Crash \<Rightarrow> d\<lparr>dm_memory := (\<lambda>_. fresh_memory), dm_tasks := []\<rparr>)"

definition run_daemon :: "'s message_store \<Rightarrow> ('e \<Rightarrow> 's \<Rightarrow> 's) \<Rightarrow> 'e daemon_event list \<Rightarrow> 's daemon \<Rightarrow> 's daemon" where
  "run_daemon S env evs d = fold (daemon_step S env) evs d"

lemma run_daemon_simps [simp]:
  "run_daemon S env [] d = d"
  "run_daemon S env (ev # evs) d = run_daemon S env evs (daemon_step S env ev d)"
  "run_daemon S env (evs @ evs') d = run_daemon S env evs' (run_daemon S env evs d)"
  by (simp_all add: run_daemon_def)

lemma wp_program:
  "at_rest v \<Longrightarrow> wp (program_of entry) (\<lambda>_ v'. at_rest v') v"
  by (cases entry)
    (auto simp: wp_bind listener_reason_def intro!: wp_mono [OF wp_poll_once] wp_mono [OF wp_ensure_session] wp_mono [OF wp_stop]
      wp_mono [OF tame_kept [OF tame_publish rest_free]] wp_mono [OF tame_kept [OF tame_look rest_free]]
      wp_mono [OF wp_handoff_gate] wp_mono [OF wp_effect_claim] simp del: wp.simps(2-) intro: kept_rest)
section \<open>The invariant of guards and views\<close>

text \<open>The sessions established and since then neither recorded nor deleted.\<close>

fun loose :: "remote_event list \<Rightarrow> string set" where
  "loose [] = {}"
| "loose (Established i # l) = insert i (loose l)"
| "loose (Recorded i # l) = loose l - {i}"
| "loose (Deleted i ok # l) = (if ok then loose l - {i} else loose l)"
| "loose (AckSent e i ok # l) = loose l"
| "loose (AcquireSent e ids # l) = loose l"

text \<open>What a view says of the memory of its owner and of the log.\<close>

definition truthful :: "listener_memory \<Rightarrow> remote_event list \<Rightarrow> view \<Rightarrow> bool" where
  "truthful m l v \<longleftrightarrow> (\<forall>m'. v_held v \<and> v_seen v = Some m' \<longrightarrow> m = m')
     \<and> (\<forall>s. v_gate v = Some ExclusiveGate \<and> v_slot v = Some s \<longrightarrow> ls_uncommitted m = s)
     \<and> (v_seen v \<noteq> None \<longrightarrow> v_held v) \<and> (v_slot v \<noteq> None \<longrightarrow> v_gate v = Some ExclusiveGate)
     \<and> (v_hand v \<noteq> None \<longrightarrow> v_gate v = Some ExclusiveGate \<and> v_slot v = Some None)
     \<and> (\<forall>e i. (e, i) \<in> v_confirmed v \<longrightarrow> AckSent e i True \<in> set l)
     \<and> (v_gate v = Some ExclusiveGate \<longrightarrow> v_settled v \<inter> loose l = {})"

text \<open>Two tasks that hold a guard together hold the gate both as a claim, and no lock of one memory.\<close>

definition compatible :: "nat \<Rightarrow> view \<Rightarrow> nat \<Rightarrow> view \<Rightarrow> bool" where
  "compatible k v k' v' \<longleftrightarrow> (v_gate v = Some ExclusiveGate \<longrightarrow> v_gate v' = None) \<and> (v_gate v' = Some ExclusiveGate \<longrightarrow> v_gate v = None)
     \<and> (k = k' \<longrightarrow> \<not> (v_held v \<and> v_held v'))"

definition guarded :: "'s daemon \<Rightarrow> bool" where
  "guarded d \<longleftrightarrow>
     (\<forall>i<length (dm_tasks d). wp (tk_prog (dm_tasks d ! i)) (\<lambda>_ v. at_rest v) (tk_view (dm_tasks d ! i))
        \<and> truthful (dm_memory d (tk_owner (dm_tasks d ! i))) (dm_log d) (tk_view (dm_tasks d ! i)))
     \<and> (\<forall>i<length (dm_tasks d). \<forall>j<length (dm_tasks d). i \<noteq> j \<longrightarrow>
          compatible (tk_owner (dm_tasks d ! i)) (tk_view (dm_tasks d ! i)) (tk_owner (dm_tasks d ! j)) (tk_view (dm_tasks d ! j)))"

text \<open>One step of a program under the weakest precondition of the rest.\<close>

lemma truthful_expects: "truthful m l v \<Longrightarrow> (v_seen v \<noteq> None \<Longrightarrow> v_held v) \<Longrightarrow> expects v m"
  by (auto simp: truthful_def expects_def)

lemma guard_fields [simp]:
  "v_gate (shown c r v) = v_gate v" "v_held (shown c r v) = v_held v"
  "v_gate (stored c x v) = v_gate v" "v_held (stored c x v) = v_held v"
  "v_gate (started_view c y v) = v_gate v" "v_held (started_view c y v) = v_held v"
  "v_gate (installed_view install z v) = v_gate v" "v_held (installed_view install z v) = v_held v"
  "v_gate (confirmed_view ei w v) = v_gate v" "v_held (confirmed_view ei w v) = v_held v"
  "v_gate (established_view n e v) = v_gate v" "v_held (established_view n e v) = v_held v"
  "v_gate (deleted_view sid w v) = v_gate v" "v_held (deleted_view sid w v) = v_held v"
  "v_gate (changed m v) = v_gate v" "v_held (changed m v) = v_held v"
  by (simp_all add: shown_def stored_def started_view_def installed_view_def confirmed_view_def established_view_def
      deleted_view_def changed_def split: sum.split option.split)

lemma move_wp:
  assumes "wp p Q v" "truthful m l v" "move p S ts k a s m v = Some mv"
  shows "wp (mv_prog mv) Q (mv_view mv)"
proof (cases p)
  case (Memory f c)
  have "expects v m" using assms(2) by (auto simp: truthful_def expects_def)
  with assms(1,3) Memory show ?thesis by (auto split: if_splits)
qed (use assms in \<open>auto simp: Let_def split: if_splits answer.splits prod.splits\<close>)

lemma move_gate:
  assumes "wp p Q v" "move p S ts k a s m v = Some mv"
  shows "v_gate (mv_view mv) = v_gate v \<or> v_gate (mv_view mv) = None
    \<or> v_gate v = None \<and> (\<exists>mode. v_gate (mv_view mv) = Some mode \<and> gate_open mode ts)"
  using assms by (cases p) (auto simp: Let_def split: if_splits answer.splits prod.splits)

lemma move_lock:
  assumes "wp p Q v" "move p S ts k a s m v = Some mv"
  shows "v_held (mv_view mv) \<longrightarrow> v_held v \<or> lock_open k ts"
    and "mv_memory mv \<noteq> m \<longrightarrow> v_held v \<or> lock_open k ts"
  using assms by (cases p; auto simp: Let_def split: if_splits answer.splits prod.splits)+
lemma move_slot:
  assumes "wp p Q v" "truthful m l v" "move p S ts k a s m v = Some mv" "ls_uncommitted (mv_memory mv) \<noteq> ls_uncommitted m"
  shows "v_gate v = Some ExclusiveGate"
proof (cases p)
  case (Memory f c)
  have "expects v m" using assms(2) by (auto simp: truthful_def expects_def)
  with assms Memory have "may_change v m (f m)" "ls_uncommitted (f m) \<noteq> ls_uncommitted m" by (auto split: if_splits)
  with assms(2) show ?thesis by (auto simp: may_change_def truthful_def split: option.splits)
qed (use assms in \<open>auto simp: Let_def split: if_splits answer.splits prod.splits\<close>)

lemma move_log:
  assumes "wp p Q v" "move p S ts k a s m v = Some mv"
  shows "v_gate v \<noteq> Some ExclusiveGate \<Longrightarrow> loose (mv_log mv @ l) = loose l"
  using assms by (cases p) (auto simp: Let_def split: if_splits answer.splits prod.splits sum.splits option.splits)

lemma move_truthful:
  assumes w: "wp p Q v" and t: "truthful m l v" and mv: "move p S ts k a s m v = Some mv"
  shows "truthful (mv_memory mv) (mv_log mv @ l) (mv_view mv)"
proof (cases p)
  case (Memory f c)
  have "expects v m" using t by (auto simp: truthful_def expects_def)
  with w Memory have "may_change v m (f m)" by simp
  with t mv Memory show ?thesis
    by (auto simp: truthful_def changed_def may_change_def split: if_splits option.splits)
next
  case (AskStore q c)
  with t mv w show ?thesis
    by (auto simp: truthful_def split: prod.splits)
next
  case (RemoteEstablish x y c)
  with t mv w show ?thesis
    by (auto simp: truthful_def established_view_def split: answer.splits sum.splits effect_outcome.splits)
next
  case (RemoteDelete c x i f)
  with t mv w show ?thesis
    by (auto simp: truthful_def deleted_view_def split: answer.splits if_splits)
next
  case (RemoteAck h i c)
  with t mv w show ?thesis
    by (auto simp: truthful_def confirmed_view_def split: answer.splits sum.splits)
next
  case (StoreSession install x c)
  with t mv w show ?thesis
    by (auto simp: truthful_def installed_view_def split: prod.splits sum.splits option.splits)
next
  case (StartAcquisition e i x c)
  with t mv w show ?thesis
    by (auto simp: truthful_def started_view_def split: prod.splits sum.splits option.splits)
next
  case (StoreMessage e i x c)
  with t mv w show ?thesis
    by (auto simp: truthful_def stored_def split: prod.splits sum.splits option.splits)
next
  case (LoadPending e c)
  with t mv w show ?thesis
    by (auto simp: truthful_def shown_def Let_def split: sum.splits)
qed (use t mv w in \<open>auto simp: truthful_def split: if_splits answer.splits\<close>)

text \<open>A step of one task leaves what the others know true.\<close>

lemma move_others:
  assumes w: "wp p Q v" and t: "truthful m l v" and mv: "move p S ts k a s m v = Some mv"
    and t': "truthful m' l v'" "k' = k \<longrightarrow> m' = m" and c: "compatible k v k' v'"
    and member: "\<exists>u \<in> set ts. tk_owner u = k' \<and> tk_view u = v'"
  shows "truthful (if k' = k then mv_memory mv else m') (mv_log mv @ l) v'"
proof -
  have "mv_memory mv = m" if "v_held v'" "k' = k"
    using move_lock(2) [OF w mv] that c member by (auto simp: compatible_def lock_open_def list_all_iff)
  moreover have "ls_uncommitted (mv_memory mv) = ls_uncommitted m" "loose (mv_log mv @ l) = loose l" if "v_gate v' = Some ExclusiveGate"
    using move_slot [OF w t mv] move_log [OF w mv] that c by (auto simp: compatible_def)
  ultimately show ?thesis using t' by (auto simp: truthful_def)
qed

lemma move_compatible:
  assumes w: "wp p Q v" and mv: "move p S ts k a s m v = Some mv" and c: "compatible k v k' v'"
    and member: "\<exists>u \<in> set ts. tk_owner u = k' \<and> tk_view u = v'"
  shows "compatible k (mv_view mv) k' v'"
proof -
  have "v_gate v' = None" if "v_gate (mv_view mv) = Some ExclusiveGate"
    using move_gate [OF w mv] that c member by (auto simp: compatible_def gate_open_def list_all_iff)
  moreover have "v_gate (mv_view mv) = None" if "v_gate v' = Some ExclusiveGate"
    using move_gate [OF w mv] that c member by (auto simp: compatible_def gate_open_def list_all_iff)
  moreover have "\<not> (v_held (mv_view mv) \<and> v_held v')" if "k = k'"
    using move_lock(1) [OF w mv] that c member by (auto simp: compatible_def lock_open_def list_all_iff)
  ultimately show ?thesis by (simp add: compatible_def)
qed

lemma compatible_sym: "compatible k v k' v' \<longleftrightarrow> compatible k' v' k v"
  by (auto simp: compatible_def)

lemma advance_Some:
  assumes "advance S i a d = Some d'"
  obtains mv where "i < length (dm_tasks d)"
    and "move (tk_prog (dm_tasks d ! i)) S (dm_tasks d) (tk_owner (dm_tasks d ! i)) a (dm_store d)
        (dm_memory d (tk_owner (dm_tasks d ! i))) (tk_view (dm_tasks d ! i)) = Some mv"
    and "d' = d\<lparr>dm_store := mv_store mv, dm_memory := (dm_memory d)(tk_owner (dm_tasks d ! i) := mv_memory mv),
            dm_tasks := (dm_tasks d)[i := (dm_tasks d ! i)\<lparr>tk_view := mv_view mv, tk_prog := mv_prog mv\<rparr>],
            dm_log := mv_log mv @ dm_log d\<rparr>"
  using assms by (auto simp: advance_def Let_def split: if_splits)

lemma guarded_advance:
  assumes "guarded d" "advance S i a d = Some d'"
  shows "guarded d'"
  using assms(2)
proof (rule advance_Some)
  fix mv
  let ?t = "dm_tasks d ! i"
  assume i: "i < length (dm_tasks d)"
    and mv: "move (tk_prog ?t) S (dm_tasks d) (tk_owner ?t) a (dm_store d) (dm_memory d (tk_owner ?t)) (tk_view ?t) = Some mv"
    and d': "d' = d\<lparr>dm_store := mv_store mv, dm_memory := (dm_memory d)(tk_owner ?t := mv_memory mv),
            dm_tasks := (dm_tasks d)[i := ?t\<lparr>tk_view := mv_view mv, tk_prog := mv_prog mv\<rparr>], dm_log := mv_log mv @ dm_log d\<rparr>"
  have w: "wp (tk_prog ?t) (\<lambda>_ v. at_rest v) (tk_view ?t)" and t: "truthful (dm_memory d (tk_owner ?t)) (dm_log d) (tk_view ?t)"
    using assms(1) i by (simp_all add: guarded_def)
  have own: "wp (mv_prog mv) (\<lambda>_ v. at_rest v) (mv_view mv)" "truthful (mv_memory mv) (mv_log mv @ dm_log d) (mv_view mv)"
    using move_wp [OF w t mv] move_truthful [OF w t mv] by auto
  have other: "wp (tk_prog u) (\<lambda>_ v. at_rest v) (tk_view u)"
      "truthful (if tk_owner u = tk_owner ?t then mv_memory mv else dm_memory d (tk_owner u)) (mv_log mv @ dm_log d) (tk_view u)"
      "compatible (tk_owner ?t) (mv_view mv) (tk_owner u) (tk_view u)"
    if "j < length (dm_tasks d)" "j \<noteq> i" "u = dm_tasks d ! j" for j u
  proof -
    have c: "compatible (tk_owner ?t) (tk_view ?t) (tk_owner u) (tk_view u)" and m: "\<exists>x \<in> set (dm_tasks d). tk_owner x = tk_owner u \<and> tk_view x = tk_view u"
      using assms(1) i that by (auto simp: guarded_def)
    from move_compatible [OF w mv c m] show "compatible (tk_owner ?t) (mv_view mv) (tk_owner u) (tk_view u)" .
    show "wp (tk_prog u) (\<lambda>_ v. at_rest v) (tk_view u)" using assms(1) that by (simp add: guarded_def)
    have t': "truthful (dm_memory d (tk_owner u)) (dm_log d) (tk_view u)" using assms(1) that by (simp add: guarded_def)
    show "truthful (if tk_owner u = tk_owner ?t then mv_memory mv else dm_memory d (tk_owner u)) (mv_log mv @ dm_log d) (tk_view u)"
      by (rule move_others [OF w t mv t' _ c m]) simp
  qed
  show ?thesis
    unfolding guarded_def
  proof (intro conjI allI impI)
    fix j assume j: "j < length (dm_tasks d')"
    show "wp (tk_prog (dm_tasks d' ! j)) (\<lambda>_ v. at_rest v) (tk_view (dm_tasks d' ! j))"
      using j i own other(1) [of j] by (cases "j = i") (simp_all add: d')
    show "truthful (dm_memory d' (tk_owner (dm_tasks d' ! j))) (dm_log d') (tk_view (dm_tasks d' ! j))"
      using j i own other(2) [of j] by (cases "j = i") (simp_all add: d' split: if_splits)
  next
    fix j n assume jn: "j < length (dm_tasks d')" "n < length (dm_tasks d')" "j \<noteq> n"
    consider "j = i" | "n = i" "j \<noteq> i" | "j \<noteq> i" "n \<noteq> i" by blast
    then show "compatible (tk_owner (dm_tasks d' ! j)) (tk_view (dm_tasks d' ! j)) (tk_owner (dm_tasks d' ! n)) (tk_view (dm_tasks d' ! n))"
    proof cases
      case 1
      with jn i other(3) [of n] show ?thesis by (simp add: d')
    next
      case 2
      with jn i other(3) [of j] show ?thesis by (simp add: d' compatible_sym)
    next
      case 3
      with jn assms(1) show ?thesis by (simp add: d' guarded_def)
    qed
  qed
qed

lemma rest_truthful: "at_rest v \<Longrightarrow> v_confirmed v = {} \<Longrightarrow> v_seen v = None \<Longrightarrow> v_slot v = None \<Longrightarrow> truthful m l v"
  by (simp add: truthful_def at_rest_def)

lemma fresh_truthful [simp]: "truthful m l fresh_view"
  by (rule rest_truthful [OF fresh_view_rest]) (simp_all add: fresh_view_def)

lemma fresh_compatible [simp]: "compatible k v k' fresh_view" "compatible k fresh_view k' v"
  by (simp_all add: compatible_def fresh_view_def)

lemma guarded_step: "guarded d \<Longrightarrow> guarded (daemon_step S env ev d)"
proof (cases ev)
  case (Call k entry)
  assume "guarded d"
  with Call show ?thesis
    by (auto simp: daemon_step_def guarded_def nth_append wp_program)
next
  case (Advance i a)
  assume "guarded d"
  with Advance show ?thesis by (auto simp: daemon_step_def intro: guarded_advance split: option.split)
qed (simp_all add: daemon_step_def guarded_def)

lemma guarded_run: "guarded d \<Longrightarrow> guarded (run_daemon S env evs d)"
  by (induction evs arbitrary: d) (simp_all add: guarded_step)

lemma guarded_fresh [simp]: "guarded (fresh_daemon s)"
  by (simp add: guarded_def fresh_daemon_def)
section \<open>Established sessions are accounted for\<close>

definition holds_session :: "listener_memory \<Rightarrow> view \<Rightarrow> string \<Rightarrow> bool" where
  "holds_session m v i \<longleftrightarrow> (\<exists>s h. sh_session_id h = i \<and> (ls_uncommitted m = Some (s, h) \<or> v_hand v = Some (s, h)))"

definition accounted :: "'s daemon \<Rightarrow> bool" where
  "accounted d \<longleftrightarrow> (\<forall>i \<in> loose (dm_log d). (\<exists>k. holds_session (dm_memory d k) fresh_view i)
     \<or> (\<exists>t \<in> set (dm_tasks d). holds_session fresh_memory (tk_view t) i))"

lemma holds_cong: "v_hand v' = v_hand v \<Longrightarrow> ls_uncommitted m' = ls_uncommitted m \<Longrightarrow> holds_session m' v' i = holds_session m v i"
  by (simp add: holds_session_def)

lemma hand_fields [simp]:
  "v_hand (shown c r v) = v_hand v" "v_hand (stored c x v) = v_hand v" "v_hand (started_view c y v) = v_hand v"
  "v_hand (installed_view install z v) = v_hand v" "v_hand (confirmed_view ei w v) = v_hand v" "v_hand (deleted_view sid w v) = v_hand v"
  by (simp_all add: shown_def stored_def started_view_def installed_view_def confirmed_view_def deleted_view_def
      split: sum.split option.split)

lemma move_holds:
  assumes w: "wp p Q v" and t: "truthful m l v" and mv: "move p S ts k a s m v = Some mv"
    and i: "i \<in> loose (mv_log mv @ l)"
  shows "holds_session (mv_memory mv) (mv_view mv) i \<or> i \<in> loose l \<and> \<not> holds_session m v i"
proof (cases "(\<exists>f c. p = Memory f c) \<or> (\<exists>x y c. p = RemoteEstablish x y c)")
  case True
  then show ?thesis
  proof (elim disjE exE)
    fix f c assume p: "p = Memory f c"
    have "expects v m" using t by (auto simp: truthful_def expects_def)
    with w p have "may_change v m (f m)" by simp
    with t mv p i show ?thesis
      by (fastforce simp: truthful_def holds_session_def changed_def may_change_def split: if_splits option.splits)
  next
    fix x y c assume "p = RemoteEstablish x y c"
    with t mv w i show ?thesis
      by (auto simp: truthful_def holds_session_def established_view_def split: answer.splits sum.splits effect_outcome.splits)
  qed
next
  case False
  with mv have "v_hand (mv_view mv) = v_hand v" "mv_memory mv = m"
    by (cases p; auto simp: Let_def split: if_splits answer.splits prod.splits)+
  moreover have "i \<in> loose l"
    using False mv i by (cases p) (auto simp: Let_def split: if_splits answer.splits prod.splits sum.splits option.splits)
  ultimately show ?thesis using holds_cong [of "mv_view mv" v m "mv_memory mv" i] by auto
qed

lemma accounted_advance:
  assumes "guarded d" "accounted d" "advance S n a d = Some d'"
  shows "accounted d'"
  using assms(3)
proof (rule advance_Some)
  fix mv
  let ?t = "dm_tasks d ! n"
  let ?k = "tk_owner ?t"
  assume n: "n < length (dm_tasks d)"
    and mv: "move (tk_prog ?t) S (dm_tasks d) ?k a (dm_store d) (dm_memory d ?k) (tk_view ?t) = Some mv"
    and d': "d' = d\<lparr>dm_store := mv_store mv, dm_memory := (dm_memory d)(?k := mv_memory mv),
            dm_tasks := (dm_tasks d)[n := ?t\<lparr>tk_view := mv_view mv, tk_prog := mv_prog mv\<rparr>], dm_log := mv_log mv @ dm_log d\<rparr>"
  have w: "wp (tk_prog ?t) (\<lambda>_ v. at_rest v) (tk_view ?t)" and t: "truthful (dm_memory d ?k) (dm_log d) (tk_view ?t)"
    using assms(1) n by (simp_all add: guarded_def)
  let ?held = "\<lambda>i. (\<exists>k. holds_session (dm_memory d' k) fresh_view i) \<or> (\<exists>t \<in> set (dm_tasks d'). holds_session fresh_memory (tk_view t) i)"
  have split: "holds_session m v i \<longleftrightarrow> holds_session m fresh_view i \<or> holds_session fresh_memory v i" for m v i
    by (auto simp: holds_session_def fresh_view_def fresh_memory_def)
  have tasks: "set (dm_tasks d') = insert (?t\<lparr>tk_view := mv_view mv, tk_prog := mv_prog mv\<rparr>)
      {dm_tasks d ! j |j. j < length (dm_tasks d) \<and> j \<noteq> n}"
    using n by (auto simp: d' set_conv_nth nth_list_update split: if_splits)
  have memory: "dm_memory d' = (dm_memory d)(?k := mv_memory mv)" by (simp add: d')
  show "accounted d'"
    unfolding accounted_def
  proof
    fix i assume "i \<in> loose (dm_log d')"
    then have "i \<in> loose (mv_log mv @ dm_log d)" by (simp add: d')
    from move_holds [OF w t mv this] show "?held i"
    proof
      assume "holds_session (mv_memory mv) (mv_view mv) i"
      from iffD1 [OF split this] show "?held i" unfolding tasks memory by auto
    next
      assume i: "i \<in> loose (dm_log d) \<and> \<not> holds_session (dm_memory d ?k) (tk_view ?t) i"
      with assms(2) consider k where "holds_session (dm_memory d k) fresh_view i"
        | t where "t \<in> set (dm_tasks d)" "holds_session fresh_memory (tk_view t) i"
        unfolding accounted_def by blast
      then show "?held i"
      proof cases
        case (1 k)
        with i split have "k \<noteq> ?k" by blast
        with 1 show ?thesis by (auto simp: memory)
      next
        case (2 t)
        then obtain j where "j < length (dm_tasks d)" "t = dm_tasks d ! j" by (auto simp: in_set_conv_nth)
        with 2 i split have "t \<in> set (dm_tasks d')" unfolding tasks by blast
        with 2 show ?thesis by blast
      qed
    qed
  qed
qed

lemma accounted_run:
  assumes "Crash \<notin> set evs" "guarded d" "accounted d"
  shows "accounted (run_daemon S env evs d)"
  using assms
proof (induction evs arbitrary: d)
  case (Cons ev evs)
  have "accounted (daemon_step S env ev d)"
  proof (cases ev)
    case (Advance i a)
    with Cons.prems show ?thesis by (auto simp: daemon_step_def intro: accounted_advance split: option.split)
  qed (use Cons.prems in \<open>auto simp: daemon_step_def accounted_def\<close>)
  with Cons.prems Cons.IH [OF _ guarded_step] show ?case by simp
qed simp

section \<open>No deadlock, and an end\<close>

definition finished :: "unit prog \<Rightarrow> bool" where
  "finished p \<longleftrightarrow> p = Done ()"

lemma unblocked:
  assumes "\<not> finished p" "\<And>f c. p = Memory f c \<Longrightarrow> v_held v \<or> lock_open k ts" "\<And>q. p = Hold q \<Longrightarrow> lock_open k ts"
    and "\<And>mode q. p = TakeGate mode q \<Longrightarrow> gate_open mode ts"
  shows "\<exists>a. move p S ts k a s m v \<noteq> None"
proof (cases p)
  case (Now c)
  then have "move p S ts k (Clock 0) s m v \<noteq> None" by simp
  then show ?thesis by blast
next
  case (RemotePoll h l n c)
  then have "move p S ts k (PollAnswer (Inr NoMessage)) s m v \<noteq> None" by simp
  then show ?thesis by blast
next
  case (RemoteAck h i c)
  then have "move p S ts k (AckAnswer (Inr ())) s m v \<noteq> None" by simp
  then show ?thesis by blast
next
  case (RemoteAcquire h ids c)
  then have "move p S ts k (AcquireAnswer (Inr (Definite []))) s m v \<noteq> None" by simp
  then show ?thesis by blast
next
  case (RemoteEstablish x w c)
  then have "move p S ts k (EstablishAnswer (Inl AccessHidden)) s m v \<noteq> None" by simp
  then show ?thesis by blast
next
  case (RemoteDelete c x i f)
  then have "move p S ts k (DeleteAnswer (Inr ())) s m v \<noteq> None" by simp
  then show ?thesis by blast
qed (use assms in \<open>auto simp: finished_def Let_def split: prod.split\<close>)

lemma advance_task:
  assumes "t \<in> set (dm_tasks d)"
    and "\<exists>a. move (tk_prog t) S (dm_tasks d) (tk_owner t) a (dm_store d) (dm_memory d (tk_owner t)) (tk_view t) \<noteq> None"
  shows "\<exists>i a. advance S i a d \<noteq> None"
proof -
  obtain i where i: "i < length (dm_tasks d)" "dm_tasks d ! i = t" using assms(1) by (auto simp: in_set_conv_nth)
  from assms(2) obtain a where "move (tk_prog t) S (dm_tasks d) (tk_owner t) a (dm_store d) (dm_memory d (tk_owner t)) (tk_view t) \<noteq> None" ..
  with i have "advance S i a d \<noteq> None" by (simp add: advance_def Let_def)
  then show ?thesis by blast
qed

lemma guarded_task:
  assumes "guarded d" "t \<in> set (dm_tasks d)"
  shows "wp (tk_prog t) (\<lambda>_ v. at_rest v) (tk_view t)"
  using assms by (auto simp: guarded_def in_set_conv_nth)

lemma no_deadlock:
  assumes "guarded d" "t \<in> set (dm_tasks d)" "\<not> finished (tk_prog t)"
  shows "\<exists>i a. advance S i a d \<noteq> None"
proof -
  consider u where "u \<in> set (dm_tasks d)" "v_held (tk_view u)"
    | u where "\<forall>x \<in> set (dm_tasks d). \<not> v_held (tk_view x)" "u \<in> set (dm_tasks d)" "v_gate (tk_view u) \<noteq> None"
    | "\<forall>x \<in> set (dm_tasks d). \<not> v_held (tk_view x)" "\<forall>x \<in> set (dm_tasks d). v_gate (tk_view x) = None" by blast
  then show ?thesis
  proof cases
    case (1 u)
    with guarded_task [OF assms(1)] have "wp (tk_prog u) (\<lambda>_ v. at_rest v) (tk_view u)" by blast
    with 1 show ?thesis
      by (intro advance_task [OF 1(1)] unblocked) (auto simp: finished_def at_rest_def)
  next
    case (2 u)
    then have "lock_open k (dm_tasks d)" for k by (auto simp: lock_open_def list_all_iff)
    moreover have "wp (tk_prog u) (\<lambda>_ v. at_rest v) (tk_view u)" using guarded_task [OF assms(1)] 2 by blast
    ultimately show ?thesis
      using 2 by (intro advance_task [OF 2(2)] unblocked) (auto simp: finished_def at_rest_def)
  next
    case 3
    then have "lock_open k (dm_tasks d)" "gate_open mode (dm_tasks d)" for k mode
      by (auto simp: lock_open_def gate_open_def list_all_iff)
    with assms(3) show ?thesis by (intro advance_task [OF assms(2)] unblocked) auto
  qed
qed

text \<open>What may follow a program.\<close>

primrec next_of :: "'a prog \<Rightarrow> 'a prog set" where
  "next_of (Done a) = {}"
| "next_of (Memory f k) = range k"
| "next_of (Hold p) = {p}"
| "next_of (Release p) = {p}"
| "next_of (TakeGate mode p) = {p}"
| "next_of (DropGate p) = {p}"
| "next_of (Now k) = range k"
| "next_of (AskStore q k) = range k"
| "next_of (LoadPending c k) = range k"
| "next_of (LoadSession k) = range k"
| "next_of (LoadEpoch k) = range k"
| "next_of (StoreMessage c m t k) = range k"
| "next_of (StartAcquisition c i t k) = range k"
| "next_of (StoreSession install t k) = range k"
| "next_of (RemotePoll h l n k) = range k"
| "next_of (RemoteAck h i k) = range k"
| "next_of (RemoteAcquire h ids k) = range k"
| "next_of (RemoteEstablish s w k) = range k"
| "next_of (RemoteDelete c s i k) = range k"

lemma wf_next: "wf {(q, p). q \<in> next_of p}"
proof (rule wfUNIVI)
  fix P :: "'a prog \<Rightarrow> bool" and p
  assume step: "\<forall>p. (\<forall>q. (q, p) \<in> {(q, p). q \<in> next_of p} \<longrightarrow> P q) \<longrightarrow> P p"
  show "P p" by (induction p) (rule step [rule_format], force)+
qed

lemma move_next: "move p S ts k a s m v = Some mv \<Longrightarrow> mv_prog mv \<in> next_of p"
  by (cases p) (auto simp: Let_def split: if_splits answer.splits prod.splits)

definition proceeds :: "'s message_store \<Rightarrow> 's daemon \<Rightarrow> 's daemon \<Rightarrow> bool" where
  "proceeds S d d' \<longleftrightarrow> (\<exists>i a. advance S i a d = Some d')"

lemma wf_proceeds: "wf {(d', d). proceeds S d d'}"
proof (rule wf_subset [OF wf_inv_image [OF iffD2 [OF wf_listrel1_iff wf_next]]])
  show "{(d', d). proceeds S d d'} \<subseteq> inv_image (listrel1 {(q, p). q \<in> next_of p}) (map tk_prog \<circ> dm_tasks)"
  proof clarsimp
    fix d' d assume "proceeds S d d'"
    then obtain i a where "advance S i a d = Some d'" by (auto simp: proceeds_def)
    have same: "xs = xs[i := f (ys ! i)]" if "xs = map f ys" "i < length ys" for xs and f :: "task \<Rightarrow> unit prog" and ys
      using that list_update_id [of xs i] by simp
    from \<open>advance S i a d = Some d'\<close> show "(map tk_prog (dm_tasks d'), map tk_prog (dm_tasks d)) \<in> listrel1 {(q, p). q \<in> next_of p}"
      by (rule advance_Some) (auto simp: listrel1_iff_update map_update nth_list_update
          intro!: exI [of _ "tk_prog (dm_tasks d ! i)"] exI [of _ i] same dest: move_next)
  qed
qed

end
