(* ===== verification/Listener_Life.thy ===== *)
theory Listener_Life
  imports Listener_Gate Fleet_Run
begin

text \<open>
  What the interleaved tasks of \<open>Listener_Gate\<close> guarantee together with the store: the contract they rely
  on, the store of \<open>Listener\<close> and \<open>Fleet_Head\<close> that keeps it while everything else the program does happens
  around it, and the properties of the two.
\<close>

section \<open>The contract of the store\<close>

text \<open>
  The messages that are stored, the requests that were handed out for acquisition, and the epoch of the
  session that is current.
\<close>

definition grows :: "('s \<Rightarrow> bool) \<Rightarrow> ('s \<Rightarrow> (int \<times> int) set) \<Rightarrow> ('s \<Rightarrow> (int \<times> int) set) \<Rightarrow> 's \<Rightarrow> 's \<Rightarrow> bool" where
  "grows ok known handed s s' \<longleftrightarrow> ok s' \<and> known s \<subseteq> known s' \<and> handed s \<subseteq> handed s'"

definition owed_pairs :: "view \<Rightarrow> (int \<times> int) list" where
  "owed_pairs v = (case v_owed v of None \<Rightarrow> [] | Some (e, ids) \<Rightarrow> map (Pair e) ids)"

fun requested :: "remote_event list \<Rightarrow> (int \<times> int) list" where
  "requested [] = []"
| "requested (AcquireSent e ids # l) = map (Pair e) ids @ requested l"
| "requested (AckSent e i ok # l) = requested l"
| "requested (Established i # l) = requested l"
| "requested (Recorded i # l) = requested l"
| "requested (Deleted i ok # l) = requested l"

definition handed_out :: "'s daemon \<Rightarrow> (int \<times> int) list" where
  "handed_out d = concat (map (owed_pairs \<circ> tk_view) (dm_tasks d)) @ requested (dm_log d)"

definition consistent :: "('s \<Rightarrow> bool) \<Rightarrow> ('s \<Rightarrow> (int \<times> int) set) \<Rightarrow> ('s \<Rightarrow> (int \<times> int) set) \<Rightarrow> ('s \<Rightarrow> int option) \<Rightarrow> 's daemon \<Rightarrow> bool" where
  "consistent ok known handed live d \<longleftrightarrow> ok (dm_store d)
     \<and> (\<forall>t \<in> set (dm_tasks d). v_known (tk_view t) \<subseteq> known (dm_store d)
          \<and> (\<forall>e. v_gate (tk_view t) \<noteq> None \<and> v_live (tk_view t) = Some e \<longrightarrow> live (dm_store d) = Some e))
     \<and> distinct (handed_out d) \<and> set (handed_out d) \<subseteq> handed (dm_store d)
     \<and> (\<forall>e i b. AckSent e i b \<in> set (dm_log d) \<longrightarrow> (e, i) \<in> known (dm_store d))"

lemma grows_refl: "ok s \<Longrightarrow> grows ok known handed s s"
  by (simp add: grows_def)

lemma requested_append [simp]: "requested (l @ l') = requested l @ requested l'"
  by (induction l rule: requested.induct) simp_all

lemma mset_concat_update:
  assumes "i < length ts"
  shows "mset (concat (map f (ts[i := t]))) + mset (f (ts ! i)) = mset (concat (map f ts)) + mset (f t)"
  using assms
proof (induction ts arbitrary: i)
  case (Cons u ts)
  then show ?case by (cases i) (auto simp: ac_simps)
qed simp

lemma quiet_fields [simp]:
  "v_known (started_view c y v) = v_known v" "v_known (installed_view install z v) = v_known v"
  "v_known (confirmed_view ei w v) = v_known v" "v_known (established_view n e v) = v_known v"
  "v_known (deleted_view sid w v) = v_known v" "v_known (changed m v) = v_known v"
  "v_live (shown d b v) = v_live v" "v_live (stored d g v) = v_live v" "v_live (confirmed_view ei w v) = v_live v"
  "v_live (established_view n e v) = v_live v" "v_live (deleted_view sid w v) = v_live v" "v_live (changed m v) = v_live v"
  "v_owed (shown d b v) = v_owed v" "v_owed (stored d g v) = v_owed v" "v_owed (installed_view install z v) = v_owed v"
  "v_owed (confirmed_view ei w v) = v_owed v" "v_owed (established_view n e v) = v_owed v"
  "v_owed (deleted_view sid w v) = v_owed v" "v_owed (changed m v) = v_owed v"
  by (simp_all add: shown_def stored_def started_view_def installed_view_def confirmed_view_def established_view_def
      deleted_view_def changed_def split: sum.split option.split)

lemma shown_known:
  "v_known v \<subseteq> K \<Longrightarrow> (\<And>ms m. r = Inr ms \<Longrightarrow> m \<in> set ms \<Longrightarrow> (se_epoch c, im_id m) \<in> K) \<Longrightarrow> v_known (shown c r v) \<subseteq> K"
  by (auto simp: shown_def split: sum.split)

lemma stored_known:
  "v_known v \<subseteq> K \<Longrightarrow> (\<And>m. r = Inr (Some m) \<Longrightarrow> (se_epoch c, im_id m) \<in> K) \<Longrightarrow> v_known (stored c r v) \<subseteq> K"
  by (auto simp: stored_def split: sum.split option.split)

lemma in_set_update:
  assumes "x \<in> set (xs[i := y])"
  obtains "x = y" | j where "j < length xs" "j \<noteq> i" "x = xs ! j"
proof -
  obtain j where "j < length xs" "x = xs[i := y] ! j" using assms by (auto simp: in_set_conv_nth)
  with that show thesis by (cases "j = i") auto
qed

lemma mset_handed:
  assumes "A' + p = A + p'" "p' + q' = p + (N :: 'a multiset)"
  shows "A' + (q' + q) = A + q + N"
proof -
  have "A' + (q' + q) + p = (A' + p) + q' + q" by (simp add: ac_simps)
  also have "\<dots> = A + (p' + q') + q" by (simp add: assms(1) ac_simps)
  also have "\<dots> = A + q + N + p" by (simp add: assms(2) ac_simps)
  finally show ?thesis by simp
qed

locale message_laws =
  fixes S :: "'s message_store" and env :: "'e \<Rightarrow> 's \<Rightarrow> 's"
    and ok :: "'s \<Rightarrow> bool" and known handed :: "'s \<Rightarrow> (int \<times> int) set" and live :: "'s \<Rightarrow> int option"
  assumes ask: "ok s \<Longrightarrow> ms_ask S q s = (r, s') \<Longrightarrow> grows ok known handed s s'"
    and ask_live: "ok s \<Longrightarrow> ms_ask S q s = (r, s') \<Longrightarrow> (\<And>e t. q \<noteq> ForgetSession e t) \<Longrightarrow> live s' = live s"
    and current: "ok s \<Longrightarrow> ms_ask S (ListenerCurrent c) s = (Inr True, s') \<Longrightarrow> live s = Some (se_epoch c)"
    and pending: "ok s \<Longrightarrow> ms_pending S c s = Inr ms \<Longrightarrow> m \<in> set ms \<Longrightarrow> (se_epoch c, im_id m) \<in> known s"
    and ingest: "ok s \<Longrightarrow> ms_ingest S c x t s = (stored_one, s') \<Longrightarrow> grows ok known handed s s' \<and> live s' = live s"
    and ingested: "ok s \<Longrightarrow> ms_ingest S c x t s = (Inr (Some m), s') \<Longrightarrow> (se_epoch c, im_id m) \<in> known s'"
    and start: "ok s \<Longrightarrow> ms_start S c i t s = (given, s') \<Longrightarrow> grows ok known handed s s' \<and> live s' = live s"
    and begun: "ok s \<Longrightarrow> ms_start S c i t s = (Inr (Some ids), s') \<Longrightarrow>
      live s = Some (se_epoch c) \<and> distinct ids \<and> Pair (se_epoch c) ` set ids \<subseteq> handed s' - handed s"
    and install: "ok s \<Longrightarrow> ms_install S install_request t s = (installed, s') \<Longrightarrow> grows ok known handed s s'"
    and env: "ok s \<Longrightarrow> grows ok known handed s (env e s) \<and> live (env e s) = live s"
begin

lemma move_store:
  assumes w: "wp p Q v" and s: "ok s" and k: "v_known v \<subseteq> known s"
    and e: "\<And>e. v_gate v \<noteq> None \<Longrightarrow> v_live v = Some e \<Longrightarrow> live s = Some e"
    and mv: "move p S ts n a s m v = Some mv"
  shows "grows ok known handed s (mv_store mv)" (is ?grows)
    and "v_known (mv_view mv) \<subseteq> known (mv_store mv)" (is ?known)
    and "live (mv_store mv) \<noteq> live s \<Longrightarrow> v_gate v = Some ExclusiveGate"
    and "v_gate (mv_view mv) \<noteq> None \<Longrightarrow> v_live (mv_view mv) = Some x \<Longrightarrow> live (mv_store mv) = Some x"
    and "AckSent y i b \<in> set (mv_log mv) \<Longrightarrow> (y, i) \<in> known s"
    and "\<exists>new. mset (owed_pairs (mv_view mv) @ requested (mv_log mv)) = mset (owed_pairs v @ new)
      \<and> distinct new \<and> set new \<subseteq> handed (mv_store mv) - handed s"
proof -
  have trivial: "grows ok known handed s s" by (rule grows_refl) (rule s)
  show ?grows
    using s mv by (cases p) (auto simp: Let_def intro: trivial ask ingest [THEN conjunct1] start [THEN conjunct1] install
        split: if_splits answer.splits prod.splits)
  then have mono: "known s \<subseteq> known (mv_store mv)" by (simp add: grows_def)
  show ?known
  proof (cases "(\<exists>c f. p = LoadPending c f) \<or> (\<exists>c x t f. p = StoreMessage c x t f)")
    case True
    then show ?thesis
    proof (elim disjE exE)
      fix c f assume p: "p = LoadPending c f"
      have "v_known (shown c (ms_pending S c s) v) \<subseteq> known s" by (rule shown_known [OF k pending [OF s]])
      with mv p show ?thesis by (auto simp: Let_def)
    next
      fix c x t f assume p: "p = StoreMessage c x t f"
      obtain r s' where r: "ms_ingest S c x t s = (r, s')" by fastforce
      with mv p mono have s': "known s \<subseteq> known s'" "mv_store mv = s'" "mv_view mv = stored c r v" by auto
      have "v_known (stored c r v) \<subseteq> known s'"
        by (rule stored_known) (use k s' ingested [OF s] r in auto)
      with s' show ?thesis by simp
    qed
  next
    case False
    with mv have "v_known (mv_view mv) = v_known v"
      by (cases p) (auto simp: Let_def split: if_splits answer.splits prod.splits)
    with k mono show ?thesis by blast
  qed
  show "live (mv_store mv) \<noteq> live s \<Longrightarrow> v_gate v = Some ExclusiveGate"
    using w mv ask_live [OF s] ingest [OF s] start [OF s]
    by (cases p) (auto simp: Let_def may_ask_def split: if_splits answer.splits prod.splits store_query.splits)
  show "v_gate (mv_view mv) \<noteq> None \<Longrightarrow> v_live (mv_view mv) = Some x \<Longrightarrow> live (mv_store mv) = Some x"
  proof (cases p)
    case (AskStore q f)
    with mv e show "v_gate (mv_view mv) \<noteq> None \<Longrightarrow> v_live (mv_view mv) = Some x \<Longrightarrow> live (mv_store mv) = Some x"
      using ask_live [OF s] current [OF s]
      by (cases q) (auto simp: asked_view_def split: prod.splits if_splits)
  next
    case (StartAcquisition c i t f)
    with mv e show "v_gate (mv_view mv) \<noteq> None \<Longrightarrow> v_live (mv_view mv) = Some x \<Longrightarrow> live (mv_store mv) = Some x"
      using start [OF s] begun [OF s]
      by (auto simp: started_view_def split: prod.splits sum.splits option.splits)
  next
    case (StoreSession install t f)
    with mv show "v_gate (mv_view mv) \<noteq> None \<Longrightarrow> v_live (mv_view mv) = Some x \<Longrightarrow> live (mv_store mv) = Some x"
      by (auto simp: installed_view_def split: prod.splits)
  next
    case (StoreMessage c m t f)
    with mv e show "v_gate (mv_view mv) \<noteq> None \<Longrightarrow> v_live (mv_view mv) = Some x \<Longrightarrow> live (mv_store mv) = Some x"
      using ingest [OF s] by (auto split: prod.splits)
  qed (use mv e in \<open>auto simp: Let_def split: if_splits answer.splits\<close>)
  show "AckSent y i b \<in> set (mv_log mv) \<Longrightarrow> (y, i) \<in> known s"
    using w mv k by (cases p) (auto simp: Let_def split: if_splits answer.splits prod.splits sum.splits option.splits)
  show "\<exists>new. mset (owed_pairs (mv_view mv) @ requested (mv_log mv)) = mset (owed_pairs v @ new)
      \<and> distinct new \<and> set new \<subseteq> handed (mv_store mv) - handed s"
  proof (cases p)
    case (StartAcquisition c i t f)
    with w have owed: "v_owed v = None" by simp
    from mv StartAcquisition obtain r s' where r: "ms_start S c i t s = (r, s')"
      and mv': "mv_store mv = s'" "mv_view mv = started_view c r v" "mv_log mv = []" by (auto split: prod.splits)
    show ?thesis
    proof (cases "\<exists>ids. r = Inr (Some ids)")
      case True
      then obtain ids where ids: "r = Inr (Some ids)" by blast
      with begun [OF s, of c i t ids s'] r have "distinct ids" "Pair (se_epoch c) ` set ids \<subseteq> handed s' - handed s" by auto
      with owed ids mv' show ?thesis
        by (intro exI [of _ "map (Pair (se_epoch c)) ids"]) (auto simp: owed_pairs_def started_view_def distinct_map inj_on_def)
    next
      case False
      with owed mv' show ?thesis
        by (intro exI [of _ "[]"]) (auto simp: owed_pairs_def started_view_def split: sum.splits option.splits)
    qed
  next
    case (RemoteAcquire h ids f)
    with w mv show ?thesis by (intro exI [of _ "[]"]) (auto simp: owed_pairs_def split: answer.splits)
  qed (use mv w in \<open>intro exI [of _ "[]"]; auto simp: owed_pairs_def Let_def asked_view_def split: if_splits answer.splits prod.splits store_query.splits
      sum.splits option.splits effect_outcome.splits\<close>)+
qed

lemma consistent_advance:
  assumes g: "guarded d" and c: "consistent ok known handed live d" and adv: "advance S n a d = Some d'"
  shows "consistent ok known handed live d'"
  using adv
proof (rule advance_Some)
  fix mv :: "'s moved"
  let ?t = "dm_tasks d ! n"
  let ?k = "tk_owner ?t"
  let ?u = "?t\<lparr>tk_view := mv_view mv, tk_prog := mv_prog mv\<rparr>"
  assume n: "n < length (dm_tasks d)"
    and mv: "move (tk_prog ?t) S (dm_tasks d) ?k a (dm_store d) (dm_memory d ?k) (tk_view ?t) = Some mv"
    and d': "d' = d\<lparr>dm_store := mv_store mv, dm_memory := (dm_memory d)(?k := mv_memory mv),
            dm_tasks := (dm_tasks d)[n := ?u], dm_log := mv_log mv @ dm_log d\<rparr>"
  have member: "?t \<in> set (dm_tasks d)" using n by simp
  have w: "wp (tk_prog ?t) (\<lambda>_ v. at_rest v) (tk_view ?t)" by (rule guarded_task [OF g member])
  have s: "ok (dm_store d)" and k: "v_known (tk_view ?t) \<subseteq> known (dm_store d)"
    and e: "\<And>e. v_gate (tk_view ?t) \<noteq> None \<Longrightarrow> v_live (tk_view ?t) = Some e \<Longrightarrow> live (dm_store d) = Some e"
    using c member by (auto simp: consistent_def)
  note st = move_store [OF w s k e mv]
  have mono: "ok (mv_store mv)" "known (dm_store d) \<subseteq> known (mv_store mv)" "handed (dm_store d) \<subseteq> handed (mv_store mv)"
    using st(1) by (auto simp: grows_def)
  have other: "v_known (tk_view x) \<subseteq> known (mv_store mv)
      \<and> (\<forall>e. v_gate (tk_view x) \<noteq> None \<and> v_live (tk_view x) = Some e \<longrightarrow> live (mv_store mv) = Some e)"
    if x: "j < length (dm_tasks d)" "j \<noteq> n" "x = dm_tasks d ! j" for j x
  proof -
    have "compatible ?k (tk_view ?t) (tk_owner x) (tk_view x)" using g n x by (auto simp: guarded_def)
    then have "v_gate (tk_view x) \<noteq> None \<Longrightarrow> live (mv_store mv) = live (dm_store d)"
      using st(3) by (auto simp: compatible_def)
    moreover have "x \<in> set (dm_tasks d)" using x by simp
    then have "v_known (tk_view x) \<subseteq> known (dm_store d)
      \<and> (\<forall>e. v_gate (tk_view x) \<noteq> None \<and> v_live (tk_view x) = Some e \<longrightarrow> live (dm_store d) = Some e)"
      using c unfolding consistent_def by blast
    ultimately show ?thesis using mono(2) by auto
  qed
  have tasks: "\<forall>x \<in> set (dm_tasks d'). v_known (tk_view x) \<subseteq> known (mv_store mv)
      \<and> (\<forall>e. v_gate (tk_view x) \<noteq> None \<and> v_live (tk_view x) = Some e \<longrightarrow> live (mv_store mv) = Some e)"
  proof
    fix x assume "x \<in> set (dm_tasks d')"
    then have "x \<in> set ((dm_tasks d)[n := ?u])" by (simp add: d')
    then show "v_known (tk_view x) \<subseteq> known (mv_store mv)
      \<and> (\<forall>e. v_gate (tk_view x) \<noteq> None \<and> v_live (tk_view x) = Some e \<longrightarrow> live (mv_store mv) = Some e)"
      by (rule in_set_update) (use st(2,4) other in \<open>simp_all\<close>)
  qed
  from st(6) obtain new where new: "mset (owed_pairs (mv_view mv) @ requested (mv_log mv)) = mset (owed_pairs (tk_view ?t) @ new)"
    "distinct new" "set new \<subseteq> handed (mv_store mv) - handed (dm_store d)" by blast
  have view: "tk_view ?u = mv_view mv" "dm_tasks d' = (dm_tasks d)[n := ?u]" "dm_log d' = mv_log mv @ dm_log d"
    by (simp_all add: d')
  have "mset (concat (map (owed_pairs \<circ> tk_view) ((dm_tasks d)[n := ?u]))) + mset (owed_pairs (tk_view ?t))
      = mset (concat (map (owed_pairs \<circ> tk_view) (dm_tasks d))) + mset (owed_pairs (mv_view mv))"
    using mset_concat_update [OF n, of "owed_pairs \<circ> tk_view" ?u] by (simp only: comp_apply view(1))
  from mset_handed [OF this new(1) [unfolded mset_append]] have "mset (handed_out d') = mset (handed_out d @ new)"
    by (simp only: handed_out_def view(2,3) mset_append requested_append)
  then have "distinct (handed_out d') = distinct (handed_out d @ new)" "set (handed_out d') = set (handed_out d @ new)"
    by (rule mset_eq_imp_distinct_iff, rule mset_eq_setD)
  moreover have "distinct (handed_out d)" "set (handed_out d) \<subseteq> handed (dm_store d)" using c by (simp_all add: consistent_def)
  moreover have "\<forall>e i b. AckSent e i b \<in> set (dm_log d) \<longrightarrow> (e, i) \<in> known (dm_store d)"
    using c unfolding consistent_def by blast
  then have "\<forall>e i b. AckSent e i b \<in> set (dm_log d') \<longrightarrow> (e, i) \<in> known (mv_store mv)"
    using st(5) mono(2) unfolding view(3) by (auto; blast)
  moreover have "dm_store d' = mv_store mv" by (simp add: d')
  ultimately show "consistent ok known handed live d'"
    using mono new(2,3) tasks unfolding consistent_def by (auto; blast)
qed

lemma consistent_step:
  assumes "guarded d" "consistent ok known handed live d"
  shows "consistent ok known handed live (daemon_step S env ev d)"
proof (cases ev)
  case (Call k entry)
  with assms show ?thesis by (auto simp: daemon_step_def consistent_def handed_out_def owed_pairs_def fresh_view_def)
next
  case (Advance i a)
  with assms show ?thesis by (auto simp: daemon_step_def intro: consistent_advance split: option.split)
next
  case (Around e)
  have "ok (dm_store d)" using assms(2) by (simp add: consistent_def)
  from env [OF this, of e] have g: "ok (env e (dm_store d))" "known (dm_store d) \<subseteq> known (env e (dm_store d))"
    "handed (dm_store d) \<subseteq> handed (env e (dm_store d))" and l: "live (env e (dm_store d)) = live (dm_store d)"
    by (simp_all add: grows_def)
  have "handed_out (daemon_step S env ev d) = handed_out d" by (simp add: Around daemon_step_def handed_out_def)
  with assms(2) g l show ?thesis
    unfolding consistent_def by (simp add: Around daemon_step_def) blast
next
  case Crash
  with assms show ?thesis by (auto simp: daemon_step_def consistent_def handed_out_def)
qed

lemma consistent_run:
  "guarded d \<Longrightarrow> consistent ok known handed live d \<Longrightarrow> consistent ok known handed live (run_daemon S env evs d)"
  by (induction evs arbitrary: d) (simp_all add: guarded_step consistent_step)

lemma consistent_fresh: "ok s \<Longrightarrow> consistent ok known handed live (fresh_daemon s)"
  by (simp add: consistent_def fresh_daemon_def handed_out_def)

text \<open>What leaves for GitHub belongs to the session the store holds as current, and was stored or handed out before.\<close>

lemma in_flight:
  assumes "ok s" "t \<in> set (dm_tasks (run_daemon S env evs (fresh_daemon s)))"
  shows "tk_prog t = RemoteAck h i f \<Longrightarrow> live (dm_store (run_daemon S env evs (fresh_daemon s))) = Some (ps_epoch h)
      \<and> (ps_epoch h, i) \<in> known (dm_store (run_daemon S env evs (fresh_daemon s)))"
    and "tk_prog t = RemoteAcquire h ids g \<Longrightarrow> live (dm_store (run_daemon S env evs (fresh_daemon s))) = Some (ps_epoch h)
      \<and> Pair (ps_epoch h) ` set ids \<subseteq> handed (dm_store (run_daemon S env evs (fresh_daemon s)))"
proof -
  let ?d = "run_daemon S env evs (fresh_daemon s)"
  have c: "consistent ok known handed live ?d" by (rule consistent_run [OF guarded_fresh consistent_fresh [OF assms(1)]])
  have w: "wp (tk_prog t) (\<lambda>_ v. at_rest v) (tk_view t)" by (rule guarded_task [OF guarded_run [OF guarded_fresh] assms(2)])
  have t: "v_known (tk_view t) \<subseteq> known (dm_store ?d)"
    "\<And>e. v_gate (tk_view t) \<noteq> None \<Longrightarrow> v_live (tk_view t) = Some e \<Longrightarrow> live (dm_store ?d) = Some e"
    "set (handed_out ?d) \<subseteq> handed (dm_store ?d)"
    using c assms(2) unfolding consistent_def by blast+
  show "tk_prog t = RemoteAck h i f \<Longrightarrow> live (dm_store ?d) = Some (ps_epoch h) \<and> (ps_epoch h, i) \<in> known (dm_store ?d)"
    using t(1,2) w by auto
  have "set (owed_pairs (tk_view t)) \<subseteq> handed (dm_store ?d)"
    using t(3) assms(2) by (auto simp: handed_out_def)
  then show "tk_prog t = RemoteAcquire h ids g \<Longrightarrow> live (dm_store ?d) = Some (ps_epoch h)
      \<and> Pair (ps_epoch h) ` set ids \<subseteq> handed (dm_store ?d)"
    using t(2) w by (auto simp: owed_pairs_def)
qed

lemma requests_distinct: "ok s \<Longrightarrow> distinct (requested (dm_log (run_daemon S env evs (fresh_daemon s))))"
  using consistent_run [OF guarded_fresh consistent_fresh] by (auto simp: consistent_def handed_out_def)

lemma acks_stored:
  assumes "ok s" "AckSent e i b \<in> set (dm_log (run_daemon S env evs (fresh_daemon s)))"
  shows "(e, i) \<in> known (dm_store (run_daemon S env evs (fresh_daemon s)))"
  using consistent_run [OF guarded_fresh consistent_fresh [OF assms(1)], of evs] assms(2) unfolding consistent_def by blast


end
section \<open>The store of the program\<close>

definition on_main :: "(listener_db \<Rightarrow> (store_error + 'a) \<times> listener_db) \<Rightarrow> fleet_db \<Rightarrow> (core_error + 'a) \<times> fleet_db" where
  "on_main f db = (case f (fd_main db) of (r, m) \<Rightarrow> (map_err core_of_store r, db\<lparr>fd_main := m\<rparr>))"

definition on_fleet :: "(fleet_db \<Rightarrow> (store_error + 'a) \<times> fleet_db) \<Rightarrow> fleet_db \<Rightarrow> (core_error + 'a) \<times> fleet_db" where
  "on_fleet f db = (case f db of (r, db') \<Rightarrow> (map_err core_of_store r, db'))"

definition read_main :: "(listener_db \<Rightarrow> store_error + 'a) \<Rightarrow> fleet_db \<Rightarrow> core_error + 'a" where
  "read_main f db = map_err core_of_store (f (fd_main db))"

text \<open>The identifiers that an ingestion draws for new jobs come from the random source.\<close>

definition fleet_ask :: "external \<Rightarrow> fleet_codec \<Rightarrow> string \<Rightarrow> store_query \<Rightarrow> fleet_db \<Rightarrow> (core_error + bool) \<times> fleet_db" where
  "fleet_ask E C fleet q db = (case q of
       ListenerCurrent c \<Rightarrow> (read_main (listener_context_current E fleet c) db, db)
     | AuthorizeSession g a \<Rightarrow> (read_main (runtime_auth_guard E fleet g a) db, db)
     | AuthorizeClose g \<Rightarrow> (Inr (session_close_authorize fleet g (fd_main db)), db)
     | AcknowledgeMessage c i t \<Rightarrow> on_main (listener_acknowledge E fleet c i t) db
     | CompleteAcquisition c i ids t \<Rightarrow> on_main (listener_acquire_complete E fleet c i ids t) db
     | ConfirmEmptyPoll c t \<Rightarrow> on_main (listener_demand_confirmed E fleet c t) db
     | ForgetSession e t \<Rightarrow> on_main (session_clear fleet e t) db
     | PublishObservation ob t \<Rightarrow> on_fleet (commit_fleet_tx (fleet_set_observed E C fleet ob t)) db)"

definition fleet_store :: "external \<Rightarrow> listener_codec \<Rightarrow> fleet_codec \<Rightarrow> (fleet_db \<Rightarrow> nat \<Rightarrow> string) \<Rightarrow> string \<Rightarrow> fleet_db message_store" where
  "fleet_store E L C uuids fleet =
     \<lparr>ms_ask = fleet_ask E C fleet,
      ms_pending = (\<lambda>c. read_main (listener_pending E fleet c)),
      ms_session = read_main (session_handle_get E fleet),
      ms_epoch = (\<lambda>db. Inr (map_option sr_epoch (session_of (fd_main db) fleet))),
      ms_ingest = (\<lambda>c x t db. on_main (listener_ingest E L (uuids db) fleet c x t) db),
      ms_start = (\<lambda>c i t. on_main (listener_acquire_start E fleet c i t)),
      ms_install = (\<lambda>install t. on_main (session_install E fleet install t))\<rparr>"

text \<open>
  What the rest of the program does to the store between two steps of the listener of a Fleet: every
  mutation, handoff and promotion, the listeners of other Fleets, and any change of the tables the
  transactions of the listener do not own.
\<close>

fun listener_fleet :: "listener_event \<Rightarrow> string option" where
  "listener_fleet (Deliver fleet c m uuids now) = Some fleet"
| "listener_fleet (ConfirmDemand fleet c now) = Some fleet"
| "listener_fleet (Acknowledge fleet c i now) = Some fleet"
| "listener_fleet (AcquireStart fleet c i now) = Some fleet"
| "listener_fleet (AcquireComplete fleet c i ids now) = Some fleet"
| "listener_fleet (InstallSession fleet install now) = Some fleet"
| "listener_fleet (ClearSession fleet epoch now) = Some fleet"
| "listener_fleet (SnapshotDemand fleet amount now) = Some fleet"
| "listener_fleet (Elsewhere l hs cs rs ret js fs ob) = None"

definition around :: "external \<Rightarrow> listener_codec \<Rightarrow> fleet_codec \<Rightarrow> string \<Rightarrow> fleet_event \<Rightarrow> fleet_db \<Rightarrow> fleet_db" where
  "around E L C fleet ev db = (case ev of
       ListenerDoes lev \<Rightarrow> if listener_fleet lev = Some fleet then db else fleet_step E L C ev db
     | Surroundings t \<Rightarrow> (let db' = surrounded t db in
         db'\<lparr>fd_main := (fd_main db')\<lparr>ld_messages := ld_messages (fd_main db), ld_acquisitions := ld_acquisitions (fd_main db)\<rparr>\<rparr>)
     | _ \<Rightarrow> fleet_step E L C ev db)"

section \<open>The store keeps the contract\<close>

definition known_of :: "string \<Rightarrow> listener_db \<Rightarrow> (int \<times> int) set" where
  "known_of fleet m = {(e, i). message_of m (fleet, e, i) \<noteq> None}"

definition handed_of :: "string \<Rightarrow> listener_db \<Rightarrow> (int \<times> int) set" where
  "handed_of fleet m = {(e, q). \<exists>s. acquisition_state m (fleet, e, q) = Some s \<and> s \<noteq> ''Pending''}"

definition live_of :: "string \<Rightarrow> listener_db \<Rightarrow> int option" where
  "live_of fleet m = map_option sr_epoch (session_of m fleet)"

abbreviation main_grows :: "string \<Rightarrow> listener_db \<Rightarrow> listener_db \<Rightarrow> bool" where
  "main_grows fleet \<equiv> grows listener_inv (known_of fleet) (handed_of fleet)"

lemma effect_messages:
  assumes "step_effect db db'" "message_of db k \<noteq> None"
  shows "message_of db' k \<noteq> None"
proof -
  consider "map_option mr_acked (message_of db' k) = map_option mr_acked (message_of db k)"
    | "message_of db' k \<noteq> None \<longleftrightarrow> message_of db k \<noteq> None" | f e i where "message_of db' k \<noteq> None \<longleftrightarrow> k = (f, e, i) \<or> message_of db k \<noteq> None"
    | "ld_messages db' = ld_messages db"
    using assms(1) unfolding step_effect_def keeps_acks_def acknowledges_def delivers_def supersedes_def by blast
  then show ?thesis
  proof cases
    case 1
    with assms(2) show ?thesis by (metis option.map_disc_iff)
  next
    case 4
    with assms(2) show ?thesis by (simp add: message_of_def)
  qed (use assms(2) in blast)+
qed

lemma main_step:
  assumes "listener_inv m"
  shows "main_grows fleet m (listener_step E L ev m)"
proof -
  have keyed: "acquisitions_keyed m" using assms by (rule listener_invD)
  have "(e, q) \<in> handed_of fleet (listener_step E L ev m)" if handed: "(e, q) \<in> handed_of fleet m" for e q
  proof -
    from handed obtain s where s: "acquisition_state m (fleet, e, q) = Some s" "s \<noteq> ''Pending''" by (auto simp: handed_of_def)
    with step_acquisitions [OF keyed, of "(fleet, e, q)" E L ev] obtain t where
      "t \<in> acq_later s" "acquisition_state (listener_step E L ev m) (fleet, e, q) = Some t" by (auto simp: acq_reach_def)
    with s(2) acq_later_pending show ?thesis by (auto simp: handed_of_def)
  qed
  moreover have "known_of fleet m \<subseteq> known_of fleet (listener_step E L ev m)"
    using effect_messages [OF step_effects [OF keyed, of E L ev]] unfolding known_of_def by blast
  ultimately show ?thesis using step_inv [OF assms] by (auto simp: grows_def)
qed

lemma same_main:
  assumes "ld_sessions m' = ld_sessions m" "ld_messages m' = ld_messages m" "ld_acquisitions m' = ld_acquisitions m" "listener_inv m"
  shows "main_grows fleet m m' \<and> live_of fleet m' = live_of fleet m"
proof -
  have "message_of m' = message_of m" "acquisition_of m' = acquisition_of m" "session_of m' = session_of m"
    "acquisition_state m' = acquisition_state m" "message_acked m' = message_acked m" "acquisitions_keyed m' = acquisitions_keyed m"
    using assms(1-3) by (simp_all add: message_of_def acquisition_of_def session_of_def acquisition_state_def
        message_acked_def acquisitions_keyed_def fun_eq_iff)
  then show ?thesis using assms(4) by (simp add: grows_def listener_inv_def known_of_def handed_of_def live_of_def)
qed

lemma ingest_sessions:
  assumes "listener_ingest_tx E L uuids f c x t m = Inr (r, m')"
  shows "ld_sessions m' = ld_sessions m"
  using assms
proof (cases rule: ingest_Inr)
  case (again digest row)
  from redelivered_Inr(2) [OF again(5)] show ?thesis by auto
next
  case (new digest)
  from new(5) show ?thesis by (rule first_delivery_Inr) simp
qed simp

lemma epochs_kept:
  assumes "listener_inv m" "listener_fleet ev \<noteq> Some fleet \<or> (\<forall>i t. ev \<noteq> InstallSession fleet i t) \<and> (\<forall>e t. ev \<noteq> ClearSession fleet e t)"
  shows "live_of fleet (listener_step E L ev m) = live_of fleet m"
proof (cases ev)
  case (Acknowledge f c i t)
  then show ?thesis
    by (auto simp: listener_acknowledge_def commit_snd live_of_def session_of_def option.map_comp comp_def
        elim!: acknowledge_Inr split: sum.split prod.split intro!: option.map_cong0)
next
  case (Deliver f c x uuids t)
  then show ?thesis
    by (auto simp: listener_ingest_def commit_snd live_of_def session_of_def dest: ingest_sessions split: sum.split prod.split)
next
  case (ConfirmDemand f c t)
  then show ?thesis
    by (auto simp: listener_demand_confirmed_def commit_snd live_of_def session_of_def dest: confirmed_Inr(1) split: sum.split prod.split)
next
  case (AcquireStart f c i t)
  then show ?thesis
    by (auto simp: listener_acquire_start_def commit_snd live_of_def session_of_def elim!: acquire_start_Inr split: sum.split prod.split)
next
  case (AcquireComplete f c i ids t)
  then show ?thesis
    using acquire_complete_snd [of E f c i ids t m] by (auto simp: live_of_def session_of_def)
next
  case (InstallSession f install t)
  with assms(2) have "f \<noteq> fleet" by auto
  with InstallSession show ?thesis
    by (auto simp: session_install_def commit_snd live_of_def session_of_def listener_reconcile_old_def demand_snapshot_def
        elim!: install_Inr split: sum.split prod.split)
next
  case (ClearSession f e t)
  with assms(2) have "f \<noteq> fleet" by auto
  with ClearSession show ?thesis
    by (auto simp: session_clear_def commit_snd live_of_def session_of_def elim!: clear_Inr split: sum.split prod.split)
qed (simp_all add: demand_snapshot_def live_of_def session_of_def)
lemma same_rows_trans: "same_rows db db1 \<Longrightarrow> same_rows db1 db2 \<Longrightarrow> same_rows db db2"
  by (simp add: same_rows_def)

lemma auth_only_rows: "auth_only db db' \<Longrightarrow> same_rows db db'"
  by (simp add: auth_only_def)

lemma put_head_rows [simp]: "same_rows db (put_head key f s db') = same_rows db db'"
  by (simp add: same_rows_def put_head_def)

lemma tail_rows:
  assumes "change_insert i key r k now db = Inr db1" "commit_tail rk d x mf db1 = Inr db'"
  shows "same_rows db db'"
  using change_insert_Inr [OF assms(1)] tail_others [OF assms(2)] by (simp add: same_rows_def)

lemma put_rows:
  assumes "commit_fleet_mutation_tx C mf db = Inr (u, db')"
  shows "same_rows db db'"
proof -
  from assms obtain db1 db2 db3 where 1: "fleet_commit_revision C (revision_insert_of mf) db = Inr db1"
    and 2: "retarget_auth C mf db1 = Inr db2"
    and 3: "change_insert (cv_id (mf_change mf)) (mf_key mf) (mf_revision mf) (cv_kind (mf_change mf)) (mf_now mf) db2 = Inr db3"
    and 4: "commit_tail (mf_resource_kind mf) ''put'' None mf db3 = Inr db'"
    by (auto simp: commit_fleet_mutation_tx_def and_then_Inr map_err_Inr map_ok_Inr infra_def)
  from 1 have "same_rows db db1" by (rule commit_revision_Inr) (simp add: auth_only_rows)
  with auth_only_rows [OF auth_only_retarget_auth [OF 2]] tail_rows [OF 3 4] show ?thesis by (blast intro: same_rows_trans)
qed

lemma delete_rows:
  assumes "commit_decommission_tx C mf db = Inr (u, db')"
  shows "same_rows db db'"
proof -
  from assms obtain db1 db2 db3 where 1: "fleet_mark_decommissioning (mf_key mf) (mf_incarnation mf) (mf_revision mf) (mf_now mf) db = Inr db1"
    and 2: "cleanup_only_auth C mf db1 = Inr db2"
    and 3: "change_insert (cv_id (mf_change mf)) (mf_key mf) (mf_revision mf) (cv_kind (mf_change mf)) (mf_now mf) db2 = Inr db3"
    and 4: "commit_tail (mf_resource_kind mf) ''put'' None mf db3 = Inr db'"
    by (auto simp: commit_decommission_tx_def and_then_Inr map_err_Inr map_ok_Inr infra_def split: sum.splits store_error.splits)
  from 1 have "same_rows db db1"
    by (auto simp: fleet_mark_decommissioning_def and_then_Inr ok_or_Inr same_rows_def put_head_def split: if_splits)
  with auth_only_rows [OF auth_only_cleanup [OF 2]] tail_rows [OF 3 4] show ?thesis by (blast intro: same_rows_trans)
qed

lemma observed_rows:
  assumes "fleet_set_observed E C key ob now db = Inr (x, db')"
  shows "same_rows db db'"
  using assms
  by (cases rule: set_observed_Inr)
    (auto simp: observed_decommissioning_def observed_running_def progress_changes_def put_head_def same_rows_def Let_def)

lemma tombstone_rows: "fleet_set_tombstone key now db = Inr (u, db') \<Longrightarrow> same_rows db db'"
  by (auto simp: fleet_set_tombstone_def map_ok_Inr ok_or_Inr same_rows_def put_head_def)

lemma same_rows_refl [simp]: "same_rows db db"
  by (simp add: same_rows_def)

lemma step_rows:
  assumes "\<And>lev. ev \<noteq> ListenerDoes lev" "\<And>t. ev \<noteq> Surroundings t"
  shows "same_rows db (fleet_step E L C ev db)"
proof (cases ev)
  case (PutFleet mf)
  then show ?thesis
    by (cases "commit_fleet_mutation_tx C mf db") (auto simp: commit_fleet_mutation_def commit_fleet_tx_snd dest: put_rows)
next
  case (DeleteFleet mf)
  then show ?thesis
    by (cases "commit_decommission_tx C mf db") (auto simp: commit_decommission_def commit_fleet_tx_snd dest: delete_rows)
next
  case (ObserveFleet key ob now)
  then show ?thesis by (auto simp: commit_fleet_tx_snd dest: observed_rows split: sum.split)
next
  case (TombstoneFleet key now)
  then show ?thesis by (auto simp: commit_fleet_tx_snd dest: tombstone_rows split: sum.split)
qed (use assms in \<open>auto simp: commit_fleet_tx_snd dest: auth_only_acknowledge auth_only_blocked auth_only_context_block
    auth_only_advance intro: auth_only_rows split: sum.split\<close>)

text \<open>A transaction of the listener, seen as a step of its runs.\<close>

abbreviation contract :: "string \<Rightarrow> fleet_db \<Rightarrow> fleet_db \<Rightarrow> bool" where
  "contract fleet \<equiv> grows (listener_inv \<circ> fd_main) (known_of fleet \<circ> fd_main) (handed_of fleet \<circ> fd_main)"

lemma contract_main: "contract fleet db db' \<longleftrightarrow> main_grows fleet (fd_main db) (fd_main db')"
  by (simp add: grows_def)

lemma on_main_step:
  assumes "on_main f db = (r, db')" "snd (f (fd_main db)) = listener_step E L ev (fd_main db)" "listener_inv (fd_main db)"
  shows "contract fleet db db' \<and> fd_main db' = listener_step E L ev (fd_main db)"
  using assms main_step [OF assms(3), of fleet E L ev] by (auto simp: on_main_def contract_main split: prod.splits)

lemma contract_refl: "listener_inv (fd_main db) \<Longrightarrow> contract fleet db db"
  by (simp add: grows_def)

lemma same_rows_contract:
  assumes "same_rows db db'" "listener_inv (fd_main db)"
  shows "contract fleet db db' \<and> live_of fleet (fd_main db') = live_of fleet (fd_main db)"
  unfolding contract_main by (rule same_main) (use assms in \<open>simp_all add: same_rows_def\<close>)

lemma fleet_ask_cases:
  assumes "fleet_ask E C fleet q db = (r, db')" "listener_inv (fd_main db)"
  obtains (reading) "db' = db" | (observing) "same_rows db db'"
  | (stepping) ev where "fd_main db' = listener_step E L ev (fd_main db)" "listener_fleet ev = Some fleet"
      "(\<exists>e t. q = ForgetSession e t) \<or> (\<forall>e t. ev \<noteq> ClearSession fleet e t)" "\<forall>i t. ev \<noteq> InstallSession fleet i t"
proof (cases q)
  case (AcknowledgeMessage c i t)
  with assms show thesis
    by (intro stepping [of "Acknowledge fleet c i t"]) (auto simp: fleet_ask_def on_main_def split: prod.splits)
next
  case (CompleteAcquisition c i ids t)
  with assms show thesis
    by (intro stepping [of "AcquireComplete fleet c i ids t"]) (auto simp: fleet_ask_def on_main_def split: prod.splits)
next
  case (ConfirmEmptyPoll c t)
  with assms show thesis
    by (intro stepping [of "ConfirmDemand fleet c t"]) (auto simp: fleet_ask_def on_main_def split: prod.splits)
next
  case (ForgetSession e t)
  with assms show thesis
    by (intro stepping [of "ClearSession fleet e t"]) (auto simp: fleet_ask_def on_main_def split: prod.splits)
next
  case (PublishObservation ob t)
  with assms have "db' = snd (commit_fleet_tx (fleet_set_observed E C fleet ob t) db)"
    by (auto simp: fleet_ask_def on_fleet_def split: prod.splits)
  then have "same_rows db db'" by (auto simp: commit_fleet_tx_snd dest: observed_rows split: sum.split)
  then show thesis by (rule observing)
qed (use assms in \<open>auto simp: fleet_ask_def intro: reading\<close>)
lemma start_begun:
  assumes inv: "listener_inv m" and s: "listener_acquire_start E fleet c i t m = (Inr (Some ids), m')"
  shows "live_of fleet m = Some (se_epoch c) \<and> distinct ids \<and> Pair (se_epoch c) ` set ids \<subseteq> handed_of fleet m' - handed_of fleet m"
proof -
  let ?ev = "AcquireStart fleet c i t"
  have keyed: "acquisitions_keyed m" using inv by (rule listener_invD)
  from s have tx: "listener_acquire_start_tx E fleet c i t m = Inr (Some ids, m')"
    by (auto simp: listener_acquire_start_def commit_Inr)
  then have "listener_context_current E fleet c m = Inr True" by (cases rule: acquire_start_Inr) auto
  then have live: "live_of fleet m = Some (se_epoch c)" by (auto simp: live_of_def dest: context_session)
  have started: "started_by E ?ev m = map (\<lambda>q. (fleet, se_epoch c, q)) ids" and m': "listener_step E L ?ev m = m'" for L
    using s by simp_all
  have "distinct ids"
    using started_by_pending(1) [OF keyed, of E ?ev] unfolding started distinct_map by blast
  moreover have "Pair (se_epoch c) ` set ids \<subseteq> handed_of fleet m' - handed_of fleet m"
    using started_by_pending(2) [OF keyed, of _ E ?ev] unfolding started m' by (auto simp: handed_of_def)
  ultimately show ?thesis using live by blast
qed

lemma collected: "map f xs = map Inr ys \<Longrightarrow> y \<in> set ys \<Longrightarrow> \<exists>x \<in> set xs. f x = Inr y"
  by (metis (no_types, lifting) image_iff list.set_map)

lemma pending_known:
  assumes "listener_pending E fleet c m = Inr ms" "x \<in> set ms"
  shows "(se_epoch c, im_id x) \<in> known_of fleet m"
proof -
  from assms have "map (\<lambda>(i, row). map_ok (\<lambda>_. listener_message_view fleet (se_epoch c) i row m) (listener_message E fleet c i m))
      (unfinished fleet (se_epoch c) m) = map Inr ms"
    by (auto simp: listener_pending_def and_then_Inr collect_Inr split: if_splits)
  from collected [OF this assms(2)] obtain i row where r: "(i, row) \<in> set (unfinished fleet (se_epoch c) m)"
    "x = listener_message_view fleet (se_epoch c) i row m" by (auto simp: map_ok_Inr)
  from r(1) have "((fleet, se_epoch c, i), row) \<in> set (ld_messages m)"
    by (auto simp: unfinished_def set_map_filter split: if_splits prod.splits)
  then have "map_of (ld_messages m) (fleet, se_epoch c, i) \<noteq> None" by (auto dest: weak_map_of_SomeI)
  with r(2) show ?thesis by (simp add: known_of_def message_of_def listener_message_view_def)
qed

lemma ingest_known:
  assumes "listener_ingest E L uuids fleet c x t m = (Inr (Some im), m')"
  shows "(se_epoch c, im_id im) \<in> known_of fleet m'"
proof -
  from assms have "listener_ingest_tx E L uuids fleet c x t m = Inr (Some im, m')" by (auto simp: listener_ingest_def commit_Inr)
  from ingest_stored [OF this] obtain row where "listener_message E fleet c (pm_id x) m' = Inr (Some row)"
    "im = listener_message_view fleet (se_epoch c) (pm_id x) row m'" by blast
  moreover from this(1) have "map_of (ld_messages m') (fleet, se_epoch c, pm_id x) = Some row" by (auto dest: listener_message_Inr)
  ultimately show ?thesis by (simp add: known_of_def message_of_def listener_message_view_def)
qed

lemma around_contract:
  assumes "listener_inv (fd_main db)"
  shows "contract fleet db (around E L C fleet ev db) \<and> live_of fleet (fd_main (around E L C fleet ev db)) = live_of fleet (fd_main db)"
proof (cases ev)
  case (ListenerDoes lev)
  show ?thesis
  proof (cases "listener_fleet lev = Some fleet \<or> (\<exists>l hs cs rs ret js fs ob. lev = Elsewhere l hs cs rs ret js fs ob)")
    case True
    with ListenerDoes assms show ?thesis by (auto simp: around_def contract_refl)
  next
    case False
    then have "fd_main (around E L C fleet ev db) = listener_step E L lev (fd_main db)"
      using ListenerDoes by (cases lev) (auto simp: around_def)
    with False assms show ?thesis unfolding contract_main by (simp add: main_step epochs_kept)
  qed
next
  case (Surroundings t)
  then show ?thesis
    by (intro same_rows_contract assms) (simp add: around_def Let_def same_rows_def surrounded_def)
qed (use assms step_rows [of ev db E L C] in \<open>auto intro!: same_rows_contract simp: around_def\<close>)

interpretation fl: message_laws "fleet_store E L C uuids fleet" "around E L C fleet" "listener_inv \<circ> fd_main"
  "known_of fleet \<circ> fd_main" "handed_of fleet \<circ> fd_main" "live_of fleet \<circ> fd_main" for E L C uuids fleet
proof
  fix s q r s'
  assume ok: "(listener_inv \<circ> fd_main) s" and a: "ms_ask (fleet_store E L C uuids fleet) q s = (r, s')"
  then have ask: "fleet_ask E C fleet q s = (r, s')" and inv: "listener_inv (fd_main s)" by (simp_all add: fleet_store_def)
  show "contract fleet s s'"
    by (rule fleet_ask_cases [OF ask inv, where L = L]) (use inv in \<open>auto simp: contract_main main_step contract_refl [unfolded contract_main]
        dest: same_rows_contract [unfolded contract_main]\<close>)
  show "(live_of fleet \<circ> fd_main) s' = (live_of fleet \<circ> fd_main) s" if "\<And>e t. q \<noteq> ForgetSession e t"
    by (rule fleet_ask_cases [OF ask inv, where L = L]) (use inv that in \<open>auto simp: epochs_kept dest: same_rows_contract\<close>)
next
  fix s c s'
  assume "(listener_inv \<circ> fd_main) s" "ms_ask (fleet_store E L C uuids fleet) (ListenerCurrent c) s = (Inr True, s')"
  then show "(live_of fleet \<circ> fd_main) s = Some (se_epoch c)"
    by (auto simp: fleet_store_def fleet_ask_def read_main_def map_err_Inr live_of_def dest: context_session)
next
  fix s c ms m
  assume "ms_pending (fleet_store E L C uuids fleet) c s = Inr ms" "m \<in> set ms"
  then show "(se_epoch c, im_id m) \<in> (known_of fleet \<circ> fd_main) s"
    by (auto simp: fleet_store_def read_main_def map_err_Inr intro: pending_known)
next
  fix s c x t r s'
  assume ok: "(listener_inv \<circ> fd_main) s" and a: "ms_ingest (fleet_store E L C uuids fleet) c x t s = (r, s')"
  then show "contract fleet s s' \<and> (live_of fleet \<circ> fd_main) s' = (live_of fleet \<circ> fd_main) s"
    using on_main_step [where f = "listener_ingest E L (uuids s) fleet c x t" and db = s and r = r and db' = s' and E = E and L = L and ev = "Deliver fleet c x (uuids s) t" and fleet = fleet]
      epochs_kept [of "fd_main s" "Deliver fleet c x (uuids s) t" fleet E L] by (simp add: fleet_store_def)
next
  fix s c x t m s'
  assume "ms_ingest (fleet_store E L C uuids fleet) c x t s = (Inr (Some m), s')"
  then show "(se_epoch c, im_id m) \<in> (known_of fleet \<circ> fd_main) s'"
    by (auto simp: fleet_store_def on_main_def map_err_Inr intro: ingest_known split: prod.splits)
next
  fix s c i t r s'
  assume ok: "(listener_inv \<circ> fd_main) s" and a: "ms_start (fleet_store E L C uuids fleet) c i t s = (r, s')"
  then show "contract fleet s s' \<and> (live_of fleet \<circ> fd_main) s' = (live_of fleet \<circ> fd_main) s"
    using on_main_step [where f = "listener_acquire_start E fleet c i t" and db = s and r = r and db' = s' and E = E and L = L and ev = "AcquireStart fleet c i t" and fleet = fleet]
      epochs_kept [of "fd_main s" "AcquireStart fleet c i t" fleet E L] by (simp add: fleet_store_def)
next
  fix s c i t ids s'
  assume inv: "(listener_inv \<circ> fd_main) s" and a: "ms_start (fleet_store E L C uuids fleet) c i t s = (Inr (Some ids), s')"
  then obtain m' where m': "listener_acquire_start E fleet c i t (fd_main s) = (Inr (Some ids), m')" "fd_main s' = m'"
    by (auto simp: fleet_store_def on_main_def map_err_Inr split: prod.splits)
  from start_begun [OF _ m'(1)] inv m'(2) show "(live_of fleet \<circ> fd_main) s = Some (se_epoch c) \<and> distinct ids
      \<and> Pair (se_epoch c) ` set ids \<subseteq> (handed_of fleet \<circ> fd_main) s' - (handed_of fleet \<circ> fd_main) s"
    by simp
next
  fix s install t r s'
  assume ok: "(listener_inv \<circ> fd_main) s" and a: "ms_install (fleet_store E L C uuids fleet) install t s = (r, s')"
  then show "contract fleet s s'"
    using on_main_step [where f = "session_install E fleet install t" and db = s and r = r and db' = s' and E = E and L = L and ev = "InstallSession fleet install t" and fleet = fleet]
    by (simp add: fleet_store_def)
next
  fix s :: fleet_db and e
  assume "(listener_inv \<circ> fd_main) s"
  then show "contract fleet s (around E L C fleet e s) \<and> (live_of fleet \<circ> fd_main) (around E L C fleet e s) = (live_of fleet \<circ> fd_main) s"
    using around_contract [of s fleet E L C e] by simp
qed

end
