(* ===== verification/Daemon_Run.thy ===== *)
theory Daemon_Run
  imports Listener_Life
begin

text \<open>
  The daemon of a Fleet over the store of the program: what its listeners guarantee in every interleaving,
  with every answer of GitHub, over crashes and whatever the rest of the program does to the store.
\<close>

section \<open>The daemon of a Fleet\<close>

definition fleet_daemon :: "external \<Rightarrow> listener_codec \<Rightarrow> fleet_codec \<Rightarrow> (fleet_db \<Rightarrow> nat \<Rightarrow> string) \<Rightarrow> string
    \<Rightarrow> fleet_event daemon_event list \<Rightarrow> fleet_db \<Rightarrow> fleet_db daemon" where
  "fleet_daemon E L C uuids fleet evs db =
     run_daemon (fleet_store E L C uuids fleet) (around E L C fleet) evs (fresh_daemon db)"

definition unlistened :: "fleet_db \<Rightarrow> bool" where
  "unlistened db \<longleftrightarrow> ld_sessions (fd_main db) = [] \<and> ld_messages (fd_main db) = [] \<and> ld_acquisitions (fd_main db) = []"

lemma unlistened_inv: "unlistened db \<Longrightarrow> (listener_inv \<circ> fd_main) db"
  by (simp add: unlistened_def empty_inv)

lemma daemon_guarded: "guarded (fleet_daemon E L C uuids fleet evs db)"
  unfolding fleet_daemon_def by (rule guarded_run) simp

text \<open>The calls that use a session, and those that replace or end one.\<close>

fun uses_session :: "unit prog \<Rightarrow> bool" where
  "uses_session (RemoteAck h i k) = True"
| "uses_session (RemoteAcquire h ids k) = True"
| "uses_session (StartAcquisition c i t k) = True"
| "uses_session (StoreMessage c m t k) = True"
| "uses_session p = False"

fun changes_session :: "unit prog \<Rightarrow> bool" where
  "changes_session (RemoteEstablish s w k) = True"
| "changes_session (RemoteDelete c s i k) = True"
| "changes_session (StoreSession install t k) = True"
| "changes_session (AskStore (ForgetSession e t) k) = True"
| "changes_session p = False"

lemma uses_claimed: "wp p Q v \<Longrightarrow> uses_session p \<Longrightarrow> v_gate v = Some SharedClaim"
  by (cases p) auto

lemma changes_exclusive: "wp p Q v \<Longrightarrow> changes_session p \<Longrightarrow> v_gate v = Some ExclusiveGate"
proof (cases p)
  case (AskStore q k)
  then show "wp p Q v \<Longrightarrow> changes_session p \<Longrightarrow> v_gate v = Some ExclusiveGate"
    by (cases q) (simp_all add: may_ask_def)
qed auto

lemma guarded_pair:
  assumes "guarded d" "i < length (dm_tasks d)" "j < length (dm_tasks d)" "i \<noteq> j"
  shows "compatible (tk_owner (dm_tasks d ! i)) (tk_view (dm_tasks d ! i)) (tk_owner (dm_tasks d ! j)) (tk_view (dm_tasks d ! j))"
  using assms by (simp add: guarded_def)

lemma guarded_truthful:
  "guarded d \<Longrightarrow> t \<in> set (dm_tasks d) \<Longrightarrow> truthful (dm_memory d (tk_owner t)) (dm_log d) (tk_view t)"
  by (auto simp: guarded_def in_set_conv_nth)

section \<open>Bounds of the backoff\<close>

lemma jitter_bounds: "0 \<le> fleet_jitter key \<and> fleet_jitter key < 1000"
proof -
  have "0 \<le> fold (\<lambda>b n. (n + of_char b) mod 1000) key j \<and> fold (\<lambda>b n. (n + of_char b) mod 1000) key j < 1000"
    if "0 \<le> j" "j < 1000" for j :: int
    using that by (induction key arbitrary: j) simp_all
  from this [of 0] show ?thesis by (simp add: fleet_jitter_def)
qed

lemma backoff_bounds: "1 \<le> n \<Longrightarrow> 10 \<le> backoff_seconds n \<and> backoff_seconds n \<le> 160"
proof -
  assume n: "1 \<le> n"
  then consider "n = 1" | "n = 2" | "n = 3" | "n = 4" | "5 \<le> n" by linarith
  then show ?thesis by cases (simp_all add: backoff_seconds_def)
qed

lemma backoff_mono: "n \<le> m \<Longrightarrow> backoff_seconds n \<le> backoff_seconds m"
  by (simp add: backoff_seconds_def power_increasing)

section \<open>Properties\<close>

text \<open>A request leaves for GitHub at most once: over every interleaving of the tasks of any number of
  listeners of a Fleet, every answer or loss of an answer, crashes and everything the rest of the program does,
  no job request of a session epoch is sent in two acquisitions, nor twice in one.\<close>

theorem requests_sent_once:
  assumes "unlistened db"
  shows "distinct (requested (dm_log (fleet_daemon E L C uuids fleet evs db)))"
  unfolding fleet_daemon_def by (rule fl.requests_distinct) (rule unlistened_inv [OF assms])

text \<open>What is in flight belongs to the live session: whenever a task is acknowledging or acquiring over a
  session, the store holds the session of that epoch as the current one, the message is stored, and
  every request was handed out by the ledger before.\<close>

theorem effects_of_live_session:
  assumes "unlistened db" "t \<in> set (dm_tasks (fleet_daemon E L C uuids fleet evs db))"
  shows "case tk_prog t of
      RemoteAck h i k \<Rightarrow> live_of fleet (fd_main (dm_store (fleet_daemon E L C uuids fleet evs db))) = Some (ps_epoch h)
        \<and> message_of (fd_main (dm_store (fleet_daemon E L C uuids fleet evs db))) (fleet, ps_epoch h, i) \<noteq> None
    | RemoteAcquire h ids k \<Rightarrow> live_of fleet (fd_main (dm_store (fleet_daemon E L C uuids fleet evs db))) = Some (ps_epoch h)
        \<and> Pair (ps_epoch h) ` set ids \<subseteq> handed_of fleet (fd_main (dm_store (fleet_daemon E L C uuids fleet evs db)))
    | _ \<Rightarrow> True"
proof -
  note t = assms(2) [unfolded fleet_daemon_def] and ok = unlistened_inv [OF assms(1)]
  show ?thesis
  proof (cases "tk_prog t")
    case (RemoteAck h i k)
    from fl.in_flight(1) [OF ok t this] show ?thesis
      unfolding RemoteAck fleet_daemon_def by (simp add: known_of_def)
  next
    case (RemoteAcquire h ids k)
    from fl.in_flight(2) [OF ok t this] show ?thesis
      unfolding RemoteAcquire fleet_daemon_def by simp
  qed simp_all
qed

text \<open>Replacing a session drains it: while a task establishes, deletes, records or forgets a session, no other
  task of the Fleet stores a message, acknowledges, starts or sends an acquisition, or changes a session.\<close>

theorem session_changes_drain:
  assumes "i < length (dm_tasks (fleet_daemon E L C uuids fleet evs db))" "j < length (dm_tasks (fleet_daemon E L C uuids fleet evs db))"
    and "i \<noteq> j" "changes_session (tk_prog (dm_tasks (fleet_daemon E L C uuids fleet evs db) ! i))"
  shows "\<not> uses_session (tk_prog (dm_tasks (fleet_daemon E L C uuids fleet evs db) ! j))
    \<and> \<not> changes_session (tk_prog (dm_tasks (fleet_daemon E L C uuids fleet evs db) ! j))"
proof -
  let ?d = "fleet_daemon E L C uuids fleet evs db"
  have w: "wp (tk_prog (dm_tasks ?d ! n)) (\<lambda>_ v. at_rest v) (tk_view (dm_tasks ?d ! n))" if "n < length (dm_tasks ?d)" for n
    using guarded_task [OF daemon_guarded [of E L C uuids fleet evs db], of "dm_tasks ?d ! n"] that by simp
  from changes_exclusive [OF w [OF assms(1)] assms(4)] guarded_pair [OF daemon_guarded assms(1-3)]
  have "v_gate (tk_view (dm_tasks ?d ! j)) = None" by (simp add: compatible_def)
  with uses_claimed [OF w [OF assms(2)]] changes_exclusive [OF w [OF assms(2)]] show ?thesis by force
qed

text \<open>No session is leaked: in a run without a crash, once the tasks are done every session that GitHub
  confirmed was recorded in the store, deleted at GitHub, or is remembered by a listener as still to be
  cleared, which its next pass does first.\<close>

theorem no_session_leaked:
  assumes "Crash \<notin> set evs" "list_all (\<lambda>t. finished (tk_prog t)) (dm_tasks (fleet_daemon E L C uuids fleet evs db))"
    and "i \<in> loose (dm_log (fleet_daemon E L C uuids fleet evs db))"
  shows "\<exists>k s h. ls_uncommitted (dm_memory (fleet_daemon E L C uuids fleet evs db) k) = Some (s, h) \<and> sh_session_id h = i"
proof -
  let ?d = "fleet_daemon E L C uuids fleet evs db"
  have "accounted ?d"
    unfolding fleet_daemon_def by (rule accounted_run [OF assms(1) guarded_fresh]) (simp add: accounted_def fresh_daemon_def)
  moreover have "v_hand (tk_view t) = None" if "t \<in> set (dm_tasks ?d)" for t
  proof -
    have "finished (tk_prog t)" using assms(2) that by (auto simp: list_all_iff)
    with guarded_task [OF daemon_guarded that] show ?thesis by (simp add: finished_def at_rest_def)
  qed
  ultimately show ?thesis
    using assms(3) unfolding accounted_def holds_session_def by (force simp: fresh_view_def fresh_memory_def)
qed

text \<open>Ready is published only over a listener without a failure: a task that writes a Ready observation holds
  the lock of its listener, whose memory has no failure at that moment.\<close>

theorem ready_without_failure:
  assumes "t \<in> set (dm_tasks (fleet_daemon E L C uuids fleet evs db))"
    and "tk_prog t = AskStore (PublishObservation ob now) k" "ob_phase ob = Ready"
  shows "ls_reason (dm_memory (fleet_daemon E L C uuids fleet evs db) (tk_owner t)) = None
    \<and> \<not> lock_open (tk_owner t) (dm_tasks (fleet_daemon E L C uuids fleet evs db))"
proof -
  let ?d = "fleet_daemon E L C uuids fleet evs db"
  from guarded_task [OF daemon_guarded assms(1)] obtain m where m: "v_held (tk_view t)" "v_seen (tk_view t) = Some m" "ls_reason m = None"
    unfolding assms(2) using assms(3) by (auto simp: may_ask_def)
  with guarded_truthful [OF daemon_guarded assms(1)] have "dm_memory ?d (tk_owner t) = m" by (simp add: truthful_def)
  with m assms(1) show ?thesis by (auto simp: lock_open_def list_all_iff)
qed

text \<open>Acknowledgements follow the ledger and GitHub: whatever was acknowledged at GitHub is a message the
  store holds, and a task that marks a message as acknowledged does so after GitHub confirmed it.\<close>

theorem acknowledgements_confirmed:
  assumes "unlistened db"
  shows "(\<forall>e i b. AckSent e i b \<in> set (dm_log (fleet_daemon E L C uuids fleet evs db)) \<longrightarrow>
       message_of (fd_main (dm_store (fleet_daemon E L C uuids fleet evs db))) (fleet, e, i) \<noteq> None)
    \<and> (\<forall>t \<in> set (dm_tasks (fleet_daemon E L C uuids fleet evs db)). \<forall>c i now k. tk_prog t = AskStore (AcknowledgeMessage c i now) k \<longrightarrow>
       AckSent (se_epoch c) i True \<in> set (dm_log (fleet_daemon E L C uuids fleet evs db)))"
proof (intro conjI allI ballI impI)
  fix e i b assume "AckSent e i b \<in> set (dm_log (fleet_daemon E L C uuids fleet evs db))"
  from fl.acks_stored [OF unlistened_inv [OF assms] this [unfolded fleet_daemon_def]]
  show "message_of (fd_main (dm_store (fleet_daemon E L C uuids fleet evs db))) (fleet, e, i) \<noteq> None"
    by (simp add: known_of_def fleet_daemon_def)
next
  fix t c i now k assume t: "t \<in> set (dm_tasks (fleet_daemon E L C uuids fleet evs db))" "tk_prog t = AskStore (AcknowledgeMessage c i now) k"
  from guarded_task [OF daemon_guarded t(1)] have "(se_epoch c, i) \<in> v_confirmed (tk_view t)"
    unfolding t(2) by simp
  with guarded_truthful [OF daemon_guarded t(1)] show "AckSent (se_epoch c) i True \<in> set (dm_log (fleet_daemon E L C uuids fleet evs db))"
    by (simp add: truthful_def)
qed

text \<open>The tasks come to an end, and never block each other for good: from any configuration there is no infinite
  sequence of steps of the tasks, and as long as one of them is unfinished some task can make a step; when none
  can, all are done and every gate and lock is free.\<close>

theorem tasks_finish:
  "(\<nexists>f. f 0 = fleet_daemon E L C uuids fleet evs db \<and> (\<forall>n. proceeds (fleet_store E L C uuids fleet) (f n) (f (Suc n))))
   \<and> ((\<exists>d'. proceeds (fleet_store E L C uuids fleet) (fleet_daemon E L C uuids fleet evs db) d')
     \<or> list_all (\<lambda>t. finished (tk_prog t)) (dm_tasks (fleet_daemon E L C uuids fleet evs db))
       \<and> gate_open ExclusiveGate (dm_tasks (fleet_daemon E L C uuids fleet evs db))
       \<and> (\<forall>k. lock_open k (dm_tasks (fleet_daemon E L C uuids fleet evs db))))"
  (is "?ends \<and> (?moves \<or> ?done)")
proof
  show ?ends
    using wf_proceeds [of "fleet_store E L C uuids fleet"] unfolding wf_iff_no_infinite_down_chain by blast
next
  let ?d = "fleet_daemon E L C uuids fleet evs db"
  have "?done" if "\<not> ?moves"
  proof -
    have fin: "finished (tk_prog t)" if "t \<in> set (dm_tasks ?d)" for t
      using no_deadlock [OF daemon_guarded that] \<open>\<not> ?moves\<close> by (auto simp: proceeds_def)
    have "at_rest (tk_view t)" if "t \<in> set (dm_tasks ?d)" for t
      using guarded_task [OF daemon_guarded that] fin [OF that] by (simp add: finished_def)
    with fin show ?thesis by (auto simp: list_all_iff gate_open_def lock_open_def at_rest_def)
  qed
  then show "?moves \<or> ?done" by blast
qed

text \<open>The backoff is bounded and respects GitHub: after a failure the listener waits at least ten seconds, at
  least as long as a rate limit asked for, at most 161 seconds otherwise, never less after more failures,
  and no deadline overflows.\<close>

theorem backoff_bounded:
  assumes "0 \<le> now" "now \<le> i64_max" "1 \<le> n" "n \<le> m"
  shows "retry_deadline key failure n now \<le> i64_max
    \<and> min i64_max (now + 10000) \<le> retry_deadline key failure n now
    \<and> (case failure of
         AccessRateLimited (Some delay) \<Rightarrow> min i64_max (now + int delay) \<le> retry_deadline key failure n now
       | _ \<Rightarrow> retry_deadline key failure n now < now + 161000)
    \<and> retry_deadline key failure n now \<le> retry_deadline key failure m now"
proof -
  define j b where "j = fleet_jitter key" and "b = backoff_seconds n * 1000"
  have j: "0 \<le> j" "j < 1000" using jitter_bounds [of key] by (simp_all add: j_def)
  have b: "10000 \<le> b" "b \<le> 160000" using backoff_bounds [OF assms(3)] by (simp_all add: b_def)
  have dead: "retry_deadline key failure x now = min i64_max (min i64_max (now + retry_delay failure x) + j)"
    if "0 \<le> retry_delay failure x" for x
    using that assms(1) j by (simp add: retry_deadline_def j_def saturating_add_def saturate_i64_def i64_min_def i64_max_def)
  have ge: "b \<le> retry_delay failure n" and mono: "retry_delay failure n \<le> retry_delay failure m"
    using backoff_mono [OF assms(4)] by (auto simp: retry_delay_def b_def max_def split: access_failure.split option.split)
  have dn: "retry_deadline key failure n now = min i64_max (min i64_max (now + retry_delay failure n) + j)"
    and dm: "retry_deadline key failure m now = min i64_max (min i64_max (now + retry_delay failure m) + j)"
    using dead ge mono b(1) by simp_all
  have "case failure of AccessRateLimited (Some delay) \<Rightarrow> min i64_max (int delay) \<le> retry_delay failure n
      | _ \<Rightarrow> retry_delay failure n = b"
    by (simp add: retry_delay_def b_def min_def split: access_failure.split option.split)
  then show ?thesis
    unfolding dn dm using j b ge mono assms(1,2)
    by (cases failure) (auto simp: min_def split: option.splits if_splits)
qed

section \<open>A daemon at work\<close>

definition daemon_config :: listener_config where
  "daemon_config = \<lparr>lf_fleet = ''f'', lf_guard = listener_guard, lf_auth = listener_context, lf_max_capacity = 2, lf_retained = []\<rparr>"

definition daemon_sample :: "fleet_event daemon_event list \<Rightarrow> fleet_db daemon" where
  "daemon_sample evs = fleet_daemon listener_external listener_codec_sample head_codec (\<lambda>_ n. show_nat n) ''f'' evs fleet_start"

definition steps :: "nat \<Rightarrow> nat \<Rightarrow> fleet_event daemon_event list" where
  "steps i n = replicate n (Advance i (Clock 5))"

definition establishing :: "fleet_event daemon_event list" where
  "establishing = Call 0 (EnsureSession daemon_config 3) # steps 0 13"

definition opened :: "fleet_event daemon_event list" where
  "opened = establishing @ Advance 0 (EstablishAnswer (Inr (Definite (in_handle (listener_install None))))) # steps 0 4"

definition acquiring :: "fleet_event daemon_event list" where
  "acquiring = opened @ Call 0 (PollOnce daemon_config) # steps 1 8
     @ Advance 1 (PollAnswer (Inr (NewMessage listener_message_sample))) # steps 1 6 @ Advance 1 (AckAnswer (Inr ())) # steps 1 4"

definition served :: "fleet_event daemon_event list" where
  "served = acquiring @ Advance 1 (AcquireAnswer (Inr (Definite [5]))) # steps 1 9"

definition refused :: "fleet_event daemon_event list" where
  "refused = establishing @ [Advance 0 (EstablishAnswer (Inr (Definite (in_handle (listener_install None))))),
     Around (PutFleet (put_sample ''c1'' ''s2''))] @ steps 0 3 @ Advance 0 (DeleteAnswer (Inl AccessHidden)) # steps 0 8"

fun acquired_epoch :: "unit prog \<Rightarrow> int option" where
  "acquired_epoch (RemoteAcquire h ids k) = Some (ps_epoch h)"
| "acquired_epoch p = None"

fun asked_observation :: "unit prog \<Rightarrow> (fleet_observation \<times> int) option" where
  "asked_observation (AskStore (PublishObservation ob now) k) = Some (ob, now)"
| "asked_observation p = None"

lemma finished_code [code]: "finished p \<longleftrightarrow> (case p of Done x \<Rightarrow> True | _ \<Rightarrow> False)"
  by (cases p) (simp_all add: finished_def)

lemma start_unlistened: "unlistened fleet_start"
  by (simp add: unlistened_def fleet_start_def listener_start_def)

lemma served_log: "dm_log (daemon_sample served) = [AcquireSent 1 [5], AckSent 1 4 True, Recorded ''s'', Established ''s'']"
  by code_simp

lemma acquiring_now: "map (acquired_epoch \<circ> tk_prog) (dm_tasks (daemon_sample acquiring)) = [None, Some 1]"
  by code_simp

lemma refused_run:
  "list_all (\<lambda>t. finished (tk_prog t)) (dm_tasks (daemon_sample refused))"
  "''s'' \<in> loose (dm_log (daemon_sample refused))"
  by code_simp+

lemma ready_run:
  "map (\<lambda>t. (tk_owner t, asked_observation (tk_prog t)))
     (dm_tasks (daemon_sample (Call 0 (PublishStatus (ready_sample None listener_guard) 9) # steps 0 2)))
   = [(0, Some (ready_sample None listener_guard, 9))]"
  by code_simp

lemma requests_sent_once_witness:
  "requested (dm_log (daemon_sample served)) = [(1, 5)] \<and> distinct (requested (dm_log (daemon_sample served)))"
  using requests_sent_once [OF start_unlistened, of listener_external listener_codec_sample head_codec "\<lambda>_ n. show_nat n" "''f''" served]
  by (simp add: served_log flip: daemon_sample_def)

lemma effects_of_live_session_witness:
  "live_of ''f'' (fd_main (dm_store (daemon_sample acquiring))) = Some 1"
proof -
  have "dm_tasks (daemon_sample acquiring) \<noteq> []" and "acquired_epoch (tk_prog (last (dm_tasks (daemon_sample acquiring)))) = Some 1"
    using acquiring_now by (auto simp: map_eq_Cons_conv)
  then obtain t where t: "t \<in> set (dm_tasks (daemon_sample acquiring))" "acquired_epoch (tk_prog t) = Some 1"
    using last_in_set by blast
  then obtain h ids k where "tk_prog t = RemoteAcquire h ids k" "ps_epoch h = 1"
    by (cases "tk_prog t") simp_all
  with effects_of_live_session [OF start_unlistened t(1) [unfolded daemon_sample_def]] show ?thesis
    by (simp add: daemon_sample_def)
qed

lemma session_changes_drain_witness:
  "\<not> uses_session (tk_prog (dm_tasks (daemon_sample (establishing @ [Call 1 (PollOnce daemon_config)])) ! 1))"
proof -
  let ?d = "daemon_sample (establishing @ [Call 1 (PollOnce daemon_config)])"
  have run: "map (changes_session \<circ> tk_prog) (dm_tasks ?d) = [True, False]" by code_simp
  then have "length (dm_tasks ?d) = 2" by (metis length_map length_Cons list.size(3) Suc_1 One_nat_def)
  moreover from this run have "changes_session (tk_prog (dm_tasks ?d ! 0))" by (metis nth_map comp_apply nth_Cons_0 zero_less_numeral)
  ultimately show ?thesis
    using session_changes_drain [of 0 listener_external listener_codec_sample head_codec "\<lambda>_ n. show_nat n" "''f''"
        "establishing @ [Call 1 (PollOnce daemon_config)]" fleet_start 1]
    by (simp flip: daemon_sample_def)
qed

lemma no_session_leaked_witness:
  "\<exists>k s h. ls_uncommitted (dm_memory (daemon_sample refused) k) = Some (s, h) \<and> sh_session_id h = ''s''"
  unfolding daemon_sample_def
  by (rule no_session_leaked) (use refused_run in \<open>simp_all add: refused_def establishing_def steps_def flip: daemon_sample_def\<close>)

lemma ready_without_failure_witness:
  "ls_reason (dm_memory (daemon_sample (Call 0 (PublishStatus (ready_sample None listener_guard) 9) # steps 0 2)) 0) = None"
proof -
  let ?d = "daemon_sample (Call 0 (PublishStatus (ready_sample None listener_guard) 9) # steps 0 2)"
  from ready_run obtain t where t: "t \<in> set (dm_tasks ?d)" "tk_owner t = 0"
      "asked_observation (tk_prog t) = Some (ready_sample None listener_guard, 9)"
    by (auto simp: map_eq_Cons_conv)
  then obtain k where "tk_prog t = AskStore (PublishObservation (ready_sample None listener_guard) 9) k"
    by (cases "tk_prog t" rule: asked_observation.cases) simp_all
  with ready_without_failure [OF t(1) [unfolded daemon_sample_def]] t(2) show ?thesis
    by (simp add: daemon_sample_def ready_sample_def)
qed

lemma acknowledgements_confirmed_witness:
  "message_of (fd_main (dm_store (daemon_sample served))) (''f'', 1, 4) \<noteq> None"
proof -
  have "AckSent 1 4 True \<in> set (dm_log (daemon_sample served))" by (simp add: served_log)
  then show ?thesis
    unfolding daemon_sample_def by (rule acknowledgements_confirmed [OF start_unlistened, THEN conjunct1, rule_format])
qed

lemma backoff_bounded_witness:
  "retry_deadline ''f'' (AccessRateLimited (Some 30000)) 1 5 \<le> retry_deadline ''f'' (AccessRateLimited (Some 30000)) 9 5
   \<and> 30005 \<le> retry_deadline ''f'' (AccessRateLimited (Some 30000)) 1 5"
  using backoff_bounded [of 5 1 9 "''f''" "AccessRateLimited (Some 30000)"] by (simp add: i64_max_def)

end
