(* ===== verification/Spec2Isabelle.thy ===== *)
theory Spec2Isabelle
  imports Capacity Identity Jobs Auth_Routes Template_Flow Ledger_Run Fleet_Run Daemon_Run
begin

text \<open>
  Shaula runs ephemeral CI runners: a daemon decides how many runners (\<open>Generations\<close>) a Fleet needs, a
  worker process per Generation applies and destroys them with Terraform, and one SQLite database holds
  what every side may rely on after a crash.  This library models the decision logic of
  \<open>crates/shaula-core\<close> and the ledger of \<open>crates/shaula-store\<close>, and proves what the rest of the program
  relies on.

  \<^bold>\<open>Parts and theories.\<close>

  \<^item> \<open>Prelude\<close> holds results as sums (\<open>Inl\<close> the error), loops that stop at the first error, 64-bit
    saturating and checked arithmetic and the string operations of the standard library; \<open>Reasons\<close> the
    reason codes of \<open>error.rs\<close>; \<open>Json\<close> a JSON value and its accessors.
  \<^item> \<open>Lifecycle\<close> (\<open>lifecycle.rs\<close>) is the state machine of a Generation, \<open>Capacity\<close> (\<open>capacity.rs\<close>) the number
    of runners to create, \<open>Template_Pool\<close> (\<open>template_pool.rs\<close>) the weighted draw of a template,
    \<open>Identity\<close> (\<open>auth.rs\<close>) keys and canonical hash material, \<open>Auth_Routes\<close> (\<open>github.rs\<close>,
    \<open>auth_policy.rs\<close>, \<open>auth_context.rs\<close>) which installation a target is reached through, \<open>Jobs\<close>
    (\<open>jobs/\<close>) what a set of observations says of a workflow job.
  \<^item> \<open>State_Backend\<close> (\<open>state_backend/\<close>, \<open>worker.rs\<close>) is the vocabulary of the Terraform state backend: claims,
    capabilities, lock infos, state documents, receipts.  Hashing, UUID and JSON parsing are the fields
    of the record \<open>external\<close>, an argument of what uses them; \<open>Sample_External\<close> instantiates it with a
    concrete codec, so that witnesses can compute.
  \<^item> \<open>Ledger\<close> (\<open>entities/\<close>, \<open>m0007_http_state.rs\<close>, \<open>m0027_lifecycle_workers.rs\<close>) has the tables as
    association lists, with their keys and CHECK constraints, so that a violated constraint is the error
    the code would see.  A transaction is a function from a ledger to an error or a value and the new
    ledger: \<open>Inl\<close> leaves the ledger alone, as a rollback does.
  \<^item> \<open>Generations\<close> (\<open>lifecycle_repo.rs\<close>, \<open>generation_counts.rs\<close>, \<open>runner_lifetime.rs\<close>), \<open>Http_State\<close>
    (\<open>http_state/row.rs\<close>, \<open>operations.rs\<close>, \<open>admin.rs\<close>), \<open>Worker_Ledger\<close> (\<open>worker.rs\<close>, \<open>worker_journal.rs\<close>,
    \<open>worker_effect.rs\<close>, \<open>worker_completion.rs\<close>, \<open>create_proof.rs\<close>, \<open>admissions.rs\<close>), \<open>Recovery\<close>
    (\<open>recovery.rs\<close>, \<open>operator.rs\<close>) and \<open>Pool_Admission\<close> (\<open>pool_admission.rs\<close>,
    \<open>lifecycle_pool_admit.rs\<close>) are the operations over it, one definition per handler.
  \<^item> \<open>Plan_Admission\<close> (\<open>plan.rs\<close>, \<open>plan_admit.rs\<close>, \<open>plan_checks.rs\<close>) parses a saved Terraform plan and
    admits it, \<open>Raw_State\<close> (\<open>engine_state.rs\<close>) parses a pulled state, and \<open>Template_Flow\<close>
    (\<open>runtime_create.rs\<close>, \<open>runtime_destroy.rs\<close>, \<open>runtime_apply.rs\<close>) has the two flows that use them: what
    files, Terraform and the intent sink answer is a record with one field per call site, a flow returns
    its outcome and the effects it had, in order.
  \<^item> \<open>Listener\<close> (\<open>listener_messages.rs\<close>, \<open>listener_acquisitions.rs\<close>, \<open>lifecycle_sessions.rs\<close>,
    \<open>runtime_guards.rs\<close>, \<open>jobs/ingest.rs\<close>) has the message queue of a Scale Set session as the store keeps
    it, \<open>Listener_Run\<close> its runs over deliveries, sessions, crashes and lost replies.
  \<^item> \<open>Fleet_Head\<close> (\<open>fleet_repo.rs\<close>, \<open>fleet_observations.rs\<close>, \<open>fleet_auth_*.rs\<close>, \<open>auth_policy_repo.rs\<close>,
    \<open>registry_impl/commits_*.rs\<close>, \<open>service_fleet_ops.rs\<close>) has the head of a Fleet with its mutation fence,
    revisions, Changes, handoffs and the DELETE request, \<open>Fleet_Run\<close> the runs in which mutations,
    acknowledgements, promotions, observations and the listener meet.
  \<^item> \<open>Protocol\<close> is the specification: the life of one Generation as a small state machine over what matters
    (\<open>cell\<close>), its steps and its invariant.  \<open>Refinement\<close> shows that each operation moves each cell by such
    steps or not at all, \<open>Ledger_Run\<close> that every interleaving of operations, crashes and changes of
    fleets and templates is a run of the protocol, and draws the consequences.

  \<^bold>\<open>What is shown.\<close>  Over every run: at most one Create effect is ever permitted for a Generation; a worker
  superseded by recovery changes nothing any more; the state history only grows, and a sealed state is
  not written; receipts and destroyed Generations go together and both are final; exactly when the
  control plane can complete a Generation and the operator finalise one.  For the flows: an apply is
  started only after its intent was recorded, its plan admitted and everything it was admitted with checked
  again; a Destroy deletes only addresses of the state this Generation created, and reports success only
  over an empty state; a plan is admitted exactly when its changes are those the manifest declares.  For the listener: a
  request is acquired at most once, the checkpoint is exact, a superseded session is inert.  For Fleets: an
  accepted mutation invalidates every guard captured before it, no update is lost, deletion is final,
  resources are only replaced when there are none, an acknowledged handoff opens the guard for one context,
  \<open>Ready\<close> means a live session, a retried DELETE is answered as before; and two ways in which a Change is left
  open for ever.  For
  single parts: capacity never overshoots and converges, draws are unbiased, pool admission keeps both limits and is
  idempotent, the lock is exclusive, policies and job projections do not depend on order, routes resolve
  exactly when they are unique, encodings are injective and persisted texts round-trip.

  \<^bold>\<open>Bounds.\<close>  \<open>i64\<close> values are integers, with the checked, saturating and wrapping operations of the code
  written out (\<open>checked_add\<close>, \<open>saturating_add\<close>, \<open>sub_i64\<close>); \<open>u64\<close> counters wrap explicitly.  The only loop
  that may run for ever, the resampling of pool admission, takes the list of entropy samples as an
  argument and is \<open>None\<close> when they run out; \<open>weighted_selection_total\<close> bounds how many values of the
  entropy ask for another sample.

  Desired revisions, fences and attempts of Fleets are integers: the code's \<open>+ 1\<close> on \<open>i64\<close> is not expected to
  overflow.

  The \<open>{:?}\<close> of an index key is written out for ASCII, characters beyond it are taken as printable.

  \<^bold>\<open>Not modelled.\<close>  Remote services (GitHub, Forgejo, GitLab), Terraform, files, processes, HTTP and
  telemetry are outside: their effect on the ledger is an event of a run.  Serde, SHA-256, UUID parsing
  and the clock are parameters or arguments.  Diagnostics tickets written beside a decision are left
  out.  SQL errors other than violated constraints (a full disk, a busy database) only abort a
  transaction, which every run already allows.
\<close>

end
